(* ===== verification/Prelude.thy ===== *)
theory Prelude
  imports Main "HOL-Library.Word"
begin

text \<open>
  The Go fragment every component shares: the outcome of a call that may panic, errors as
  values, 32-bit integers, the two loop shapes of the operator (a counted loop, and a counted
  loop whose body may return early), and the functions of the packages \<open>fmt\<close>, \<open>strconv\<close> and
  \<open>strings\<close> that the sources call, with the lemmas the components use about them.
\<close>

named_theorems go_simps \<open>evaluation rules for outcomes and loops\<close>

section \<open>Errors and outcomes\<close>

text \<open>
  An \<open>error\<close> value. \<open>StatusError\<close> is an answer of the API server with its reason, \<open>ErrorsNew\<close>
  an error the operator makes itself with \<open>errors.New\<close> or \<open>fmt.Errorf\<close>. A nil error is \<open>None\<close>.
\<close>

datatype goerror = StatusError string string | ErrorsNew string

primrec err_text :: "goerror \<Rightarrow> string" where
  "err_text (StatusError reason msg) = msg"
| "err_text (ErrorsNew msg) = msg"

text \<open>The outcome of a statement: it yields a value, or the goroutine panics.\<close>

datatype 'a go = Val 'a | Panic string

fun go_bind :: "'a go \<times> 'w \<Rightarrow> ('a \<Rightarrow> 'w \<Rightarrow> 'b go \<times> 'w) \<Rightarrow> 'b go \<times> 'w" where
  "go_bind (Val a, w) f = f a w"
| "go_bind (Panic m, w) f = (Panic m, w)"

declare go_bind.simps [go_simps]

lemma go_bind_Val_iff:
  "go_bind p f = (Val b, w') \<longleftrightarrow> (\<exists>a w. p = (Val a, w) \<and> f a w = (Val b, w'))"
  by (cases "(p, f)" rule: go_bind.cases) auto

definition returns :: "'a go \<times> 'w \<Rightarrow> bool" where
  "returns p \<longleftrightarrow> (\<exists>a. fst p = Val a)"

lemma returns_simps [simp, go_simps]:
  "returns (Val a, w)"
  "\<not> returns (Panic m, w)"
  by (simp_all add: returns_def)

lemma returnsE:
  assumes "returns p"
  obtains a w where "p = (Val a, w)"
  using assms by (cases p) (auto simp: returns_def)

section \<open>Integers\<close>

text \<open>\<open>int32\<close> as a 32-bit word read as two's complement; \<open>int\<close> (64 bit) as \<^typ>\<open>int\<close>: the only
  values of that type are loop indices and counts far below its range.\<close>

type_synonym int32 = "32 word"
type_synonym int64 = "64 word"

lemma sint_int32_bounds: "- (2 ^ 31) \<le> sint (n :: int32)" "sint (n :: int32) < 2 ^ 31"
  using sint_ge [of n] sint_lt [of n] by simp_all

lemma sint_of_int32:
  "- (2 ^ 31) \<le> i \<Longrightarrow> i < 2 ^ 31 \<Longrightarrow> sint (word_of_int i :: int32) = i"
  by (simp add: sint_sbintrunc' signed_take_bit_int_eq_self)

lemma word_of_int_sint32 [simp]: "(word_of_int (sint (n :: int32)) :: int32) = n"
  by simp

section \<open>Loops\<close>

text \<open>\<open>for i := lo; i < hi; i++ { s = body(i, s) }\<close> over an \<open>int\<close>.\<close>

function for_int :: "int \<Rightarrow> int \<Rightarrow> (int \<Rightarrow> 's \<Rightarrow> 's) \<Rightarrow> 's \<Rightarrow> 's" where
  "for_int i hi body s = (if i < hi then for_int (i + 1) hi body (body i s) else s)"
  by pat_completeness auto
termination
  by (relation "measure (\<lambda>(i, hi, body, s). nat (hi - i))") auto

declare for_int.simps [simp del]

text \<open>The same loop over an \<open>int32\<close>: the comparison is signed and the increment wraps.\<close>

lemma sint_succ_less:
  assumes "sint (i :: int32) < sint (hi :: int32)"
  shows "sint (i + 1) = sint i + 1"
proof -
  have "sint (word_of_int (sint i + 1) :: int32) = sint i + 1"
    using assms sint_int32_bounds [of i] sint_int32_bounds [of hi] by (intro sint_of_int32) auto
  then show ?thesis by simp
qed

function for_int32 :: "int32 \<Rightarrow> int32 \<Rightarrow> (int32 \<Rightarrow> 's \<Rightarrow> 's) \<Rightarrow> 's \<Rightarrow> 's" where
  "for_int32 i hi body s =
     (if sint i < sint hi then for_int32 (i + 1) hi body (body i s) else s)"
  by pat_completeness auto
termination
  by (relation "measure (\<lambda>(i, hi, body, s). nat (sint hi - sint i))") (auto simp: sint_succ_less)

declare for_int32.simps [simp del]

text \<open>
  A loop whose body may return from the enclosing function (\<open>Some r\<close>) or panic. Falling off
  the end of the loop is \<open>None\<close>.
\<close>

function for_ret ::
  "int \<Rightarrow> int \<Rightarrow> (int \<Rightarrow> 's \<Rightarrow> 'r option go \<times> 's) \<Rightarrow> 's \<Rightarrow> 'r option go \<times> 's" where
  "for_ret i hi body s =
     (if i < hi then
        (case body i s of
           (Panic m, s') \<Rightarrow> (Panic m, s')
         | (Val (Some r), s') \<Rightarrow> (Val (Some r), s')
         | (Val None, s') \<Rightarrow> for_ret (i + 1) hi body s')
      else (Val None, s))"
  by pat_completeness auto
termination
  by (relation "measure (\<lambda>(i, hi, body, s). nat (hi - i))") auto

declare for_ret.simps [simp del]

lemma for_int_done [simp, go_simps]: "hi \<le> i \<Longrightarrow> for_int i hi body s = s"
  by (simp add: for_int.simps)

lemma for_int_step [go_simps]:
  "i < hi \<Longrightarrow> for_int i hi body s = for_int (i + 1) hi body (body i s)"
  by (subst for_int.simps) simp

lemma for_ret_done [simp, go_simps]: "hi \<le> i \<Longrightarrow> for_ret i hi body s = (Val None, s)"
  by (simp add: for_ret.simps)

text \<open>The 32-bit loop visits the same indices as the unbounded one.\<close>

lemma for_int32_for_int:
  "for_int32 lo hi body s = for_int (sint lo) (sint hi) (\<lambda>i. body (word_of_int i)) s"
proof (induction lo hi body s rule: for_int32.induct)
  case (1 lo hi body s)
  show ?case
  proof (cases "sint lo < sint hi")
    case True
    then have "for_int32 lo hi body s = for_int32 (lo + 1) hi body (body lo s)"
      by (subst for_int32.simps) simp
    also have "\<dots> = for_int (sint lo + 1) (sint hi) (\<lambda>i. body (word_of_int i)) (body lo s)"
      using "1.IH" True by (simp add: sint_succ_less)
    also have "\<dots> = for_int (sint lo) (sint hi) (\<lambda>i. body (word_of_int i)) s"
      using True by (simp add: for_int_step [of "sint lo"])
    finally show ?thesis .
  next
    case False
    then show ?thesis by (subst for_int32.simps) simp
  qed
qed

text \<open>Invariant rules. \<open>for_int_rule\<close> carries an index-dependent invariant through the loop.\<close>

lemma for_int_rule:
  assumes "lo \<le> hi" and "I lo s"
    and "\<And>i s. lo \<le> i \<Longrightarrow> i < hi \<Longrightarrow> I i s \<Longrightarrow> I (i + 1) (body i s)"
  shows "I hi (for_int lo hi body s)"
  using assms
proof (induction lo hi body s rule: for_int.induct)
  case (1 lo hi body s)
  show ?case
  proof (cases "lo < hi")
    case True
    have "I hi (for_int (lo + 1) hi body (body lo s))"
      using True "1.prems"(2) by (intro "1.IH") (auto intro: "1.prems"(3))
    with True show ?thesis by (simp add: for_int_step)
  next
    case False
    with "1.prems" show ?thesis by simp
  qed
qed

lemma for_int_frame:
  assumes "\<And>i s. lo \<le> i \<Longrightarrow> i < hi \<Longrightarrow> g (body i s) = g s"
  shows "g (for_int lo hi body s) = g s"
proof (cases "lo \<le> hi")
  case True
  then show ?thesis
    by (rule for_int_rule [where I = "\<lambda>_ t. g t = g s"]) (simp_all add: assms)
qed simp

lemma for_ret_rule:
  assumes "lo \<le> hi" and "I lo s"
    and "\<And>i s s'. lo \<le> i \<Longrightarrow> i < hi \<Longrightarrow> I i s \<Longrightarrow> body i s = (Val None, s') \<Longrightarrow> I (i + 1) s'"
    and "for_ret lo hi body s = (Val None, t)"
  shows "I hi t"
  using assms
proof (induction lo hi body s rule: for_ret.induct)
  case (1 lo hi body s)
  show ?case
  proof (cases "lo < hi")
    case True
    with "1.prems"(4) obtain s' where s': "body lo s = (Val None, s')"
        "for_ret (lo + 1) hi body s' = (Val None, t)"
      by (subst (asm) for_ret.simps) (auto split: prod.splits go.splits option.splits)
    from True "1.prems"(2) s'(1) have "I (lo + 1) s'" by (intro "1.prems"(3)) auto
    moreover have "I (i + 1) s''"
      if "lo + 1 \<le> i" "i < hi" "I i u" "body i u = (Val None, s'')" for i u s''
      using that by (intro "1.prems"(3)) auto
    ultimately show ?thesis
      using "1.IH" [OF True s'(1) [symmetric] refl refl] True s'(2) by simp
  next
    case False
    with "1.prems" show ?thesis by simp
  qed
qed

text \<open>An invariant of every outcome, and absence of panics.\<close>

lemma for_ret_inv:
  assumes "I s" and "\<And>i s. lo \<le> i \<Longrightarrow> i < hi \<Longrightarrow> I s \<Longrightarrow> I (snd (body i s))"
  shows "I (snd (for_ret lo hi body s))"
  using assms
proof (induction lo hi body s rule: for_ret.induct)
  case (1 lo hi body s)
  show ?case
  proof (cases "lo < hi")
    case True
    obtain v s' where bs: "body lo s = (v, s')" by (cases "body lo s")
    with "1.prems" True have I: "I s'" by (metis order_refl snd_conv)
    show ?thesis
    proof (cases "v = Val None")
      case True
      then have "I (snd (for_ret (lo + 1) hi body s'))"
        using "1.IH" [OF \<open>lo < hi\<close> bs [symmetric], of None] I "1.prems"(2) by simp
      with True bs \<open>lo < hi\<close> show ?thesis by (subst for_ret.simps) simp
    next
      case False
      with bs I \<open>lo < hi\<close> show ?thesis
        by (subst for_ret.simps) (auto split: go.splits option.splits)
    qed
  next
    case False
    with "1.prems" show ?thesis by simp
  qed
qed

lemma for_ret_returns:
  assumes "I s" and "\<And>i s. lo \<le> i \<Longrightarrow> i < hi \<Longrightarrow> I s \<Longrightarrow> returns (body i s) \<and> I (snd (body i s))"
  shows "returns (for_ret lo hi body s)"
  using assms
proof (induction lo hi body s rule: for_ret.induct)
  case (1 lo hi body s)
  show ?case
  proof (cases "lo < hi")
    case True
    with "1.prems" have "returns (body lo s)" "I (snd (body lo s))" by auto
    then obtain v s' where bs: "body lo s = (Val v, s')" and I: "I s'"
      by (metis returnsE snd_conv)
    show ?thesis
    proof (cases v)
      case None
      then have "returns (for_ret (lo + 1) hi body s')"
        using "1.IH" [OF True bs [symmetric] refl None] I "1.prems"(2) by simp
      with True bs None show ?thesis by (subst for_ret.simps) simp
    next
      case (Some r)
      with True bs show ?thesis by (subst for_ret.simps) simp
    qed
  next
    case False
    then show ?thesis by simp
  qed
qed

text \<open>Loop indices that fit in 31 bits stay apart when truncated to \<open>int32\<close>.\<close>

lemma int32_index_inject:
  assumes "0 \<le> i" "i < 2 ^ 31" "0 \<le> j" "j < 2 ^ 31"
  shows "(word_of_int i :: int32) = word_of_int j \<longleftrightarrow> i = j"
proof
  assume "(word_of_int i :: int32) = word_of_int j"
  then have "sint (word_of_int i :: int32) = sint (word_of_int j :: int32)" by (rule arg_cong)
  moreover have "sint (word_of_int i :: int32) = i" using assms by (intro sint_of_int32) auto
  moreover have "sint (word_of_int j :: int32) = j" using assms by (intro sint_of_int32) auto
  ultimately show "i = j" by (simp only:)
qed (simp only:)

end
