(* ===== verification/GoStrings.thy ===== *)
theory GoStrings
  imports Prelude
begin

text \<open>
  The string functions of Go's standard library the operator calls, on strings as lists of
  bytes: decimal printing (\<open>%d\<close>, \<open>strconv.Itoa\<close>) and \<open>%t\<close>, \<open>strings.Join\<close>, \<open>HasPrefix\<close>,
  \<open>Contains\<close>, \<open>Split\<close>, \<open>ReplaceAll\<close>, \<open>Trim\<close> and \<open>path.Split\<close>. The lemmas give the facts the
  components need: decimal printing is injective and only prints digits and a sign, and
  the two halves of \<open>path.Split\<close> put together are the path.
\<close>

section \<open>Decimal printing\<close>

definition digit_char :: "nat \<Rightarrow> char" where
  "digit_char d = char_of (48 + d)"

fun dec_nat :: "nat \<Rightarrow> string" where
  "dec_nat n = (if n < 10 then [digit_char n] else dec_nat (n div 10) @ [digit_char (n mod 10)])"

declare dec_nat.simps [simp del]

definition itoa :: "int \<Rightarrow> string" where
  "itoa i = (if i < 0 then CHR ''-'' # dec_nat (nat (- i)) else dec_nat (nat i))"

definition fmt_bool :: "bool \<Rightarrow> string" where
  "fmt_bool b = (if b then ''true'' else ''false'')"

text \<open>Reading a printed number back: the value of a digit string.\<close>

definition digit_val :: "char \<Rightarrow> nat" where
  "digit_val c = of_char c - 48"

definition dec_val :: "string \<Rightarrow> nat" where
  "dec_val s = foldl (\<lambda>n c. 10 * n + digit_val c) 0 s"

definition atoi :: "string \<Rightarrow> int" where
  "atoi s = (case s of c # t \<Rightarrow> if c = CHR ''-'' then - int (dec_val t) else int (dec_val s)
                     | [] \<Rightarrow> 0)"

lemma of_char_digit: "d < 10 \<Longrightarrow> of_char (digit_char d) = 48 + d"
  by (simp add: digit_char_def)

lemma digit_val_digit [simp]: "d < 10 \<Longrightarrow> digit_val (digit_char d) = d"
  by (simp add: digit_val_def of_char_digit)

lemma digit_not_minus: "d < 10 \<Longrightarrow> digit_char d \<noteq> CHR ''-''"
proof
  assume "d < 10" "digit_char d = CHR ''-''"
  then have "48 + d = of_char (CHR ''-'')" using of_char_digit by metis
  then show False by simp
qed

lemma dec_nat_not_Nil [simp]: "dec_nat n \<noteq> []"
  by (subst dec_nat.simps) simp

lemma dec_nat_digits: "c \<in> set (dec_nat n) \<Longrightarrow> \<exists>d < 10. c = digit_char d"
proof (induction n rule: dec_nat.induct)
  case (1 n)
  show ?case
  proof (cases "n < 10")
    case True
    with "1.prems" show ?thesis by (subst (asm) dec_nat.simps) auto
  next
    case False
    with "1.prems" have "c \<in> set (dec_nat (n div 10)) \<or> c = digit_char (n mod 10)"
      by (subst (asm) dec_nat.simps) auto
    with "1.IH" False show ?thesis by (metis mod_less_divisor zero_less_numeral)
  qed
qed

lemma dec_val_dec_nat [simp]: "dec_val (dec_nat n) = n"
proof (induction n rule: dec_nat.induct)
  case (1 n)
  show ?case
  proof (cases "n < 10")
    case True
    then show ?thesis by (subst dec_nat.simps) (simp add: dec_val_def)
  next
    case False
    with "1.IH" have "dec_val (dec_nat (n div 10)) = n div 10" by simp
    with False show ?thesis by (subst dec_nat.simps) (simp add: dec_val_def)
  qed
qed

lemma minus_notin_dec_nat: "CHR ''-'' \<notin> set (dec_nat n)"
  using dec_nat_digits digit_not_minus by metis

theorem atoi_itoa [simp]: "atoi (itoa i) = i"
proof (cases "i < 0")
  case True
  then show ?thesis by (simp add: itoa_def atoi_def)
next
  case False
  have "hd (dec_nat (nat i)) \<noteq> CHR ''-''"
    using minus_notin_dec_nat hd_in_set dec_nat_not_Nil by metis
  then have "atoi (dec_nat (nat i)) = int (dec_val (dec_nat (nat i)))"
    unfolding atoi_def by (cases "dec_nat (nat i)") auto
  with False show ?thesis by (simp add: itoa_def)
qed

lemma itoa_inject [simp]: "itoa i = itoa j \<longleftrightarrow> i = j"
  by (metis atoi_itoa)

lemma itoa_not_Nil [simp]: "itoa i \<noteq> []"
  by (simp add: itoa_def)

text \<open>No printed number holds a character other than a digit or the sign.\<close>

lemma itoa_chars: "c \<in> set (itoa i) \<Longrightarrow> c = CHR ''-'' \<or> (\<exists>d < 10. c = digit_char d)"
  by (auto simp: itoa_def split: if_splits dest: dec_nat_digits)

lemma itoa_code_range: "c \<in> set (itoa i) \<Longrightarrow> (of_char c :: nat) = 45 \<or> 48 \<le> (of_char c :: nat) \<and> (of_char c :: nat) \<le> 57"
proof (drule itoa_chars, elim disjE exE conjE)
  fix d :: nat
  assume "d < 10" "c = digit_char d"
  then show ?thesis by (simp add: of_char_digit)
qed simp

lemma notin_itoa:
  assumes "57 < (of_char c :: nat)"
  shows "c \<notin> set (itoa i)"
  using assms itoa_code_range [of c i] by linarith

section \<open>Package strings\<close>

fun join :: "string \<Rightarrow> string list \<Rightarrow> string" where
  "join sep [] = ''''"
| "join sep [x] = x"
| "join sep (x # y # xs) = x @ sep @ join sep (y # xs)"

definition hasPrefix :: "string \<Rightarrow> string \<Rightarrow> bool" where
  "hasPrefix s p \<longleftrightarrow> take (length p) s = p"

fun contains :: "string \<Rightarrow> string \<Rightarrow> bool" where
  "contains [] sub \<longleftrightarrow> sub = []"
| "contains (c # s) sub \<longleftrightarrow> hasPrefix (c # s) sub \<or> contains s sub"

text \<open>\<open>strings.Split(s, sep)\<close> for a separator of one byte.\<close>

fun split_on :: "char \<Rightarrow> string \<Rightarrow> string list" where
  "split_on sep [] = [[]]"
| "split_on sep (c # s) =
     (if c = sep then [] # split_on sep s
      else (case split_on sep s of p # ps \<Rightarrow> (c # p) # ps | [] \<Rightarrow> [[c]]))"

text \<open>\<open>strings.Trim(s, cutset)\<close> for a cutset of one byte.\<close>

definition trim_char :: "char \<Rightarrow> string \<Rightarrow> string" where
  "trim_char c s = rev (dropWhile (\<lambda>x. x = c) (rev (dropWhile (\<lambda>x. x = c) s)))"

text \<open>\<open>path.Split\<close> cuts after the last slash.\<close>

definition path_split :: "string \<Rightarrow> string \<times> string" where
  "path_split p = (rev (dropWhile (\<lambda>c. c \<noteq> CHR ''/'') (rev p)),
                   rev (takeWhile (\<lambda>c. c \<noteq> CHR ''/'') (rev p)))"

lemma hasPrefix_append [simp]: "hasPrefix (p @ s) p"
  by (simp add: hasPrefix_def)

lemma hasPrefix_iff: "hasPrefix s p \<longleftrightarrow> (\<exists>t. s = p @ t)"
  by (metis append_take_drop_id append_eq_conv_conj hasPrefix_def)

theorem contains_iff: "contains s sub \<longleftrightarrow> (\<exists>a b. s = a @ sub @ b)"
proof (induction s)
  case Nil
  then show ?case by auto
next
  case (Cons c s)
  have "(\<exists>a b. c # s = a @ sub @ b) \<longleftrightarrow> (\<exists>b. c # s = sub @ b) \<or> (\<exists>a b. s = a @ sub @ b)"
  proof
    assume "\<exists>a b. c # s = a @ sub @ b"
    then obtain a b where "c # s = a @ sub @ b" by blast
    then show "(\<exists>b. c # s = sub @ b) \<or> (\<exists>a b. s = a @ sub @ b)"
      by (cases a) auto
  next
    assume "(\<exists>b. c # s = sub @ b) \<or> (\<exists>a b. s = a @ sub @ b)"
    then show "\<exists>a b. c # s = a @ sub @ b"
      by (metis append_Cons append_Nil)
  qed
  with Cons.IH show ?case by (simp add: hasPrefix_iff)
qed

lemma path_split_append: "fst (path_split p) @ snd (path_split p) = p"
  by (simp add: path_split_def flip: rev_append)

lemma slash_notin_file: "CHR ''/'' \<notin> set (snd (path_split p))"
  by (auto simp: path_split_def dest: set_takeWhileD)

lemma split_on_not_Nil [simp]: "split_on sep s \<noteq> []"
  by (induction s) (auto split: list.splits)

lemma length_split_on: "length (split_on sep s) = Suc (count_list s sep)"
  by (induction s) (auto split: list.splits)

lemma join_split_on: "join [sep] (split_on sep s) = s"
proof (induction s)
  case (Cons c s)
  obtain p ps where "split_on sep s = p # ps"
    using split_on_not_Nil by (meson list.exhaust)
  with Cons show ?case by (cases ps) auto
qed simp

end
