(* ===== verification/K8sTypes.thy ===== *)
theory K8sTypes
  imports GoStrings
begin

text \<open>
  The Kubernetes API data the operator builds and reads (packages \<open>k8s.io/api/core/v1\<close>,
  \<open>apps/v1\<close> and \<open>apimachinery/pkg/apis/meta/v1\<close>), as records with the fields the sources
  write or read. A Go map is a partial function, a pointer or a slice whose nilness the code
  inspects is an \<open>option\<close>. \<open>LastTransitionTime\<close> of a condition and the fields no operation of
  the operator touches are left out.
\<close>

type_synonym labels = "string \<rightharpoonup> string"

record object_meta =
  om_Name :: string
  om_Namespace :: string
  om_Labels :: labels
  om_Generation :: int64
  om_ResourceVersion :: string
  om_DeletionTimestamp :: "int option"
  om_Finalizers :: "string list"

text \<open>\<open>metav1.Time\<close> is read through \<open>IsZero\<close>, which is true of a nil pointer and of the zero
  time (the number 0 here).\<close>

definition time_IsZero :: "int option \<Rightarrow> bool" where
  "time_IsZero t = (case t of None \<Rightarrow> True | Some x \<Rightarrow> x = 0)"

definition empty_meta :: "string \<Rightarrow> string \<Rightarrow> object_meta" where
  "empty_meta ns n = \<lparr>om_Name = n, om_Namespace = ns, om_Labels = Map.empty, om_Generation = 0,
     om_ResourceVersion = '''', om_DeletionTimestamp = None, om_Finalizers = []\<rparr>"

record condition =
  co_Type :: string
  co_Status :: string
  co_ObservedGeneration :: int64
  co_Reason :: string
  co_Message :: string

text \<open>The quantity a literal such as \<open>100Gi\<close> denotes; no operation computes with one.\<close>

datatype quantity = Quantity string

record resources =
  rs_Requests :: "(string \<rightharpoonup> quantity) option"
  rs_Limits :: "(string \<rightharpoonup> quantity) option"

datatype env_source = FieldRef string | OtherSource string

record env_var =
  ev_Name :: string
  ev_Value :: string
  ev_ValueFrom :: "env_source option"

datatype int_or_string = FromInt int32 | FromString string

section \<open>Pods and their parts\<close>

record volume_mount =
  vm_Name :: string
  vm_MountPath :: string
  vm_SubPath :: string
  vm_ReadOnly :: bool

datatype volume_source =
    ConfigMapVolume string "int32 option"
  | ClaimVolume string
  | HostPathVolume string

record volume =
  vol_Name :: string
  vol_Source :: volume_source

record probe =
  pr_TCPSocketPort :: int_or_string
  pr_InitialDelaySeconds :: int32
  pr_TimeoutSeconds :: int32
  pr_PeriodSeconds :: int32
  pr_SuccessThreshold :: int32
  pr_FailureThreshold :: int32
  pr_TerminationGracePeriodSeconds :: "int64 option"

record container_port =
  cp_Name :: string
  cp_ContainerPort :: int32
  cp_Protocol :: string

record container =
  ct_Name :: string
  ct_Image :: string
  ct_Command :: "string list"
  ct_Env :: "env_var list"
  ct_VolumeMounts :: "volume_mount list"
  ct_PreStopExec :: "string list option"
  ct_LivenessProbe :: "probe option"
  ct_Ports :: "container_port list"
  ct_ImagePullPolicy :: string
  ct_Resources :: resources
  ct_Privileged :: "bool option"

text \<open>A scheduling affinity of Kubernetes; the terms inside are opaque.\<close>

record k8s_affinity =
  ka_NodeAffinity :: "string option"
  ka_PodAffinity :: "string option"
  ka_PodAntiAffinity :: "string option"

record pod_template =
  pt_Labels :: labels
  pt_Annotations :: labels
  pt_HostNetwork :: bool
  pt_TerminationGracePeriodSeconds :: "int64 option"
  pt_InitContainers :: "container list"
  pt_Affinity :: "k8s_affinity option"
  pt_Volumes :: "volume list"
  pt_Containers :: "container list"

record pod =
  pod_meta :: object_meta
  pod_Phase :: string
  pod_Conditions :: "(string \<times> string) list"

record node =
  node_meta :: object_meta
  node_Addresses :: "(string \<times> string) list"

section \<open>The kinds of objects the operator owns\<close>

record deployment =
  dep_meta :: object_meta
  dep_Selector :: "labels option"
  dep_Strategy :: string
  dep_Template :: pod_template

record service_port =
  sp_Name :: string
  sp_Port :: int32
  sp_TargetPort :: int_or_string
  sp_Protocol :: string
  sp_NodePort :: int32

record service =
  svc_meta :: object_meta
  svc_Selector :: labels
  svc_Ports :: "service_port list"
  svc_Type :: string

record pvc =
  pvc_meta :: object_meta
  pvc_AccessModes :: "string list"
  pvc_Resources :: resources
  pvc_StorageClassName :: "string option"

record configmap =
  cm_meta :: object_meta
  cm_Data :: labels

text \<open>The zero values \<open>&v1.Service{}\<close> and so on, with the namespace and name then assigned.\<close>

definition empty_template :: pod_template where
  "empty_template = \<lparr>pt_Labels = Map.empty, pt_Annotations = Map.empty, pt_HostNetwork = False,
     pt_TerminationGracePeriodSeconds = None, pt_InitContainers = [], pt_Affinity = None,
     pt_Volumes = [], pt_Containers = []\<rparr>"

definition new_deployment :: "string \<Rightarrow> string \<Rightarrow> deployment" where
  "new_deployment ns n = \<lparr>dep_meta = empty_meta ns n, dep_Selector = None, dep_Strategy = '''',
     dep_Template = empty_template\<rparr>"

definition new_service :: "string \<Rightarrow> string \<Rightarrow> service" where
  "new_service ns n = \<lparr>svc_meta = empty_meta ns n, svc_Selector = Map.empty, svc_Ports = [],
     svc_Type = ''''\<rparr>"

definition new_pvc :: "string \<Rightarrow> string \<Rightarrow> pvc" where
  "new_pvc ns n = \<lparr>pvc_meta = empty_meta ns n, pvc_AccessModes = [],
     pvc_Resources = \<lparr>rs_Requests = None, rs_Limits = None\<rparr>, pvc_StorageClassName = None\<rparr>"

definition new_configmap :: "string \<Rightarrow> string \<Rightarrow> configmap" where
  "new_configmap ns n = \<lparr>cm_meta = empty_meta ns n, cm_Data = Map.empty\<rparr>"

end
