(* ===== verification/ApiTypes.thy ===== *)
theory ApiTypes
  imports K8sTypes
begin

text \<open>
  The custom resource \<open>AutoMQ\<close> (\<open>api/v1beta1/automq_types.go\<close>): specification, status, the
  phases, and the conversion of an affinity, plus the two image names of
  \<open>defaults/images.go\<close>. A slice or map the code compares with nil is an \<open>option\<close>, a pointer
  too; the other slices are lists.
\<close>

record S3Spec =
  s3_Endpoint :: string
  s3_Region :: string
  s3_AccessKeyID :: string
  s3_SecretAccessKey :: string
  s3_Bucket :: string
  s3_EnablePathStyle :: bool

record NodeSelector =
  ns_Key :: string
  ns_Values :: "string list"

record NodeAffinity =
  na_Type :: string
  na_NodeSelector :: "NodeSelector list"
  na_Weight :: int32

record PodAffinity =
  pa_Type :: string
  pa_Weight :: int32

record PodAntiAffinity =
  paa_Type :: string
  paa_Weight :: int32

record AffinitySpec =
  af_NodeAffinity :: "NodeAffinity option"
  af_PodAntiAffinity :: "PodAntiAffinity option"
  af_PodAffinity :: "PodAffinity option"

text \<open>The receiver may be a nil pointer; the conversion is not implemented yet.\<close>

definition ToK8sAffinity :: "AffinitySpec option \<Rightarrow> k8s_affinity option" where
  "ToK8sAffinity i =
     (let affinity = \<lparr>ka_NodeAffinity = None, ka_PodAffinity = None, ka_PodAntiAffinity = None\<rparr>
      in Some affinity)"

record ControllerSpec =
  cs_Replicas :: int32
  cs_JVMOptions :: "string list option"
  cs_Envs :: "env_var list option"
  cs_Resource :: resources
  cs_Affinity :: "AffinitySpec option"
  cs_StorageClass :: string

record BrokerSpec =
  bs_Replicas :: int32
  bs_JVMOptions :: "string list option"
  bs_Envs :: "env_var list option"
  bs_Resource :: resources
  bs_Affinity :: "AffinitySpec option"
  bs_StorageClass :: string

record MetricsSpec =
  ms_Enable :: bool
  ms_ImportDashboard :: bool

record AutoMQSpec =
  spec_S3 :: S3Spec
  spec_ClusterID :: string
  spec_Image :: string
  spec_NodePort :: int32
  spec_Metrics :: MetricsSpec
  spec_Controller :: ControllerSpec
  spec_Broker :: BrokerSpec

type_synonym AutoMQPhase = string

definition AutoMQPending :: AutoMQPhase where "AutoMQPending = ''Pending''"
definition AutoMQError :: AutoMQPhase where "AutoMQError = ''Error''"
definition AutoMQReady :: AutoMQPhase where "AutoMQReady = ''Ready''"
definition AutoMQInProcess :: AutoMQPhase where "AutoMQInProcess = ''InProcess''"

lemmas phase_defs = AutoMQPending_def AutoMQError_def AutoMQReady_def AutoMQInProcess_def

record AutoMQStatus =
  st_Phase :: AutoMQPhase
  st_Conditions :: "condition list"
  st_ReadyPods :: int32
  st_ControllerReplicas :: int32
  st_BrokerReplicas :: int32
  st_ControllerAddresses :: "string list"
  st_BootstrapInternalAddress :: string

record AutoMQ =
  mq_meta :: object_meta
  mq_Spec :: AutoMQSpec
  mq_Status :: AutoMQStatus

text \<open>\<open>&AutoMQ{}\<close>, the zero value a \<open>Get\<close> is decoded into.\<close>

definition zero_resources :: resources where
  "zero_resources = \<lparr>rs_Requests = None, rs_Limits = None\<rparr>"

definition zero_spec :: AutoMQSpec where
  "zero_spec = \<lparr>
     spec_S3 = \<lparr>s3_Endpoint = '''', s3_Region = '''', s3_AccessKeyID = '''',
       s3_SecretAccessKey = '''', s3_Bucket = '''', s3_EnablePathStyle = False\<rparr>,
     spec_ClusterID = '''', spec_Image = '''', spec_NodePort = 0,
     spec_Metrics = \<lparr>ms_Enable = False, ms_ImportDashboard = False\<rparr>,
     spec_Controller = \<lparr>cs_Replicas = 0, cs_JVMOptions = None, cs_Envs = None,
       cs_Resource = zero_resources, cs_Affinity = None, cs_StorageClass = ''''\<rparr>,
     spec_Broker = \<lparr>bs_Replicas = 0, bs_JVMOptions = None, bs_Envs = None,
       bs_Resource = zero_resources, bs_Affinity = None, bs_StorageClass = ''''\<rparr>\<rparr>"

definition zero_status :: AutoMQStatus where
  "zero_status = \<lparr>st_Phase = '''', st_Conditions = [], st_ReadyPods = 0,
     st_ControllerReplicas = 0, st_BrokerReplicas = 0, st_ControllerAddresses = [],
     st_BootstrapInternalAddress = ''''\<rparr>"

definition zero_automq :: AutoMQ where
  "zero_automq = \<lparr>mq_meta = empty_meta '''' '''', mq_Spec = zero_spec, mq_Status = zero_status\<rparr>"

abbreviation mq_Name :: "AutoMQ \<Rightarrow> string" where
  "mq_Name m \<equiv> om_Name (mq_meta m)"

abbreviation mq_Namespace :: "AutoMQ \<Rightarrow> string" where
  "mq_Namespace m \<equiv> om_Namespace (mq_meta m)"

abbreviation mq_Generation :: "AutoMQ \<Rightarrow> int64" where
  "mq_Generation m \<equiv> om_Generation (mq_meta m)"

definition DefaultImageName :: string where
  "DefaultImageName = ''automqinc/automq:1.2.0''"

definition BusyboxImageName :: string where
  "BusyboxImageName = ''busybox:1.36.1''"

text \<open>Ranging over a slice, or joining it, does not tell nil from empty.\<close>

definition slice :: "'a list option \<Rightarrow> 'a list" where
  "slice xs = (case xs of None \<Rightarrow> [] | Some ys \<Rightarrow> ys)"

lemma slice_simps [simp]: "slice None = []" "slice (Some xs) = xs"
  by (simp_all add: slice_def)

end
