(* ===== verification/Kube.thy ===== *)
theory Kube
  imports ApiTypes
begin

text \<open>
  The operator's view of the outside world. The API server, controller-runtime's client and
  helpers, and client-go's retry loop are not part of the repository: they are the fields of
  the record \<open>kube\<close>, over an arbitrary state \<^typ>\<open>'w\<close> of the outside world. What the operator
  relies on is stated as the predicates \<open>get_law\<close>, \<open>delete_law\<close>, \<open>cou_law\<close>, \<open>retry_law\<close> and so
  on, relative to a function \<open>view\<close> that reads the objects stored in a world. The last section
  is an in-memory cluster that satisfies them all; the witnesses run on it.
\<close>

section \<open>Objects\<close>

datatype kind = KService | KDeployment | KStatefulSet | KPVC | KConfigMap | KAutoMQ | KNode

text \<open>The interface \<open>client.Object\<close>: one constructor per type the operator passes to its client.\<close>

datatype object =
    ObjService service
  | ObjDeployment deployment
  | ObjStatefulSet object_meta
  | ObjPVC pvc
  | ObjConfigMap configmap
  | ObjAutoMQ AutoMQ
  | ObjNode node

primrec obj_meta :: "object \<Rightarrow> object_meta" where
  "obj_meta (ObjService s) = svc_meta s"
| "obj_meta (ObjDeployment d) = dep_meta d"
| "obj_meta (ObjStatefulSet m) = m"
| "obj_meta (ObjPVC p) = pvc_meta p"
| "obj_meta (ObjConfigMap c) = cm_meta c"
| "obj_meta (ObjAutoMQ a) = mq_meta a"
| "obj_meta (ObjNode n) = node_meta n"

primrec obj_kind :: "object \<Rightarrow> kind" where
  "obj_kind (ObjService s) = KService"
| "obj_kind (ObjDeployment d) = KDeployment"
| "obj_kind (ObjStatefulSet m) = KStatefulSet"
| "obj_kind (ObjPVC p) = KPVC"
| "obj_kind (ObjConfigMap c) = KConfigMap"
| "obj_kind (ObjAutoMQ a) = KAutoMQ"
| "obj_kind (ObjNode n) = KNode"

text \<open>\<open>client.ObjectKeyFromObject\<close>, and the key of an object among all kinds.\<close>

type_synonym nsname = "string \<times> string"
type_synonym okey = "kind \<times> string \<times> string"

definition ObjectKeyFromObject :: "object \<Rightarrow> nsname" where
  "ObjectKeyFromObject o1 = (om_Namespace (obj_meta o1), om_Name (obj_meta o1))"

definition okey :: "object \<Rightarrow> okey" where
  "okey o1 = (obj_kind o1, ObjectKeyFromObject o1)"

lemma okey_simps [simp]:
  "okey (ObjService s) = (KService, om_Namespace (svc_meta s), om_Name (svc_meta s))"
  "okey (ObjDeployment d) = (KDeployment, om_Namespace (dep_meta d), om_Name (dep_meta d))"
  "okey (ObjStatefulSet m) = (KStatefulSet, om_Namespace m, om_Name m)"
  "okey (ObjPVC p) = (KPVC, om_Namespace (pvc_meta p), om_Name (pvc_meta p))"
  "okey (ObjConfigMap c) = (KConfigMap, om_Namespace (cm_meta c), om_Name (cm_meta c))"
  "okey (ObjAutoMQ a) = (KAutoMQ, mq_Namespace a, mq_Name a)"
  "okey (ObjNode n) = (KNode, om_Namespace (node_meta n), om_Name (node_meta n))"
  by (simp_all add: okey_def ObjectKeyFromObject_def)

lemma okey_kindE:
  "fst (okey x) = KService \<Longrightarrow> \<exists>s. x = ObjService s"
  "fst (okey x) = KDeployment \<Longrightarrow> \<exists>d. x = ObjDeployment d"
  "fst (okey x) = KPVC \<Longrightarrow> \<exists>p. x = ObjPVC p"
  "fst (okey x) = KConfigMap \<Longrightarrow> \<exists>c. x = ObjConfigMap c"
  "fst (okey x) = KAutoMQ \<Longrightarrow> \<exists>a. x = ObjAutoMQ a"
  by (cases x; simp)+

section \<open>The client and the helpers around it\<close>

type_synonym 'w attempt = "object \<times> 'w \<Rightarrow> goerror option \<times> object \<times> 'w"

record 'w kube =
  k_Get :: "nsname \<Rightarrow> object \<Rightarrow> 'w \<Rightarrow> goerror option \<times> object \<times> 'w"
  k_Update :: "object \<Rightarrow> 'w \<Rightarrow> goerror option \<times> object \<times> 'w"
  k_StatusUpdate :: "object \<Rightarrow> 'w \<Rightarrow> goerror option \<times> object \<times> 'w"
  k_Delete :: "object \<Rightarrow> 'w \<Rightarrow> goerror option \<times> 'w"
  k_ListPods :: "string \<Rightarrow> labels \<Rightarrow> 'w \<Rightarrow> (goerror + pod list) \<times> 'w"
  k_CreateOrUpdate ::
    "object \<Rightarrow> (object \<Rightarrow> object) \<Rightarrow> 'w \<Rightarrow> goerror option \<times> object \<times> 'w"
  k_RetryOnConflict :: "'w attempt \<Rightarrow> 'w attempt"
  k_IsNotFound :: "goerror \<Rightarrow> bool"
  k_IgnoreNotFound :: "goerror \<Rightarrow> goerror option"
  k_IsConflict :: "goerror \<Rightarrow> bool"
  k_SetStatusCondition :: "condition list \<Rightarrow> condition \<Rightarrow> condition list"
  k_ContainsFinalizer :: "string list \<Rightarrow> string \<Rightarrow> bool"
  k_AddFinalizer :: "string list \<Rightarrow> string \<Rightarrow> string list"
  k_RemoveFinalizer :: "string list \<Rightarrow> string \<Rightarrow> string list"
  k_Hash :: "string \<Rightarrow> string"

section \<open>What the operator relies on\<close>

text \<open>
  An object the server returns after a write agrees with the object sent, except for what the
  server fills in: a node port that was left 0, a storage class that was left out, versions.
\<close>

definition meta_admitted :: "object_meta \<Rightarrow> object_meta \<Rightarrow> bool" where
  "meta_admitted m m' \<longleftrightarrow> om_Name m' = om_Name m \<and> om_Namespace m' = om_Namespace m
     \<and> om_Labels m' = om_Labels m"

definition port_admitted :: "service_port \<Rightarrow> service_port \<Rightarrow> bool" where
  "port_admitted p p' \<longleftrightarrow> sp_Name p' = sp_Name p \<and> sp_Port p' = sp_Port p
     \<and> sp_TargetPort p' = sp_TargetPort p \<and> sp_Protocol p' = sp_Protocol p
     \<and> (sp_NodePort p \<noteq> 0 \<longrightarrow> sp_NodePort p' = sp_NodePort p)"

fun admitted :: "object \<Rightarrow> object \<Rightarrow> bool" where
  "admitted (ObjService a) (ObjService b) \<longleftrightarrow> meta_admitted (svc_meta a) (svc_meta b)
     \<and> svc_Selector b = svc_Selector a \<and> svc_Type b = svc_Type a
     \<and> list_all2 port_admitted (svc_Ports a) (svc_Ports b)"
| "admitted (ObjDeployment a) (ObjDeployment b) \<longleftrightarrow> meta_admitted (dep_meta a) (dep_meta b)
     \<and> dep_Selector b = dep_Selector a \<and> dep_Strategy b = dep_Strategy a
     \<and> dep_Template b = dep_Template a"
| "admitted (ObjPVC a) (ObjPVC b) \<longleftrightarrow> meta_admitted (pvc_meta a) (pvc_meta b)
     \<and> pvc_AccessModes b = pvc_AccessModes a \<and> pvc_Resources b = pvc_Resources a
     \<and> (pvc_StorageClassName a \<noteq> None \<longrightarrow> pvc_StorageClassName b = pvc_StorageClassName a)"
| "admitted (ObjConfigMap a) (ObjConfigMap b) \<longleftrightarrow> meta_admitted (cm_meta a) (cm_meta b)
     \<and> cm_Data b = cm_Data a"
| "admitted (ObjStatefulSet a) (ObjStatefulSet b) \<longleftrightarrow> meta_admitted a b"
| "admitted (ObjAutoMQ a) (ObjAutoMQ b) \<longleftrightarrow> meta_admitted (mq_meta a) (mq_meta b)
     \<and> mq_Spec b = mq_Spec a"
| "admitted (ObjNode a) (ObjNode b) \<longleftrightarrow> b = a"
| "admitted _ _ \<longleftrightarrow> False"

lemma admitted_okey: "admitted a b \<Longrightarrow> okey b = okey a"
  by (cases "(a, b)" rule: admitted.cases) (auto simp: meta_admitted_def)

lemma meta_admitted_refl [simp]: "meta_admitted m m"
  by (simp add: meta_admitted_def)

lemma admitted_refl [simp]: "admitted a a"
  by (cases a) (auto simp: port_admitted_def list_all2_refl)

type_synonym 'w view = "'w \<Rightarrow> okey \<Rightarrow> object option"

text \<open>\<open>Get\<close> has no effect and returns the stored object; \<open>List\<close> has no effect.\<close>

definition get_law :: "'w kube \<Rightarrow> 'w view \<Rightarrow> bool" where
  "get_law K view \<longleftrightarrow> (\<forall>key x w e y w'. k_Get K key x w = (e, y, w') \<longrightarrow>
     view w' = view w \<and> (e = None \<longrightarrow> view w (obj_kind x, key) = Some y))"

definition list_law :: "'w kube \<Rightarrow> 'w view \<Rightarrow> bool" where
  "list_law K view \<longleftrightarrow> (\<forall>ns l w. view (snd (k_ListPods K ns l w)) = view w)"

text \<open>\<open>Delete\<close> touches the object it names and no other, and removes it if it succeeds.\<close>

definition delete_law :: "'w kube \<Rightarrow> 'w view \<Rightarrow> bool" where
  "delete_law K view \<longleftrightarrow> (\<forall>x w e w'. k_Delete K x w = (e, w') \<longrightarrow>
     (\<forall>k. k \<noteq> okey x \<longrightarrow> view w' k = view w k)
     \<and> (view w' (okey x) = None \<or> e \<noteq> None \<and> view w' (okey x) = view w (okey x)))"

text \<open>
  \<open>Update\<close> and \<open>Status().Update\<close> touch the object they name and no other. An update that fails
  leaves the caller's object as it was.
\<close>

definition update_law :: "'w kube \<Rightarrow> 'w view \<Rightarrow> bool" where
  "update_law K view \<longleftrightarrow> (\<forall>x w e y w'.
     k_Update K x w = (e, y, w') \<or> k_StatusUpdate K x w = (e, y, w') \<longrightarrow>
       okey y = okey x \<and> (e \<noteq> None \<longrightarrow> y = x) \<and> (\<forall>k. k \<noteq> okey x \<longrightarrow> view w' k = view w k))"

text \<open>What a successful \<open>Update\<close> or \<open>Status().Update\<close> of a custom resource returns and stores.\<close>

definition status_law :: "'w kube \<Rightarrow> 'w view \<Rightarrow> bool" where
  "status_law K view \<longleftrightarrow> (\<forall>a w y w'. k_StatusUpdate K (ObjAutoMQ a) w = (None, y, w') \<longrightarrow>
     (\<exists>a'. y = ObjAutoMQ a' \<and> mq_Status a' = mq_Status a
        \<and> view w' (okey (ObjAutoMQ a)) = Some y))"

definition finalizer_update_law :: "'w kube \<Rightarrow> 'w view \<Rightarrow> bool" where
  "finalizer_update_law K view \<longleftrightarrow> (\<forall>a w y w'. k_Update K (ObjAutoMQ a) w = (None, y, w') \<longrightarrow>
     (\<exists>a'. y = ObjAutoMQ a' \<and> set (om_Finalizers (mq_meta a')) = set (om_Finalizers (mq_meta a))
        \<and> (om_DeletionTimestamp (mq_meta a) = None \<longrightarrow>
             view w' (okey (ObjAutoMQ a)) = Some y)))"

text \<open>
  \<open>CreateOrUpdate(obj, mutate)\<close> reads the object into \<open>obj\<close> if it exists, applies \<open>mutate\<close> and
  writes the result. Whatever happens, what \<open>obj\<close> and the store then hold is the base, the
  mutated base, or what the server made of it; on success it is the last of these.
\<close>

definition cou_base :: "'w view \<Rightarrow> object \<Rightarrow> 'w \<Rightarrow> object \<Rightarrow> bool" where
  "cou_base view x w b \<longleftrightarrow> b = x \<or> view w (okey x) = Some b"

definition cou_law :: "'w kube \<Rightarrow> 'w view \<Rightarrow> bool" where
  "cou_law K view \<longleftrightarrow> (\<forall>x f w e y w'. k_CreateOrUpdate K x f w = (e, y, w') \<longrightarrow>
     (\<forall>b. okey (f b) = okey b) \<longrightarrow>
     (\<forall>k. k \<noteq> okey x \<longrightarrow> view w' k = view w k)
     \<and> (\<exists>b. cou_base view x w b \<and> (y = b \<or> y = f b \<or> admitted (f b) y))
     \<and> (\<forall>z. view w' (okey x) = Some z \<longrightarrow>
          (\<exists>b. cou_base view x w b \<and> (z = b \<or> z = f b \<or> admitted (f b) z)))
     \<and> (e = None \<longrightarrow> view w' (okey x) = Some y
          \<and> (\<exists>b. cou_base view x w b \<and> admitted (f b) y)))"

text \<open>
  \<open>RetryOnConflict\<close> runs the attempt one or more times, starting again only after a conflict,
  and returns the answer of the last run.
\<close>

inductive retry_run ::
  "(goerror \<Rightarrow> bool) \<Rightarrow> 'w attempt \<Rightarrow> object \<times> 'w \<Rightarrow> goerror option \<times> object \<times> 'w \<Rightarrow> bool"
  for conflict f where
  last: "f s = r \<Longrightarrow> retry_run conflict f s r"
| again: "f s = (Some e, s') \<Longrightarrow> conflict e \<Longrightarrow> retry_run conflict f s' r \<Longrightarrow>
    retry_run conflict f s r"

definition retry_law :: "'w kube \<Rightarrow> bool" where
  "retry_law K \<longleftrightarrow>
     (\<forall>f s. retry_run (k_IsConflict K) f s (k_RetryOnConflict K f s))"

text \<open>
  \<open>SetStatusCondition\<close> replaces or appends the condition of the given type and leaves the
  others alone; a list with at most one condition per type stays one.
\<close>

definition find_condition :: "condition list \<Rightarrow> string \<Rightarrow> condition option" where
  "find_condition cs t = find (\<lambda>c. co_Type c = t) cs"

definition cond_law :: "'w kube \<Rightarrow> bool" where
  "cond_law K \<longleftrightarrow> (\<forall>cs c.
     find_condition (k_SetStatusCondition K cs c) (co_Type c) = Some c
     \<and> (\<forall>t. t \<noteq> co_Type c \<longrightarrow> find_condition (k_SetStatusCondition K cs c) t = find_condition cs t)
     \<and> set (k_SetStatusCondition K cs c) \<subseteq> insert c (set cs)
     \<and> (distinct (map co_Type cs) \<longrightarrow> distinct (map co_Type (k_SetStatusCondition K cs c))))"

definition finalizer_law :: "'w kube \<Rightarrow> bool" where
  "finalizer_law K \<longleftrightarrow> (\<forall>fs f.
     k_ContainsFinalizer K fs f = (f \<in> set fs)
     \<and> set (k_AddFinalizer K fs f) = insert f (set fs)
     \<and> set (k_RemoveFinalizer K fs f) = set fs - {f})"

text \<open>\<open>IgnoreNotFound\<close> is nil on a not-found error and returns any other error unchanged.\<close>

definition notfound_law :: "'w kube \<Rightarrow> bool" where
  "notfound_law K \<longleftrightarrow>
     (\<forall>e. k_IgnoreNotFound K e = (if k_IsNotFound K e then None else Some e))"

text \<open>An object is stored under its own key.\<close>

definition view_law :: "'w view \<Rightarrow> bool" where
  "view_law view \<longleftrightarrow> (\<forall>w k b. view w k = Some b \<longrightarrow> okey b = k)"

definition kube_laws :: "'w kube \<Rightarrow> 'w view \<Rightarrow> bool" where
  "kube_laws K view \<longleftrightarrow> view_law view \<and> get_law K view \<and> list_law K view \<and> delete_law K view
     \<and> update_law K view \<and> cou_law K view \<and> retry_law K \<and> cond_law K \<and> finalizer_law K
     \<and> notfound_law K \<and> status_law K view \<and> finalizer_update_law K view"

lemma kube_lawsD:
  assumes "kube_laws K view"
  shows "view_law view" "get_law K view" "list_law K view" "delete_law K view"
    "update_law K view" "cou_law K view" "retry_law K" "cond_law K" "finalizer_law K"
    "notfound_law K" "status_law K view" "finalizer_update_law K view"
  using assms by (auto simp: kube_laws_def)

section \<open>Consequences the components share\<close>

lemma view_lawD: "view_law view \<Longrightarrow> view w k = Some b \<Longrightarrow> okey b = k"
  unfolding view_law_def by blast

lemma find_set_condition:
  assumes "cond_law K"
  shows "find_condition (k_SetStatusCondition K cs c) t =
    (if t = co_Type c then Some c else find_condition cs t)"
  using assms by (auto simp: cond_law_def)

lemma set_set_condition:
  assumes "cond_law K"
  shows "set (k_SetStatusCondition K cs c) \<subseteq> insert c (set cs)"
  using assms by (auto simp: cond_law_def)

lemma distinct_set_condition:
  assumes "cond_law K" "distinct (map co_Type cs)"
  shows "distinct (map co_Type (k_SetStatusCondition K cs c))"
  using assms by (auto simp: cond_law_def)

lemma delete_other:
  assumes "delete_law K view" "k \<noteq> okey x"
  shows "view (snd (k_Delete K x w)) k = view w k"
  using assms unfolding delete_law_def by (metis prod.collapse)

lemma delete_at:
  assumes "delete_law K view"
  shows "view (snd (k_Delete K x w)) (okey x) = None
    \<or> fst (k_Delete K x w) \<noteq> None \<and> view (snd (k_Delete K x w)) (okey x) = view w (okey x)"
  using assms by (cases "k_Delete K x w") (simp add: delete_law_def)

text \<open>Deleting never brings an object to life, whatever its outcome.\<close>

lemma delete_none:
  assumes "delete_law K view" "view w k = None"
  shows "view (snd (k_Delete K x w)) k = None"
  using delete_other [OF assms(1), of k x w] delete_at [OF assms(1), of x w] assms(2)
  by (cases "k = okey x") auto

text \<open>What every attempt keeps, the retry loop keeps.\<close>

lemma retry_law_run:
  "kube_laws K view \<Longrightarrow> retry_run (k_IsConflict K) f s (k_RetryOnConflict K f s)"
  using kube_lawsD(7) unfolding retry_law_def by blast

lemma retry_run_inv:
  assumes "retry_run conflict f s r" and "I s" and "\<And>s e s'. I s \<Longrightarrow> f s = (e, s') \<Longrightarrow> I s'"
  shows "I (snd r)"
  using assms(1,2)
proof (induction rule: retry_run.induct)
  case (last s r)
  then show ?case using assms(3) [of s "fst r" "snd r"] by simp
next
  case (again s e s' r)
  then show ?case using assms(3) by blast
qed

text \<open>
  The rule for \<open>RetryOnConflict\<close> around \<open>CreateOrUpdate\<close>, which every resource goes through: a
  property of objects that holds of the initial object and of the stored one, and is kept by
  the mutation and by the server, holds of what is stored afterwards.
\<close>

lemma retry_cou_run:
  assumes run: "retry_run conflict (\<lambda>(x, w). k_CreateOrUpdate K x f w) s r"
    and cou: "cou_law K view" and vl: "view_law view"
    and key: "\<And>b. okey (f b) = okey b"
    and stepP: "\<And>b. P b \<Longrightarrow> P (f b)" and admP: "\<And>a b. P a \<Longrightarrow> admitted a b \<Longrightarrow> P b"
  shows "P (fst s) \<Longrightarrow> (\<forall>b. view (snd s) (okey (fst s)) = Some b \<longrightarrow> P b) \<Longrightarrow>
    okey (fst (snd r)) = okey (fst s)
    \<and> (\<forall>k. k \<noteq> okey (fst s) \<longrightarrow> view (snd (snd r)) k = view (snd s) k)
    \<and> (\<forall>z. view (snd (snd r)) (okey (fst s)) = Some z \<longrightarrow> P z)
    \<and> (fst r = None \<longrightarrow> view (snd (snd r)) (okey (fst s)) = Some (fst (snd r))
         \<and> (\<exists>b. P b \<and> okey b = okey (fst s) \<and> admitted (f b) (fst (snd r))))"
  using run
proof (induction rule: retry_run.induct)
  case (last s r)
  obtain x w where s: "s = (x, w)" by (cases s)
  obtain e y w' where r: "r = (e, y, w')" by (cases r)
  have base: "P b \<and> okey b = okey x" if "cou_base view x w b" for b
    using that last.prems view_lawD [OF vl, of w "okey x" b] unfolding cou_base_def s by auto
  have step: "P z" if "cou_base view x w b \<and> (z = b \<or> z = f b \<or> admitted (f b) z)" for b z
    using that base [of b] stepP admP by blast
  from last.hyps have c: "k_CreateOrUpdate K x f w = (e, y, w')" by (simp add: s r)
  note facts = cou [unfolded cou_law_def, rule_format, OF c key]
  have "okey y = okey x"
    using facts base key admitted_okey by metis
  moreover have "P z" if "view w' (okey x) = Some z" for z
    using facts step that by blast
  ultimately show ?case
    using facts base unfolding s r fst_conv snd_conv by blast
next
  case (again s e s' r)
  obtain x w where s: "s = (x, w)" by (cases s)
  obtain y w' where s': "s' = (y, w')" by (cases s')
  have base: "P b \<and> okey b = okey x" if "cou_base view x w b" for b
    using that again.prems view_lawD [OF vl, of w "okey x" b] unfolding cou_base_def s by auto
  have step: "P z" if "cou_base view x w b \<and> (z = b \<or> z = f b \<or> admitted (f b) z)" for b z
    using that base [of b] stepP admP by blast
  from again.hyps(1) have c: "k_CreateOrUpdate K x f w = (Some e, y, w')" by (simp add: s s')
  note facts = cou [unfolded cou_law_def, rule_format, OF c key]
  have ok: "okey y = okey x"
    using facts base key admitted_okey by metis
  have "P y" using facts step by blast
  moreover have "P z" if "view w' (okey x) = Some z" for z
    using facts step that by blast
  then have "\<forall>b. view w' (okey x) = Some b \<longrightarrow> P b"
    by blast
  ultimately have ih: "okey (fst (snd r)) = okey x
      \<and> (\<forall>k. k \<noteq> okey x \<longrightarrow> view (snd (snd r)) k = view w' k)
      \<and> (\<forall>z. view (snd (snd r)) (okey x) = Some z \<longrightarrow> P z)
      \<and> (fst r = None \<longrightarrow> view (snd (snd r)) (okey x) = Some (fst (snd r))
           \<and> (\<exists>b. P b \<and> okey b = okey x \<and> admitted (f b) (fst (snd r))))"
    by (rule again.IH [unfolded s' fst_conv snd_conv ok])
  have "\<forall>k. k \<noteq> okey x \<longrightarrow> view w' k = view w k"
    using facts by blast
  with ih show ?case
    unfolding s fst_conv snd_conv by (simp del: split_paired_All split_paired_Ex)
qed

text \<open>The call pattern of the code, as one definition, with the rule for it.\<close>

definition retry_create_or_update ::
  "'w kube \<Rightarrow> (object \<Rightarrow> object) \<Rightarrow> object \<Rightarrow> 'w \<Rightarrow> goerror option \<times> object \<times> 'w" where
  "retry_create_or_update K f x w =
     k_RetryOnConflict K (\<lambda>(x, w). k_CreateOrUpdate K x f w) (x, w)"

lemma retry_cou:
  assumes laws: "kube_laws K view" and res: "retry_create_or_update K f x w = (e, y, w')"
    and key: "\<And>b. okey (f b) = okey b"
    and "\<And>b. P b \<Longrightarrow> P (f b)" and "\<And>a b. P a \<Longrightarrow> admitted a b \<Longrightarrow> P b"
    and "P x" and "\<And>b. view w (okey x) = Some b \<Longrightarrow> P b"
  shows "okey y = okey x"
    and "k \<noteq> okey x \<Longrightarrow> view w' k = view w k"
    and "view w' (okey x) = Some z \<Longrightarrow> P z"
    and "e = None \<Longrightarrow> view w' (okey x) = Some y"
    and "e = None \<Longrightarrow> \<exists>b. P b \<and> okey b = okey x \<and> admitted (f b) y"
proof -
  have run: "retry_run (k_IsConflict K) (\<lambda>(x, w). k_CreateOrUpdate K x f w) (x, w)
      (retry_create_or_update K f x w)"
    by (simp add: retry_create_or_update_def retry_law_run [OF laws])
  have all: "okey y = okey x \<and> (\<forall>k. k \<noteq> okey x \<longrightarrow> view w' k = view w k)
      \<and> (\<forall>z. view w' (okey x) = Some z \<longrightarrow> P z)
      \<and> (e = None \<longrightarrow> view w' (okey x) = Some y
           \<and> (\<exists>b. P b \<and> okey b = okey x \<and> admitted (f b) y))"
    by (rule retry_cou_run [where s = "(x, w)" and r = "(e, y, w')" and P = P,
          unfolded fst_conv snd_conv, OF run [unfolded res] kube_lawsD(6) [OF laws]
          kube_lawsD(1) [OF laws]]) (use assms in auto)
  show "okey y = okey x" and "k \<noteq> okey x \<Longrightarrow> view w' k = view w k"
    and "view w' (okey x) = Some z \<Longrightarrow> P z"
    and "e = None \<Longrightarrow> view w' (okey x) = Some y"
    and "e = None \<Longrightarrow> \<exists>b. P b \<and> okey b = okey x \<and> admitted (f b) y"
    using all by blast+
qed

text \<open>The two consequences used most: what a successful call stores, and what any call leaves.\<close>

lemma retry_cou_stored:
  assumes "kube_laws K view" and "retry_create_or_update K f x w = (None, y, w')"
    and "\<And>b. okey (f b) = okey b"
  shows "view w' (okey x) = Some y \<and> (\<exists>b. okey b = okey x \<and> admitted (f b) y)"
  using retry_cou(4,5) [where P = "\<lambda>_. True", OF assms] by auto

lemma retry_cou_frame:
  assumes "kube_laws K view" and "\<And>b. okey (f b) = okey b" and "k \<noteq> okey x"
  shows "view (snd (snd (retry_create_or_update K f x w))) k = view w k"
proof -
  obtain e y w' where r: "retry_create_or_update K f x w = (e, y, w')"
    by (cases "retry_create_or_update K f x w")
  show ?thesis
    using retry_cou(2) [where P = "\<lambda>_. True", OF assms(1) r assms(2)] assms(3) by (simp add: r)
qed

lemma get_law_view: "get_law K view \<Longrightarrow> k_Get K key x w = (e, y, w') \<Longrightarrow> view w' = view w"
  unfolding get_law_def by blast

lemma get_law_found:
  "get_law K view \<Longrightarrow> k_Get K key x w = (None, y, w') \<Longrightarrow> view w (obj_kind x, key) = Some y"
  unfolding get_law_def by blast

text \<open>
  The other call pattern: the attempt allocates its object anew each time, as in
  \<open>scriptConfigmap\<close>.
\<close>

definition retry_fresh_create_or_update ::
  "'w kube \<Rightarrow> (object \<Rightarrow> object) \<Rightarrow> object \<Rightarrow> 'w \<Rightarrow> goerror option \<times> object \<times> 'w" where
  "retry_fresh_create_or_update K f x w =
     k_RetryOnConflict K (\<lambda>(_, w). k_CreateOrUpdate K x f w) (x, w)"

lemma retry_run_frame:
  assumes "retry_run conflict f s r" and "\<And>s. g (snd (snd (f s))) = g (snd s)"
  shows "g (snd (snd r)) = g (snd s)"
  by (rule retry_run_inv [where I = "\<lambda>s'. g (snd s') = g (snd s)", OF assms(1)])
    (use assms(2) in \<open>auto split: prod.splits, metis snd_conv\<close>)

text \<open>A successful retry loop ends with a successful attempt from some state.\<close>

lemma retry_run_success:
  assumes "retry_run conflict f s r" and "fst r = None"
  shows "\<exists>s'. f s' = r"
  using assms by (induction rule: retry_run.induct) auto

lemma cou_frame:
  assumes "cou_law K view" and "\<And>b. okey (f b) = okey b" and "k \<noteq> okey x"
  shows "view (snd (snd (k_CreateOrUpdate K x f w))) k = view w k"
  using assms unfolding cou_law_def by (metis prod.collapse)

lemma retry_fresh_frame:
  assumes laws: "kube_laws K view" and "\<And>b. okey (f b) = okey b" and "k \<noteq> okey x"
  shows "view (snd (snd (retry_fresh_create_or_update K f x w))) k = view w k"
proof -
  have "retry_run (k_IsConflict K) (\<lambda>(_, w). k_CreateOrUpdate K x f w) (x, w)
      (retry_fresh_create_or_update K f x w)"
    by (simp add: retry_fresh_create_or_update_def retry_law_run [OF laws])
  moreover have "view (snd (snd ((\<lambda>(_, w). k_CreateOrUpdate K x f w) s))) k = view (snd s) k" for s
    by (cases s) (simp add: cou_frame [OF kube_lawsD(6) [OF laws] assms(2,3)])
  ultimately show ?thesis
    using retry_run_frame [where g = "\<lambda>w. view w k"] by fastforce
qed

lemma retry_fresh_stored:
  assumes laws: "kube_laws K view" and res: "retry_fresh_create_or_update K f x w = (None, y, w')"
    and key: "\<And>b. okey (f b) = okey b"
  shows "view w' (okey x) = Some y \<and> (\<exists>b. okey b = okey x \<and> admitted (f b) y)"
proof -
  have "retry_run (k_IsConflict K) (\<lambda>(_, w). k_CreateOrUpdate K x f w) (x, w) (None, y, w')"
    by (simp add: retry_fresh_create_or_update_def retry_law_run [OF laws] flip: res)
  from retry_run_success [OF this] obtain w1 where
    call: "k_CreateOrUpdate K x f w1 = (None, y, w')" by auto
  have vl: "view_law view" by (rule kube_lawsD(1) [OF laws])
  from kube_lawsD(6) [OF laws, unfolded cou_law_def, rule_format, OF call key]
  have "view w' (okey x) = Some y" "\<exists>b. cou_base view x w1 b \<and> admitted (f b) y" by auto
  then show ?thesis using view_lawD [OF vl] unfolding cou_base_def by metis
qed

end
