(* ===== verification/MemCluster.thy ===== *)
theory MemCluster
  imports Kube
begin

text \<open>
  An in-memory cluster: a store of objects, a list of pods, and a function \<open>deny\<close> that gives
  the error with which writes to a key are refused. It satisfies every law of \<^theory_text>\<open>Kube\<close>, so the
  hypotheses of the properties can hold together; the witnesses run the operator on it. It
  models no part of the repository.
\<close>

record mem =
  mem_store :: "okey \<Rightarrow> object option"
  mem_pods :: "pod list"

definition mem_view :: "mem \<Rightarrow> okey \<Rightarrow> object option" where
  "mem_view w k = (case mem_store w k of
     Some b \<Rightarrow> if okey b = k then Some b else None | None \<Rightarrow> None)"

definition mem_put :: "object \<Rightarrow> mem \<Rightarrow> mem" where
  "mem_put x w = w\<lparr>mem_store := (mem_store w)(okey x \<mapsto> x)\<rparr>"

definition mem_drop :: "object \<Rightarrow> mem \<Rightarrow> mem" where
  "mem_drop x w = w\<lparr>mem_store := (mem_store w)(okey x := None)\<rparr>"

definition not_found :: goerror where
  "not_found = StatusError ''NotFound'' ''not found''"

type_synonym deny = "okey \<Rightarrow> goerror option"

definition mem_get :: "nsname \<Rightarrow> object \<Rightarrow> mem \<Rightarrow> goerror option \<times> object \<times> mem" where
  "mem_get key x w = (case mem_view w (obj_kind x, key) of
     None \<Rightarrow> (Some not_found, x, w) | Some b \<Rightarrow> (None, b, w))"

definition mem_update :: "deny \<Rightarrow> object \<Rightarrow> mem \<Rightarrow> goerror option \<times> object \<times> mem" where
  "mem_update deny x w = (case deny (okey x) of Some e \<Rightarrow> (Some e, x, w)
     | None \<Rightarrow> (case mem_view w (okey x) of None \<Rightarrow> (Some not_found, x, w)
        | Some b \<Rightarrow> if om_DeletionTimestamp (obj_meta x) \<noteq> None \<and> om_Finalizers (obj_meta x) = []
            then (None, x, mem_drop x w) else (None, x, mem_put x w)))"

definition mem_status_update :: "deny \<Rightarrow> object \<Rightarrow> mem \<Rightarrow> goerror option \<times> object \<times> mem" where
  "mem_status_update deny x w = (case deny (okey x) of Some e \<Rightarrow> (Some e, x, w)
     | None \<Rightarrow> (case mem_view w (okey x) of None \<Rightarrow> (Some not_found, x, w)
        | Some b \<Rightarrow> (None, x, mem_put x w)))"

definition mem_delete :: "deny \<Rightarrow> object \<Rightarrow> mem \<Rightarrow> goerror option \<times> mem" where
  "mem_delete deny x w = (case deny (okey x) of Some e \<Rightarrow> (Some e, w)
     | None \<Rightarrow> (case mem_view w (okey x) of None \<Rightarrow> (Some not_found, w)
        | Some b \<Rightarrow> (None, mem_drop x w)))"

definition mem_list_pods :: "string \<Rightarrow> labels \<Rightarrow> mem \<Rightarrow> (goerror + pod list) \<times> mem" where
  "mem_list_pods ns l w = (Inr (filter (\<lambda>p. om_Namespace (pod_meta p) = ns
     \<and> l \<subseteq>\<^sub>m om_Labels (pod_meta p)) (mem_pods w)), w)"

text \<open>
  The server allocates a node port where a service of that type asks for none: the one the
  service had for the port of that name, if it had one.
\<close>

definition mem_alloc :: "service_port list \<Rightarrow> service_port \<Rightarrow> service_port" where
  "mem_alloc ps p = (if sp_NodePort p = 0
     then p\<lparr>sp_NodePort := (case find (\<lambda>q. sp_Name q = sp_Name p \<and> sp_NodePort q \<noteq> 0) ps of
              Some q \<Rightarrow> sp_NodePort q | None \<Rightarrow> 30000)\<rparr>
     else p)"

fun mem_ports :: "object option \<Rightarrow> service_port list" where
  "mem_ports (Some (ObjService s)) = svc_Ports s"
| "mem_ports _ = []"

definition mem_admit :: "object option \<Rightarrow> object \<Rightarrow> object" where
  "mem_admit old x = (case x of
     ObjService s \<Rightarrow> ObjService (if svc_Type s = ''NodePort''
       then s\<lparr>svc_Ports := map (mem_alloc (mem_ports old)) (svc_Ports s)\<rparr> else s)
   | _ \<Rightarrow> x)"

definition mem_cou ::
  "deny \<Rightarrow> object \<Rightarrow> (object \<Rightarrow> object) \<Rightarrow> mem \<Rightarrow> goerror option \<times> object \<times> mem" where
  "mem_cou deny x f w = (case deny (okey x) of Some e \<Rightarrow> (Some e, x, w)
     | None \<Rightarrow> (let b = (case mem_view w (okey x) of None \<Rightarrow> x | Some b \<Rightarrow> b);
                    y = mem_admit (mem_view w (okey x)) (f b) in (None, y, mem_put y w)))"

fun mem_retry :: "nat \<Rightarrow> (goerror \<Rightarrow> bool) \<Rightarrow> mem attempt \<Rightarrow> mem attempt" where
  "mem_retry 0 conflict f s = f s"
| "mem_retry (Suc n) conflict f s = (case f s of
     (Some e, s') \<Rightarrow> if conflict e then mem_retry n conflict f s' else (Some e, s')
   | r \<Rightarrow> r)"

definition mem_conflict :: "goerror \<Rightarrow> bool" where
  "mem_conflict e = (case e of StatusError r m \<Rightarrow> r = ''Conflict'' | ErrorsNew m \<Rightarrow> False)"

definition mem_is_not_found :: "goerror \<Rightarrow> bool" where
  "mem_is_not_found e = (case e of StatusError r m \<Rightarrow> r = ''NotFound'' | ErrorsNew m \<Rightarrow> False)"

definition mem_set_condition :: "condition list \<Rightarrow> condition \<Rightarrow> condition list" where
  "mem_set_condition cs c = (if co_Type c \<in> set (map co_Type cs)
     then map (\<lambda>d. if co_Type d = co_Type c then c else d) cs else cs @ [c])"

definition mem_kube :: "deny \<Rightarrow> mem kube" where
  "mem_kube deny = \<lparr>k_Get = mem_get, k_Update = mem_update deny,
     k_StatusUpdate = mem_status_update deny, k_Delete = mem_delete deny,
     k_ListPods = mem_list_pods, k_CreateOrUpdate = mem_cou deny,
     k_RetryOnConflict = mem_retry 4 mem_conflict, k_IsNotFound = mem_is_not_found,
     k_IgnoreNotFound = (\<lambda>e. if mem_is_not_found e then None else Some e),
     k_IsConflict = mem_conflict, k_SetStatusCondition = mem_set_condition,
     k_ContainsFinalizer = (\<lambda>fs f. f \<in> set fs),
     k_AddFinalizer = (\<lambda>fs f. if f \<in> set fs then fs else fs @ [f]),
     k_RemoveFinalizer = (\<lambda>fs f. filter (\<lambda>x. x \<noteq> f) fs),
     k_Hash = (\<lambda>s. ''hash'')\<rparr>"

section \<open>It satisfies the laws\<close>

lemma mem_view_put: "mem_view (mem_put x w) k = (if k = okey x then Some x else mem_view w k)"
  by (simp add: mem_view_def mem_put_def)

lemma mem_view_drop: "mem_view (mem_drop x w) k = (if k = okey x then None else mem_view w k)"
  by (simp add: mem_view_def mem_drop_def)

lemma mem_view_okey: "mem_view w k = Some b \<Longrightarrow> okey b = k"
  by (auto simp: mem_view_def split: option.splits if_splits)

lemma okey_kind_key: "okey x = (obj_kind x, ObjectKeyFromObject x)"
  by (simp add: okey_def)

lemma mem_admit_admitted: "admitted x (mem_admit old x)"
  by (cases x) (auto simp: mem_admit_def list.rel_map port_admitted_def mem_alloc_def
      intro!: list.rel_refl_strong)

lemma mem_retry_run: "retry_run c f s (mem_retry n c f s)"
proof (induction n arbitrary: s)
  case 0
  then show ?case by (auto intro: retry_run.last)
next
  case (Suc n)
  obtain e s' where fs: "f s = (e, s')" by (cases "f s")
  show ?case
  proof (cases e)
    case None
    then show ?thesis using fs by (auto intro: retry_run.last)
  next
    case (Some e')
    then show ?thesis
      using fs Suc.IH [of s'] by (auto intro: retry_run.last retry_run.again)
  qed
qed

lemma find_map_replace:
  "find (\<lambda>c. co_Type c = t) (map (\<lambda>d. if co_Type d = co_Type c then c else d) cs) =
    (if t = co_Type c then (if co_Type c \<in> co_Type ` set cs then Some c else None)
     else find (\<lambda>c. co_Type c = t) cs)"
  by (induction cs) auto

lemma find_snoc:
  "find P (xs @ [x]) = (case find P xs of None \<Rightarrow> (if P x then Some x else None) | Some y \<Rightarrow> Some y)"
  by (induction xs) auto

lemma mem_find_condition:
  "find_condition (mem_set_condition cs c) t =
    (if t = co_Type c then Some c else find_condition cs t)"
proof (cases "co_Type c \<in> co_Type ` set cs")
  case True
  then show ?thesis by (simp add: mem_set_condition_def find_condition_def find_map_replace)
next
  case False
  then have "find (\<lambda>d. co_Type d = co_Type c) cs = None"
    by (simp add: find_None_iff) (metis imageI)
  with False show ?thesis
    by (auto simp: mem_set_condition_def find_condition_def find_snoc split: option.splits)
qed

lemma mem_set_condition_types:
  "map co_Type (mem_set_condition cs c) =
    (if co_Type c \<in> set (map co_Type cs) then map co_Type cs else map co_Type cs @ [co_Type c])"
  by (auto simp: mem_set_condition_def)

lemma set_mem_set_condition: "set (mem_set_condition cs c) \<subseteq> insert c (set cs)"
  by (auto simp: mem_set_condition_def)

lemma mem_cond_law: "cond_law (mem_kube deny)"
  unfolding cond_law_def
  using set_mem_set_condition
  by (auto simp: mem_kube_def mem_find_condition mem_set_condition_types)

lemma mem_cou_law: "cou_law (mem_kube deny) mem_view"
  unfolding cou_law_def
proof (intro allI impI)
  fix x f w e y w'
  assume call: "k_CreateOrUpdate (mem_kube deny) x f w = (e, y, w')"
    and key: "\<forall>b. okey (f b) = okey b"
  let ?b = "case mem_view w (okey x) of None \<Rightarrow> x | Some b \<Rightarrow> b"
  have base: "cou_base mem_view x w ?b" "okey ?b = okey x"
    by (auto simp: cou_base_def mem_view_okey split: option.splits)
  have adm: "admitted (f ?b) (mem_admit (mem_view w (okey x)) (f ?b))" by (rule mem_admit_admitted)
  then have ok: "okey (mem_admit (mem_view w (okey x)) (f ?b)) = okey x"
    using key base(2) admitted_okey by metis
  show "(\<forall>k. k \<noteq> okey x \<longrightarrow> mem_view w' k = mem_view w k)
     \<and> (\<exists>b. cou_base mem_view x w b \<and> (y = b \<or> y = f b \<or> admitted (f b) y))
     \<and> (\<forall>z. mem_view w' (okey x) = Some z \<longrightarrow>
          (\<exists>b. cou_base mem_view x w b \<and> (z = b \<or> z = f b \<or> admitted (f b) z)))
     \<and> (e = None \<longrightarrow> mem_view w' (okey x) = Some y
          \<and> (\<exists>b. cou_base mem_view x w b \<and> admitted (f b) y))"
  proof (cases "deny (okey x)")
    case None
    with call have "e = None" "y = mem_admit (mem_view w (okey x)) (f ?b)" "w' = mem_put (mem_admit (mem_view w (okey x)) (f ?b)) w"
      by (auto simp: mem_kube_def mem_cou_def Let_def)
    then show ?thesis using base adm ok by (auto simp: mem_view_put)
  next
    case (Some err)
    with call have "e = Some err" "y = x" "w' = w"
      by (simp_all add: mem_kube_def mem_cou_def)
    then show ?thesis by (auto simp: cou_base_def)
  qed
qed

lemma mem_delete_law: "delete_law (mem_kube deny) mem_view"
  by (auto simp: delete_law_def mem_kube_def mem_delete_def mem_view_drop
      split: option.splits)

lemma mem_update_law: "update_law (mem_kube deny) mem_view"
  by (auto simp: update_law_def mem_kube_def mem_update_def mem_status_update_def mem_view_put
      mem_view_drop split: option.splits if_splits)

lemma mem_get_law: "get_law (mem_kube deny) mem_view"
  by (auto simp: get_law_def mem_kube_def mem_get_def split: option.splits)

lemma mem_status_law: "status_law (mem_kube deny) mem_view"
  by (auto simp: status_law_def mem_kube_def mem_status_update_def mem_view_put
      split: option.splits)

lemma mem_finalizer_update_law: "finalizer_update_law (mem_kube deny) mem_view"
  by (auto simp: finalizer_update_law_def mem_kube_def mem_update_def mem_view_put
      split: option.splits if_splits)

theorem mem_kube_laws: "kube_laws (mem_kube deny) mem_view"
  unfolding kube_laws_def
  using mem_cond_law mem_cou_law mem_delete_law mem_update_law mem_get_law mem_status_law
    mem_finalizer_update_law
  by (auto simp: view_law_def mem_view_okey retry_law_def list_law_def finalizer_law_def
      notfound_law_def mem_kube_def mem_list_pods_def mem_retry_run)

text \<open>The fields of the record, for evaluation.\<close>

lemma mem_kube_sel [simp]:
  "k_Get (mem_kube deny) = mem_get"
  "k_Update (mem_kube deny) = mem_update deny"
  "k_StatusUpdate (mem_kube deny) = mem_status_update deny"
  "k_Delete (mem_kube deny) = mem_delete deny"
  "k_ListPods (mem_kube deny) = mem_list_pods"
  "k_CreateOrUpdate (mem_kube deny) = mem_cou deny"
  "k_RetryOnConflict (mem_kube deny) = mem_retry 4 mem_conflict"
  "k_IsNotFound (mem_kube deny) = mem_is_not_found"
  "k_IgnoreNotFound (mem_kube deny) = (\<lambda>e. if mem_is_not_found e then None else Some e)"
  "k_SetStatusCondition (mem_kube deny) = mem_set_condition"
  by (simp_all add: mem_kube_def)

text \<open>Where nothing is refused, \<open>CreateOrUpdate\<close> succeeds in the first attempt.\<close>

lemma mem_retry_cou:
  assumes "deny (okey x) = None"
  shows "retry_create_or_update (mem_kube deny) f x w =
    (let b = (case mem_view w (okey x) of None \<Rightarrow> x | Some b \<Rightarrow> b);
         y = mem_admit (mem_view w (okey x)) (f b) in (None, y, mem_put y w))"
proof -
  have "mem_retry 4 c g s = g s" if "fst (g s) = None" for c g and s :: "object \<times> mem"
    using that by (cases "g s") (simp add: numeral_eq_Suc)
  then show ?thesis
    using assms by (simp add: retry_create_or_update_def mem_cou_def Let_def)
qed

end
