(* ===== verification/Storage.thy ===== *)
theory Storage
  imports GoStrings
begin

text \<open>
  The object-storage client (\<open>internal/pkg/storage/interface.go\<close> and \<open>s3.go\<close>). The AWS SDK is
  the record \<open>s3_sdk\<close> of functions over a state \<^typ>\<open>'w\<close> of the outside world; the code under
  \<open>src/\<close> builds its configuration, chooses the service and wraps the calls. A nil pointer in an
  answer of the SDK makes the wrapper panic, as the dereference does.
\<close>

section \<open>Configuration\<close>

record Config =
  cfg_Type :: string
  cfg_Key :: string
  cfg_Secret :: string
  cfg_Region :: string
  cfg_Endpoint :: string
  cfg_MaxBackoffDelay :: "int32 option"
  cfg_MaxRetryAttempts :: "int32 option"

text \<open>Durations are nanoseconds in an \<open>int64\<close>.\<close>

definition second :: int64 where "second = 1000000000"

record http_client =
  hc_DialTimeout :: int64
  hc_DialKeepAlive :: int64
  hc_MaxIdleConns :: int
  hc_MaxIdleConnsPerHost :: int
  hc_IdleConnTimeout :: int64
  hc_TLSHandshakeTimeout :: int64
  hc_ExpectContinueTimeout :: int64
  hc_ResponseHeaderTimeout :: int64
  hc_DisableCompression :: bool
  hc_DisableKeepAlives :: bool
  hc_InsecureSkipVerify :: bool
  hc_Timeout :: int64

definition getHttpClient :: http_client where
  "getHttpClient = \<lparr>hc_DialTimeout = 90 * second, hc_DialKeepAlive = 30 * second,
     hc_MaxIdleConns = 2000, hc_MaxIdleConnsPerHost = 2000, hc_IdleConnTimeout = 90 * second,
     hc_TLSHandshakeTimeout = 90 * second, hc_ExpectContinueTimeout = 90 * second,
     hc_ResponseHeaderTimeout = 90 * second, hc_DisableCompression = False,
     hc_DisableKeepAlives = False, hc_InsecureSkipVerify = True, hc_Timeout = second * 90\<rparr>"

text \<open>The options handed to \<open>config.LoadDefaultConfig\<close>.\<close>

record aws_options =
  ao_Region :: string
  ao_Key :: string
  ao_Secret :: string
  ao_SessionToken :: string
  ao_EndpointURL :: string
  ao_SigningRegion :: string
  ao_HTTPClient :: http_client
  ao_MaxAttempts :: int
  ao_MaxBackoffDelay :: int64

record s3_client =
  cl_Options :: aws_options
  cl_UsePathStyle :: bool

record list_result =
  lr_Contents :: "string option list"
  lr_CommonPrefixes :: "string option list"

text \<open>The body of an answer is a stream: a handle that \<open>io.ReadAll\<close> reads and \<open>Close\<close> closes.\<close>

type_synonym body = nat

record 'w s3_sdk =
  sdk_LoadDefaultConfig :: "aws_options \<Rightarrow> 'w \<Rightarrow> goerror option \<times> 'w"
  sdk_CreateBucket :: "s3_client \<Rightarrow> string \<Rightarrow> 'w \<Rightarrow> goerror option \<times> 'w"
  sdk_DeleteBucket :: "s3_client \<Rightarrow> string \<Rightarrow> 'w \<Rightarrow> goerror option \<times> 'w"
  sdk_HeadObject :: "s3_client \<Rightarrow> string \<Rightarrow> string \<Rightarrow> 'w \<Rightarrow> goerror option \<times> 'w"
  sdk_DeleteObject :: "s3_client \<Rightarrow> string \<Rightarrow> string \<Rightarrow> 'w \<Rightarrow> goerror option \<times> 'w"
  sdk_PutObject :: "s3_client \<Rightarrow> string \<Rightarrow> string \<Rightarrow> string \<Rightarrow> (string \<rightharpoonup> string) \<Rightarrow> 'w \<Rightarrow>
    goerror option \<times> 'w"
  sdk_GetObject :: "s3_client \<Rightarrow> string \<Rightarrow> string \<Rightarrow> 'w \<Rightarrow> (goerror + body) \<times> 'w"
  sdk_ReadAll :: "body \<Rightarrow> 'w \<Rightarrow> (goerror + string) \<times> 'w"
  sdk_Close :: "body \<Rightarrow> 'w \<Rightarrow> 'w"
  sdk_ListObjects :: "s3_client \<Rightarrow> string \<Rightarrow> string option \<Rightarrow> string option \<Rightarrow> 'w \<Rightarrow>
    (goerror + list_result) \<times> 'w"
  sdk_ListBuckets :: "s3_client \<Rightarrow> 'w \<Rightarrow> (goerror + string option list) \<times> 'w"

text \<open>
  \<open>awsConfig\<close>: the defaults for the two retry settings, and the backoff in nanoseconds. The
  product is computed in \<open>int32\<close> before the conversion to a duration, so it wraps.
\<close>

definition awsMaxBackoff :: "Config \<Rightarrow> int64" where
  "awsMaxBackoff cfg =
     (let m = (case cfg_MaxBackoffDelay cfg of None \<Rightarrow> 20 | Some m \<Rightarrow> m)
      in scast (m * 1000 * 1000 :: int32))"

definition awsMaxAttempts :: "Config \<Rightarrow> int" where
  "awsMaxAttempts cfg =
     (let m = (case cfg_MaxRetryAttempts cfg of None \<Rightarrow> 10 | Some m \<Rightarrow> m) in sint m)"

definition awsConfig ::
  "'w s3_sdk \<Rightarrow> Config \<Rightarrow> 'w \<Rightarrow> (aws_options \<times> http_client \<times> goerror option) \<times> 'w" where
  "awsConfig S cfg w =
     (let httpCli = getHttpClient;
          opts = \<lparr>ao_Region = cfg_Region cfg, ao_Key = cfg_Key cfg, ao_Secret = cfg_Secret cfg,
            ao_SessionToken = '''', ao_EndpointURL = cfg_Endpoint cfg,
            ao_SigningRegion = cfg_Region cfg, ao_HTTPClient = httpCli,
            ao_MaxAttempts = awsMaxAttempts cfg, ao_MaxBackoffDelay = awsMaxBackoff cfg\<rparr>;
          (err, w) = sdk_LoadDefaultConfig S opts w
      in ((opts, httpCli, err), w))"

record s3Service =
  s3s_client :: s3_client
  s3s_cfg :: Config
  s3s_httpCli :: http_client

definition newS3Service :: "'w s3_sdk \<Rightarrow> Config \<Rightarrow> 'w \<Rightarrow> (goerror + s3Service) \<times> 'w" where
  "newS3Service S cfg w =
     (case awsConfig S cfg w of
        ((opts, hcli, Some err), w) \<Rightarrow> (Inl err, w)
      | ((opts, hcli, None), w) \<Rightarrow>
          (let cli = \<lparr>cl_Options = opts, cl_UsePathStyle = True\<rparr>
           in (Inr \<lparr>s3s_client = cli, s3s_cfg = cfg, s3s_httpCli = hcli\<rparr>, w)))"

definition newS3BucketService ::
  "'w s3_sdk \<Rightarrow> Config \<Rightarrow> 'w \<Rightarrow> (goerror + s3Service) \<times> 'w" where
  "newS3BucketService S cfg w =
     (case awsConfig S cfg w of
        ((opts, hcli, Some err), w) \<Rightarrow> (Inl err, w)
      | ((opts, hcli, None), w) \<Rightarrow>
          (let cli = \<lparr>cl_Options = opts, cl_UsePathStyle = True\<rparr>
           in (Inr \<lparr>s3s_client = cli, s3s_cfg = cfg, s3s_httpCli = hcli\<rparr>, w)))"

definition NewStorage :: "'w s3_sdk \<Rightarrow> Config \<Rightarrow> 'w \<Rightarrow> (goerror + s3Service) \<times> 'w" where
  "NewStorage S cfg w =
     (let cfg = (if \<not> hasPrefix (cfg_Endpoint cfg) ''http''
                 then cfg\<lparr>cfg_Endpoint := ''http://'' @ cfg_Endpoint cfg\<rparr> else cfg)
      in if cfg_Type cfg = '''' \<or> cfg_Type cfg = ''s3'' then newS3Service S cfg w
         else (Inl (ErrorsNew (''not support this s3 type: '' @ cfg_Type cfg)), w))"

definition NewBucket :: "'w s3_sdk \<Rightarrow> Config \<Rightarrow> 'w \<Rightarrow> (goerror + s3Service) \<times> 'w" where
  "NewBucket S cfg w =
     (let cfg = (if \<not> hasPrefix (cfg_Endpoint cfg) ''http''
                 then cfg\<lparr>cfg_Endpoint := ''http://'' @ cfg_Endpoint cfg\<rparr> else cfg)
      in if cfg_Type cfg = '''' \<or> cfg_Type cfg = ''s3'' then newS3BucketService S cfg w
         else (Inl (ErrorsNew (''not support this s3 type: '' @ cfg_Type cfg)), w))"

section \<open>The methods of the service\<close>

definition MkBucket :: "'w s3_sdk \<Rightarrow> s3Service \<Rightarrow> string \<Rightarrow> 'w \<Rightarrow> goerror option \<times> 'w" where
  "MkBucket S s bucketName w = sdk_CreateBucket S (s3s_client s) bucketName w"

definition DeleteBucket :: "'w s3_sdk \<Rightarrow> s3Service \<Rightarrow> string \<Rightarrow> 'w \<Rightarrow> goerror option \<times> 'w" where
  "DeleteBucket S s bucketName w = sdk_DeleteBucket S (s3s_client s) bucketName w"

definition DeleteObject ::
  "'w s3_sdk \<Rightarrow> s3Service \<Rightarrow> string \<Rightarrow> string \<Rightarrow> 'w \<Rightarrow> goerror option \<times> 'w" where
  "DeleteObject S s bucketName objectKey w =
     sdk_DeleteObject S (s3s_client s) bucketName objectKey w"

definition HeadObject ::
  "'w s3_sdk \<Rightarrow> s3Service \<Rightarrow> string \<Rightarrow> string \<Rightarrow> 'w \<Rightarrow> (bool \<times> goerror option) \<times> 'w" where
  "HeadObject S s bucketName objectKey w =
     (case sdk_HeadObject S (s3s_client s) bucketName objectKey w of
        (Some err, w) \<Rightarrow> ((False, Some err), w)
      | (None, w) \<Rightarrow> ((True, None), w))"

definition Upload ::
  "'w s3_sdk \<Rightarrow> s3Service \<Rightarrow> string \<Rightarrow> string \<Rightarrow> string \<Rightarrow> 'w \<Rightarrow> goerror option \<times> 'w" where
  "Upload S s bucketName objectKey objectData w =
     sdk_PutObject S (s3s_client s) bucketName objectKey objectData
       [''Content-Length'' \<mapsto> itoa (int (length objectData))] w"

definition Download ::
  "'w s3_sdk \<Rightarrow> s3Service \<Rightarrow> string \<Rightarrow> string \<Rightarrow> 'w \<Rightarrow> (goerror + string) \<times> 'w" where
  "Download S s bucketName objectKey w =
     (case sdk_GetObject S (s3s_client s) bucketName objectKey w of
        (Inl err, w) \<Rightarrow> (Inl err, w)
      | (Inr body, w) \<Rightarrow> (let (r, w) = sdk_ReadAll S body w in (r, sdk_Close S body w)))"

text \<open>\<open>for _, x := range xs { keys = append(keys, *x.Field) }\<close>: a nil field panics.\<close>

fun append_derefs :: "string list \<Rightarrow> string option list \<Rightarrow> string list go" where
  "append_derefs keys [] = Val keys"
| "append_derefs keys (None # xs) = Panic ''nil pointer dereference''"
| "append_derefs keys (Some k # xs) = append_derefs (keys @ [k]) xs"

definition list_keys :: "(goerror + string option list) \<times> 'w \<Rightarrow> (goerror + string list) go \<times> 'w" where
  "list_keys r = (case r of
     (Inl err, w) \<Rightarrow> (Val (Inl err), w)
   | (Inr xs, w) \<Rightarrow> (case append_derefs [] xs of
        Val keys \<Rightarrow> (Val (Inr keys), w) | Panic m \<Rightarrow> (Panic m, w)))"

definition ptr_prefix :: "string \<Rightarrow> string option" where
  "ptr_prefix prefix = (if prefix \<noteq> '''' then Some prefix else None)"

definition ListObjects ::
  "'w s3_sdk \<Rightarrow> s3Service \<Rightarrow> string \<Rightarrow> string \<Rightarrow> 'w \<Rightarrow> (goerror + string list) go \<times> 'w" where
  "ListObjects S s bucketName prefix w =
     (let (r, w) = sdk_ListObjects S (s3s_client s) bucketName (ptr_prefix prefix) None w
      in list_keys (map_sum id lr_Contents r, w))"

definition ListPrefix ::
  "'w s3_sdk \<Rightarrow> s3Service \<Rightarrow> string \<Rightarrow> string \<Rightarrow> 'w \<Rightarrow> (goerror + string list) go \<times> 'w" where
  "ListPrefix S s bucketName prefix w =
     (let (r, w) = sdk_ListObjects S (s3s_client s) bucketName (ptr_prefix prefix) (Some ''/'') w
      in list_keys (map_sum id lr_CommonPrefixes r, w))"

definition ListBuckets ::
  "'w s3_sdk \<Rightarrow> s3Service \<Rightarrow> 'w \<Rightarrow> (goerror + string list) go \<times> 'w" where
  "ListBuckets S s w = list_keys (sdk_ListBuckets S (s3s_client s) w)"

section \<open>Facts\<close>

lemma append_derefs_eq:
  "append_derefs keys xs =
     (if None \<in> set xs then Panic ''nil pointer dereference'' else Val (keys @ map the xs))"
proof (induction xs arbitrary: keys)
  case (Cons x xs)
  then show ?case by (cases x) auto
qed simp

lemma list_keys_eq:
  "list_keys (r, w) = (case r of Inl err \<Rightarrow> (Val (Inl err), w)
     | Inr xs \<Rightarrow> if None \<in> set xs then (Panic ''nil pointer dereference'', w)
                 else (Val (Inr (map the xs)), w))"
  by (simp add: list_keys_def append_derefs_eq split: sum.splits)

lemma NewStorage_NewBucket: "NewStorage S cfg w = NewBucket S cfg w"
  by (simp add: NewStorage_def NewBucket_def newS3Service_def newS3BucketService_def)

lemma int32_mult_small:
  assumes "- 2147 \<le> sint m" and "sint m \<le> 2147"
  shows "sint (m * 1000 * 1000 :: int32) = sint m * 1000000"
proof -
  have "m * 1000 * 1000 = (word_of_int (sint m * 1000000) :: int32)"
    by (simp add: mult.assoc)
  moreover have "sint (word_of_int (sint m * 1000000) :: int32) = sint m * 1000000"
    using assms by (intro sint_of_int32) auto
  ultimately show ?thesis by (simp only:)
qed

lemma sint_scast_int64: "sint (scast (x :: int32) :: int64) = sint x"
  by (rule sint_up_scast) (simp add: is_up)


lemma awsMaxBackoff_small:
  "cfg_MaxBackoffDelay cfg = Some m \<Longrightarrow> - 2147 \<le> sint m \<Longrightarrow> sint m \<le> 2147 \<Longrightarrow>
    sint (awsMaxBackoff cfg) = sint m * 1000000"
  by (simp only: awsMaxBackoff_def Let_def option.case sint_scast_int64 int32_mult_small)

end
