(* ===== verification/Naming.thy ===== *)
theory Naming
  imports MemCluster Storage
begin

text \<open>
  What the controllers of both roles share: the reconciler's fields, the names and labels of the
  owned resources (\<open>getAutoMQName\<close>, \<open>getAutoMQLabelMap\<close> of \<open>automq_controller.go\<close>), the quorum
  voters (\<open>controllerVoters\<close> of \<open>automq_controller_c.go\<close>) and the init container
  (\<open>init_contrainer.go\<close>). The lemmas say that no two owned resources share a name.
\<close>

text \<open>
  \<open>AutoMQReconciler\<close>, with what its methods reach through globals: the S3 SDK, the process
  environment, and the bytes of \<open>defaults/up.sh\<close> embedded in the binary.
\<close>

record 'w reconciler =
  r_Client :: "'w kube"
  r_Finalizer :: string
  r_MountTZ :: bool
  r_S3 :: "'w s3_sdk"
  r_Getenv :: "string \<Rightarrow> string"
  r_UpSh :: string

text \<open>The values a \<open>context.Context\<close> carries.\<close>

type_synonym ctx = "string \<rightharpoonup> string"

definition brokerRole :: string where "brokerRole = ''broker''"
definition controllerRole :: string where "controllerRole = ''controller''"
definition autoMQIndexKey :: string where "autoMQIndexKey = ''app.kubernetes.io/index''"

definition getAutoMQLabelMap :: "string \<Rightarrow> string \<Rightarrow> labels" where
  "getAutoMQLabelMap name role =
     (if role = '''' then
        [''app.kubernetes.io/owner-by'' \<mapsto> ''automq'',
         ''app.kubernetes.io/component'' \<mapsto> ''autpmq-operator'',
         ''app.kubernetes.io/instance'' \<mapsto> name]
      else
        [''app.kubernetes.io/owner-by'' \<mapsto> ''automq'',
         ''app.kubernetes.io/component'' \<mapsto> ''autpmq-operator'',
         ''app.kubernetes.io/instance'' \<mapsto> name,
         ''app.kubernetes.io/role'' \<mapsto> role])"

definition getAutoMQName :: "string \<Rightarrow> int32 option \<Rightarrow> string" where
  "getAutoMQName role index =
     (case index of
        Some i \<Rightarrow> ''automq-'' @ role @ ''-'' @ itoa (sint i)
      | None \<Rightarrow> ''automq-'' @ role)"

definition voter :: "AutoMQ \<Rightarrow> int \<Rightarrow> string" where
  "voter obj i = itoa i @ ''@'' @ getAutoMQName controllerRole (Some (word_of_int i)) @ ''.''
     @ mq_Namespace obj @ ''.svc:'' @ itoa 9093"

definition controllerVoters :: "AutoMQ \<Rightarrow> string list" where
  "controllerVoters obj =
     for_int 0 (sint (cs_Replicas (spec_Controller (mq_Spec obj))))
       (\<lambda>i voters. voters @ [voter obj i]) []"

definition sysctls :: "string list" where
  "sysctls = [
     ''sysctl -w fs.inotify.max_user_watches=8000000'',
     ''sysctl -w fs.file-max=40265318'',
     ''sysctl -w fs.inotify.max_user_instances=12800'',
     ''sysctl -w fs.inotify.max_queued_events=8000000'',
     ''sysctl -w net.core.somaxconn=65535'',
     ''sysctl -w net.ipv4.ip_local_port_range=\"1024 65535\"'',
     ''sysctl -w net.ipv4.tcp_tw_reuse=1'',
     ''sysctl -w net.ipv4.tcp_fin_timeout=10'',
     ''sysctl -w net.ipv4.tcp_keepalive_intvl=75'',
     ''sysctl -w net.ipv4.tcp_keepalive_probes=9'',
     ''sysctl -w net.ipv4.tcp_keepalive_time=7200'',
     ''ulimit -a'',
     ''mkdir -p /etc/security'',
     ''echo \"* - nofile 1048576\" >> /etc/security/limits.conf'',
     ''echo \"* - nproc 1048576\" >> /etc/security/limits.conf'',
     ''echo \"root - nofile 1048576\" >> /etc/security/limits.conf'',
     ''echo \"root - nproc 1048576\" >> /etc/security/limits.conf'']"

definition newline :: string where "newline = [CHR 0x0A]"

definition zero_container :: container where
  "zero_container = \<lparr>ct_Name = '''', ct_Image = '''', ct_Command = [], ct_Env = [],
     ct_VolumeMounts = [], ct_PreStopExec = None, ct_LivenessProbe = None, ct_Ports = [],
     ct_ImagePullPolicy = '''', ct_Resources = zero_resources, ct_Privileged = None\<rparr>"

definition sysctlContainer :: container where
  "sysctlContainer =
     (let container = zero_container\<lparr>
        ct_Name := ''sysctl'',
        ct_Image := BusyboxImageName,
        ct_Command := [],
        ct_ImagePullPolicy := ''IfNotPresent'',
        ct_Privileged := Some True,
        ct_Resources := \<lparr>
          rs_Requests = Some [''cpu'' \<mapsto> Quantity ''10m'', ''memory'' \<mapsto> Quantity ''64Mi''],
          rs_Limits = Some [''cpu'' \<mapsto> Quantity ''500m'', ''memory'' \<mapsto> Quantity ''256Mi'']\<rparr>\<rparr>
      in container\<lparr>ct_Command := [''sh'', ''-c'', join newline sysctls]\<rparr>)"

section \<open>Names are distinct\<close>

lemma name_Some: "getAutoMQName role (Some i) = ''automq-'' @ role @ ''-'' @ itoa (sint i)"
  by (simp add: getAutoMQName_def)

lemma name_index_inject [simp]:
  "getAutoMQName role (Some i) = getAutoMQName role (Some j) \<longleftrightarrow> i = j"
  by (simp add: name_Some) (metis word_of_int_sint32)

lemma name_roles_differ [simp]:
  "getAutoMQName controllerRole (Some i) \<noteq> getAutoMQName brokerRole (Some j)"
  "getAutoMQName brokerRole (Some j) \<noteq> getAutoMQName controllerRole (Some i)"
  by (simp_all add: name_Some controllerRole_def brokerRole_def)

lemma bootstrap_name_differs [simp]:
  "getAutoMQName (brokerRole @ ''-bootstrap'') None \<noteq> getAutoMQName controllerRole (Some i)"
  "getAutoMQName (brokerRole @ ''-bootstrap'') None \<noteq> getAutoMQName brokerRole (Some i)"
proof -
  show "getAutoMQName (brokerRole @ ''-bootstrap'') None \<noteq> getAutoMQName controllerRole (Some i)"
    by (simp add: getAutoMQName_def controllerRole_def brokerRole_def)
  have "CHR ''b'' \<notin> set (itoa (sint i))" by (rule notin_itoa) simp
  then have "''bootstrap'' \<noteq> itoa (sint i)" by (metis list.set_intros(1))
  then show "getAutoMQName (brokerRole @ ''-bootstrap'') None \<noteq> getAutoMQName brokerRole (Some i)"
    by (simp add: getAutoMQName_def brokerRole_def)
qed

section \<open>Voters\<close>

lemma for_int_append:
  "for_int lo hi (\<lambda>i xs. xs @ [f i]) xs = xs @ map f [lo..hi - 1]"
proof (induction "nat (hi - lo)" arbitrary: lo xs)
  case 0
  then show ?case by simp
next
  case (Suc n)
  then have "lo < hi" by simp
  with Suc.hyps(1) [of "lo + 1"] Suc.hyps(2) show ?case
    by (simp add: for_int_step upto_rec1)
qed

lemma controllerVoters_eq:
  "controllerVoters obj =
     map (voter obj) [0..sint (cs_Replicas (spec_Controller (mq_Spec obj))) - 1]"
  by (simp add: controllerVoters_def for_int_append)

lemma length_controllerVoters:
  "length (controllerVoters obj) = nat (sint (cs_Replicas (spec_Controller (mq_Spec obj))))"
  by (simp add: controllerVoters_eq)

lemma voter_inject: "voter obj i = voter obj j \<longleftrightarrow> i = j"
proof
  have at: "CHR ''@'' \<notin> set (itoa k)" for k by (rule notin_itoa) simp
  assume "voter obj i = voter obj j"
  then have "takeWhile (\<lambda>c. c \<noteq> CHR ''@'') (voter obj i) = takeWhile (\<lambda>c. c \<noteq> CHR ''@'') (voter obj j)"
    by simp
  moreover have "takeWhile (\<lambda>c. c \<noteq> CHR ''@'') (voter obj k) = itoa k" for k
    using at [of k] by (simp add: voter_def takeWhile_append)
  ultimately show "i = j" by simp
qed simp

lemma distinct_controllerVoters: "distinct (controllerVoters obj)"
  by (simp add: controllerVoters_eq distinct_map inj_on_def voter_inject)

end
