(* ===== verification/PodParts.thy ===== *)
theory PodParts
  imports Naming
begin

text \<open>
  The blocks that \<open>syncControllerDeploy\<close> and \<open>syncBrokerDeploy\<close> have in common: environment
  entries, the Kafka container with its mounts, probe and ports, the two volumes, and the
  optional additions (metrics, time zone, resources, user environment). Each is the same text
  in both files; the line numbers of the manifest are those of \<open>automq_controller_c.go\<close>. Also
  here: the status condition every stage sets, and the deletion of a named object.
\<close>

definition fieldEnv :: "string \<Rightarrow> string \<Rightarrow> env_var" where
  "fieldEnv n path = \<lparr>ev_Name = n, ev_Value = '''', ev_ValueFrom = Some (FieldRef path)\<rparr>"

definition valueEnv :: "string \<Rightarrow> string \<Rightarrow> env_var" where
  "valueEnv n v = \<lparr>ev_Name = n, ev_Value = v, ev_ValueFrom = None\<rparr>"

text \<open>The separator \<open>" \\\n"\<close> of the shell command: a blank, a backslash and a newline.\<close>

definition continuation :: string where
  "continuation = '' '' @ [CHR 0x5C] @ newline"

definition kafkaProbe :: "string \<Rightarrow> probe" where
  "kafkaProbe role = \<lparr>pr_TCPSocketPort = FromString role, pr_InitialDelaySeconds = 20,
     pr_TimeoutSeconds = 10, pr_PeriodSeconds = 30, pr_SuccessThreshold = 1,
     pr_FailureThreshold = 4, pr_TerminationGracePeriodSeconds = None\<rparr>"

definition kafkaContainer ::
  "string \<Rightarrow> int32 \<Rightarrow> string \<Rightarrow> env_var list \<Rightarrow> string list \<Rightarrow> container" where
  "kafkaContainer role port deployName envs cmds = zero_container\<lparr>
     ct_Name := role,
     ct_Image := DefaultImageName,
     ct_Env := envs,
     ct_VolumeMounts := [
       \<lparr>vm_Name = deployName, vm_MountPath = ''/data/kafka'', vm_SubPath = '''',
         vm_ReadOnly = False\<rparr>,
       \<lparr>vm_Name = ''script'', vm_MountPath = ''/opt/kafka/scripts/mq-start.sh'',
         vm_SubPath = ''up.sh'', vm_ReadOnly = False\<rparr>],
     ct_PreStopExec := Some [''bash'', ''-c'', ''/opt/kafka/kafka/bin/kafka-server-stop.sh''],
     ct_Command := [''/bin/bash'', ''-c'', join continuation cmds],
     ct_LivenessProbe := Some (kafkaProbe role),
     ct_Ports := [\<lparr>cp_Name = role, cp_ContainerPort = port, cp_Protocol = ''TCP''\<rparr>],
     ct_ImagePullPolicy := ''IfNotPresent''\<rparr>"

text \<open>The mode is the octal literal \<open>0755\<close>.\<close>

definition kafkaVolumes :: "string \<Rightarrow> string \<Rightarrow> volume list" where
  "kafkaVolumes name deployName = [
     \<lparr>vol_Name = ''script'', vol_Source = ConfigMapVolume name (Some 493)\<rparr>,
     \<lparr>vol_Name = deployName, vol_Source = ClaimVolume deployName\<rparr>]"

text \<open>An assignment through \<open>Containers[0]\<close>; the slice has just been set to one container.\<close>

definition onContainer0 :: "(container \<Rightarrow> container) \<Rightarrow> pod_template \<Rightarrow> pod_template" where
  "onContainer0 f t = t\<lparr>pt_Containers :=
     (case pt_Containers t of [] \<Rightarrow> [] | c # cs \<Rightarrow> f c # cs)\<rparr>"

definition appendEnv :: "env_var list \<Rightarrow> container \<Rightarrow> container" where
  "appendEnv es c = c\<lparr>ct_Env := ct_Env c @ es\<rparr>"

definition addMetrics :: "AutoMQ \<Rightarrow> pod_template \<Rightarrow> pod_template" where
  "addMetrics obj t =
     (if ms_Enable (spec_Metrics (mq_Spec obj)) then
        (let t = onContainer0 (appendEnv [valueEnv ''KAFKA_CFG_S3_TELEMETRY_METRICS_EXPORTER_URI''
                   ''prometheus://?host=0.0.0.0&port=9090'']) t
         in t\<lparr>pt_Annotations := (pt_Annotations t)
              (''prometheus.io/scrape'' \<mapsto> ''true'', ''prometheus.io/port'' \<mapsto> ''9090'',
               ''prometheus.io/path'' \<mapsto> ''/metrics'')\<rparr>)
      else t)"

definition addTimeZone :: "bool \<Rightarrow> pod_template \<Rightarrow> pod_template" where
  "addTimeZone mountTZ t =
     (if mountTZ then
        onContainer0 (\<lambda>c. c\<lparr>ct_VolumeMounts := ct_VolumeMounts c @
            [\<lparr>vm_Name = ''k8tz'', vm_MountPath = ''/etc/localtime'', vm_SubPath = '''',
              vm_ReadOnly = False\<rparr>]\<rparr>)
          (t\<lparr>pt_Volumes := pt_Volumes t @
            [\<lparr>vol_Name = ''k8tz'', vol_Source = HostPathVolume ''/etc/localtime''\<rparr>]\<rparr>)
      else t)"

definition setResources :: "resources \<Rightarrow> pod_template \<Rightarrow> pod_template" where
  "setResources res t =
     (let t = (if rs_Requests res \<noteq> None
               then onContainer0 (\<lambda>c. c\<lparr>ct_Resources :=
                      (ct_Resources c)\<lparr>rs_Requests := rs_Requests res\<rparr>\<rparr>) t else t)
      in if rs_Limits res \<noteq> None
         then onContainer0 (\<lambda>c. c\<lparr>ct_Resources :=
                (ct_Resources c)\<lparr>rs_Limits := rs_Limits res\<rparr>\<rparr>) t else t)"

definition addUserEnvs :: "env_var list option \<Rightarrow> pod_template \<Rightarrow> pod_template" where
  "addUserEnvs envs t =
     (if envs \<noteq> None \<and> length (slice envs) > 0 then onContainer0 (appendEnv (slice envs)) t
      else t)"

text \<open>The value \<open>ctx.Value(ctxKey("hash-configmap"))\<close>, or the empty string where it is not set.\<close>

definition ctx_hash :: "ctx \<Rightarrow> string" where
  "ctx_hash ctx = (case ctx ''hash-configmap'' of Some hash \<Rightarrow> hash | None \<Rightarrow> '''')"

section \<open>Status conditions\<close>

definition ConditionTrue :: string where "ConditionTrue = ''True''"
definition ConditionFalse :: string where "ConditionFalse = ''False''"

definition setCondition ::
  "'w kube \<Rightarrow> AutoMQ \<Rightarrow> string \<Rightarrow> string \<Rightarrow> string \<Rightarrow> string \<Rightarrow> AutoMQ" where
  "setCondition K obj conditionType status reason message =
     obj\<lparr>mq_Status := (mq_Status obj)\<lparr>st_Conditions :=
       k_SetStatusCondition K (st_Conditions (mq_Status obj))
         \<lparr>co_Type = conditionType, co_Status = status, co_ObservedGeneration = mq_Generation obj,
          co_Reason = reason, co_Message = message\<rparr>\<rparr>\<rparr>"

text \<open>\<open>fmt.Sprintf("... (%s): (%s)", obj.Name, err)\<close> and \<open>fmt.Sprintf("... (%s) ...", obj.Name)\<close>.\<close>

definition failure_message :: "string \<Rightarrow> AutoMQ \<Rightarrow> goerror \<Rightarrow> string" where
  "failure_message what obj err =
     what @ '' for the custom resource ('' @ mq_Name obj @ ''): ('' @ err_text err @ '')''"

definition success_message :: "string \<Rightarrow> AutoMQ \<Rightarrow> string \<Rightarrow> string" where
  "success_message what obj outcome =
     what @ '' for the custom resource ('' @ mq_Name obj @ '') '' @ outcome"

lemma setCondition_frame [simp]:
  "mq_meta (setCondition K obj t s r m) = mq_meta obj"
  "mq_Spec (setCondition K obj t s r m) = mq_Spec obj"
  "st_ControllerReplicas (mq_Status (setCondition K obj t s r m)) = st_ControllerReplicas (mq_Status obj)"
  "st_BrokerReplicas (mq_Status (setCondition K obj t s r m)) = st_BrokerReplicas (mq_Status obj)"
  "st_ControllerAddresses (mq_Status (setCondition K obj t s r m)) = st_ControllerAddresses (mq_Status obj)"
  "st_BootstrapInternalAddress (mq_Status (setCondition K obj t s r m)) = st_BootstrapInternalAddress (mq_Status obj)"
  "st_Phase (mq_Status (setCondition K obj t s r m)) = st_Phase (mq_Status obj)"
  "st_ReadyPods (mq_Status (setCondition K obj t s r m)) = st_ReadyPods (mq_Status obj)"
  by (simp_all add: setCondition_def)

section \<open>Deleting a named object\<close>

text \<open>\<open>_ = r.Client.Delete(ctx, x)\<close>: the error is dropped.\<close>

definition ignoring_delete :: "'w kube \<Rightarrow> object \<Rightarrow> 'w \<Rightarrow> 'w" where
  "ignoring_delete K x w = snd (k_Delete K x w)"

section \<open>A callback on one type of object\<close>

text \<open>The callback of \<open>CreateOrUpdate\<close> captures a pointer of one type.\<close>

definition on_pvc :: "(pvc \<Rightarrow> pvc) \<Rightarrow> object \<Rightarrow> object" where
  "on_pvc f x = (case x of ObjPVC p \<Rightarrow> ObjPVC (f p) | _ \<Rightarrow> x)"

definition on_deployment :: "(deployment \<Rightarrow> deployment) \<Rightarrow> object \<Rightarrow> object" where
  "on_deployment f x = (case x of ObjDeployment d \<Rightarrow> ObjDeployment (f d) | _ \<Rightarrow> x)"

definition on_service :: "(service \<Rightarrow> service) \<Rightarrow> object \<Rightarrow> object" where
  "on_service f x = (case x of ObjService s \<Rightarrow> ObjService (f s) | _ \<Rightarrow> x)"

lemma on_okey [simp]:
  "(\<And>p. okey (ObjPVC (f p)) = okey (ObjPVC p)) \<Longrightarrow> okey (on_pvc f x) = okey x"
  "(\<And>d. okey (ObjDeployment (g d)) = okey (ObjDeployment d)) \<Longrightarrow> okey (on_deployment g x) = okey x"
  "(\<And>s. okey (ObjService (h s)) = okey (ObjService s)) \<Longrightarrow> okey (on_service h x) = okey x"
  by (cases x; simp add: on_pvc_def on_deployment_def on_service_def)+

lemma on_simps [simp]:
  "on_pvc f (ObjPVC p) = ObjPVC (f p)"
  "on_deployment g (ObjDeployment d) = ObjDeployment (g d)"
  "on_service h (ObjService s) = ObjService (h s)"
  by (simp_all add: on_pvc_def on_deployment_def on_service_def)

section \<open>The parts of the finished template\<close>

lemma onContainer0_sel [simp]:
  "pt_Labels (onContainer0 f t) = pt_Labels t"
  "pt_Annotations (onContainer0 f t) = pt_Annotations t"
  "pt_HostNetwork (onContainer0 f t) = pt_HostNetwork t"
  "pt_TerminationGracePeriodSeconds (onContainer0 f t) = pt_TerminationGracePeriodSeconds t"
  "pt_InitContainers (onContainer0 f t) = pt_InitContainers t"
  "pt_Affinity (onContainer0 f t) = pt_Affinity t"
  "pt_Volumes (onContainer0 f t) = pt_Volumes t"
  "pt_Containers (onContainer0 f t) = (case pt_Containers t of [] \<Rightarrow> [] | c # cs \<Rightarrow> f c # cs)"
  by (simp_all add: onContainer0_def)

end
