(* ===== verification/ReplicaLoops.thy ===== *)
theory ReplicaLoops
  imports PodParts
begin

text \<open>
  The two loops over replicas that the controller and the broker code share, as interfaces:
  \<open>delete_loop\<close> for the loops that delete the resources of replica \<open>i\<close> (scale-down and cleanup,
  four instances) and \<open>sync_loop\<close> for the loops that create or update them (two instances).
  What a loop does to the cluster is proved once here.
\<close>

section \<open>Deleting a list of objects\<close>

definition delete_all :: "'w kube \<Rightarrow> object list \<Rightarrow> 'w \<Rightarrow> 'w" where
  "delete_all K xs w = fold (ignoring_delete K) xs w"

text \<open>Every deletion of an existing object succeeds.\<close>

definition deletes_succeed :: "'w kube \<Rightarrow> 'w view \<Rightarrow> bool" where
  "deletes_succeed K view \<longleftrightarrow> (\<forall>x w. view w (okey x) \<noteq> None \<longrightarrow> fst (k_Delete K x w) = None)"

lemma delete_all_simps [simp]:
  "delete_all K [] w = w"
  "delete_all K (x # xs) w = delete_all K xs (ignoring_delete K x w)"
  by (simp_all add: delete_all_def)

lemma delete_all_other:
  "delete_law K view \<Longrightarrow> k \<notin> okey ` set xs \<Longrightarrow> view (delete_all K xs w) k = view w k"
  by (induction xs arbitrary: w) (auto simp: ignoring_delete_def delete_other)

lemma delete_all_none:
  "delete_law K view \<Longrightarrow> view w k = None \<Longrightarrow> view (delete_all K xs w) k = None"
  by (induction xs arbitrary: w) (auto simp: ignoring_delete_def delete_none)

lemma ignoring_delete_removes:
  assumes "delete_law K view" "deletes_succeed K view"
  shows "view (ignoring_delete K x w) (okey x) = None"
  using delete_at [OF assms(1), of x w] assms(2)
  unfolding ignoring_delete_def deletes_succeed_def by metis

lemma delete_all_removes:
  "delete_law K view \<Longrightarrow> deletes_succeed K view \<Longrightarrow> x \<in> set xs \<Longrightarrow>
    view (delete_all K xs w) (okey x) = None"
proof (induction xs arbitrary: w)
  case (Cons y xs)
  show ?case
  proof (cases "x = y")
    case True
    with Cons.prems show ?thesis
      by (simp add: delete_all_none ignoring_delete_removes)
  next
    case False
    with Cons show ?thesis by simp
  qed
qed simp

locale delete_loop =
  fixes del :: "'w kube \<Rightarrow> string \<Rightarrow> int32 \<Rightarrow> 'w \<Rightarrow> 'w"
    and objs :: "string \<Rightarrow> int32 \<Rightarrow> object list"
  assumes del_all: "del K ns i w = delete_all K (objs ns i) w"
begin

lemma loop_other:
  assumes "delete_law K view"
    and "\<And>i. lo \<le> i \<Longrightarrow> i < hi \<Longrightarrow> k \<notin> okey ` set (objs ns (word_of_int i))"
  shows "view (for_int lo hi (\<lambda>i. del K ns (word_of_int i)) w) k = view w k"
  by (rule for_int_frame [where g = "\<lambda>w. view w k"]) (simp add: del_all delete_all_other assms)

lemma loop_none:
  assumes "delete_law K view" and "view w k = None"
  shows "view (for_int lo hi (\<lambda>i. del K ns (word_of_int i)) w) k = None"
proof (cases "lo \<le> hi")
  case True
  then show ?thesis
    by (rule for_int_rule [where I = "\<lambda>_ w. view w k = None"])
      (simp_all add: del_all delete_all_none assms)
qed (simp add: assms)

lemma loop_removes:
  assumes "delete_law K view" "deletes_succeed K view"
    and "lo \<le> j" "j < hi" "x \<in> set (objs ns (word_of_int j))"
  shows "view (for_int lo hi (\<lambda>i. del K ns (word_of_int i)) w) (okey x) = None"
proof -
  have "j < hi \<longrightarrow> view (for_int lo hi (\<lambda>i. del K ns (word_of_int i)) w) (okey x) = None"
  proof (rule for_int_rule [where I = "\<lambda>i w. j < i \<longrightarrow> view w (okey x) = None"])
    show "lo \<le> hi" using assms(3,4) by simp
    show "j < lo \<longrightarrow> view w (okey x) = None" using assms(3) by simp
  next
    fix i w
    assume IH: "j < i \<longrightarrow> view w (okey x) = None"
    show "j < i + 1 \<longrightarrow> view (del K ns (word_of_int i) w) (okey x) = None"
    proof (cases "i = j")
      case True
      then show ?thesis by (simp add: del_all delete_all_removes assms)
    next
      case False
      then have "j < i + 1 \<longrightarrow> view w (okey x) = None" using IH by simp
      then show ?thesis using delete_all_none [OF assms(1)] unfolding del_all by blast
    qed
  qed
  with assms(4) show ?thesis by simp
qed

end

section \<open>Creating or updating the resources of every replica\<close>

text \<open>
  A body handles replica \<open>i\<close>: it reaches the end (\<open>Val None\<close>), or gives up with a reason and a
  message (\<open>Val (Some _)\<close>), or panics. \<open>keys\<close> are the resources of one replica and \<open>good\<close> says
  what a stored resource must look like.
\<close>

locale sync_loop =
  fixes body :: "'w reconciler \<Rightarrow> ctx \<Rightarrow> AutoMQ \<Rightarrow> int32 \<Rightarrow> 'w \<Rightarrow> (string \<times> string) option go \<times> 'w"
    and keys :: "string \<Rightarrow> int32 \<Rightarrow> okey set"
    and good :: "'w reconciler \<Rightarrow> ctx \<Rightarrow> AutoMQ \<Rightarrow> int32 \<Rightarrow> object \<Rightarrow> bool"
  assumes body_frame: "kube_laws (r_Client r) view \<Longrightarrow> k \<notin> keys (mq_Namespace obj) i \<Longrightarrow>
      view (snd (body r ctx obj i w)) k = view w k"
    and body_good: "kube_laws (r_Client r) view \<Longrightarrow> body r ctx obj i w = (Val None, w') \<Longrightarrow>
      k \<in> keys (mq_Namespace obj) i \<Longrightarrow> \<exists>x. view w' k = Some x \<and> good r ctx obj i x"
    and body_returns: "kube_laws (r_Client r) view \<Longrightarrow> returns (body r ctx obj i w)"
    and keys_disjoint: "i \<noteq> j \<Longrightarrow> keys ns i \<inter> keys ns j = {}"
begin

lemma loop_frame:
  assumes "kube_laws (r_Client r) view"
    and "\<And>i. 0 \<le> i \<Longrightarrow> i < n \<Longrightarrow> k \<notin> keys (mq_Namespace obj) (word_of_int i)"
  shows "view (snd (for_ret 0 n (\<lambda>i. body r ctx obj (word_of_int i)) w)) k = view w k"
  by (rule for_ret_inv [where I = "\<lambda>u. view u k = view w k"])
    (simp_all add: body_frame [OF assms(1)] assms(2))

lemma loop_returns:
  assumes "kube_laws (r_Client r) view"
  shows "returns (for_ret 0 n (\<lambda>i. body r ctx obj (word_of_int i)) w)"
  by (rule for_ret_returns [where I = "\<lambda>_. True"]) (simp_all add: body_returns [OF assms])

lemma loop_good:
  assumes laws: "kube_laws (r_Client r) view" and n: "0 \<le> n" "n < 2 ^ 31"
    and res: "for_ret 0 n (\<lambda>i. body r ctx obj (word_of_int i)) w = (Val None, w')"
    and j: "0 \<le> j" "j < n" and k: "k \<in> keys (mq_Namespace obj) (word_of_int j)"
  shows "\<exists>x. view w' k = Some x \<and> good r ctx obj (word_of_int j) x"
proof -
  let ?I = "\<lambda>i w. i \<le> n \<and> (j < i \<longrightarrow> (\<exists>x. view w k = Some x \<and> good r ctx obj (word_of_int j) x))"
  have "?I n w'"
  proof (rule for_ret_rule [where I = ?I, OF n(1) _ _ res])
    show "?I 0 w" using j n by simp
  next
    fix i s s'
    assume i: "0 \<le> i" "i < n" and I: "?I i s"
      and b: "body r ctx obj (word_of_int i) s = (Val None, s')"
    show "?I (i + 1) s'"
    proof (cases "i = j")
      case True
      with body_good [OF laws b] k i show ?thesis by simp
    next
      case False
      then have "(word_of_int i :: int32) \<noteq> word_of_int j"
        using i j n by (subst int32_index_inject) auto
      with k have "k \<notin> keys (mq_Namespace obj) (word_of_int i)"
        using keys_disjoint by blast
      with body_frame [OF laws, of k obj "word_of_int i" ctx s] b have "view s' k = view s k"
        by simp
      with I i False show ?thesis by auto
    qed
  qed
  with j show ?thesis by simp
qed

end

end
