(* ===== verification/ControllerRole.thy ===== *)
theory ControllerRole
  imports ReplicaLoops
begin

text \<open>
  The controller nodes (\<open>internal/controller/automq_controller_c.go\<close>): cleanup, scale-down, and
  the loop that brings the claim, the deployment and the service of every replica to the
  desired state. The loops instantiate the interfaces of \<^theory_text>\<open>ReplicaLoops\<close>.
\<close>

abbreviation controllerSpec :: "AutoMQ \<Rightarrow> ControllerSpec" where
  "controllerSpec obj \<equiv> spec_Controller (mq_Spec obj)"

section \<open>Cleanup and scale-down\<close>

definition cleanController_body :: "'w kube \<Rightarrow> string \<Rightarrow> int32 \<Rightarrow> 'w \<Rightarrow> 'w" where
  "cleanController_body K ns index w =
     (let w = ignoring_delete K (ObjService (new_service ns (getAutoMQName controllerRole (Some index)))) w;
          w = ignoring_delete K (ObjDeployment (new_deployment ns (getAutoMQName controllerRole (Some index)))) w
      in ignoring_delete K (ObjPVC (new_pvc ns (getAutoMQName controllerRole (Some index)))) w)"

definition cleanController :: "'w kube \<Rightarrow> AutoMQ \<Rightarrow> 'w \<Rightarrow> goerror option \<times> 'w" where
  "cleanController K obj w =
     (None, for_int 0 (sint (st_ControllerReplicas (mq_Status obj)))
        (\<lambda>i. cleanController_body K (mq_Namespace obj) (word_of_int i)) w)"

definition syncControllersScale_body :: "'w kube \<Rightarrow> string \<Rightarrow> int32 \<Rightarrow> 'w \<Rightarrow> 'w" where
  "syncControllersScale_body K ns i w =
     (let w = ignoring_delete K (ObjDeployment (new_deployment ns (getAutoMQName controllerRole (Some i)))) w;
          w = ignoring_delete K (ObjService (new_service ns (getAutoMQName controllerRole (Some i)))) w
      in ignoring_delete K (ObjPVC (new_pvc ns (getAutoMQName controllerRole (Some i)))) w)"

definition syncControllersScale ::
  "'w reconciler \<Rightarrow> ctx \<Rightarrow> AutoMQ \<Rightarrow> 'w \<Rightarrow> (bool \<times> AutoMQ) go \<times> 'w" where
  "syncControllersScale r ctx obj w =
     (let K = r_Client r;
          currentReplicas = st_ControllerReplicas (mq_Status obj);
          w = (if sint currentReplicas > sint (cs_Replicas (controllerSpec obj))
               then for_int32 (cs_Replicas (controllerSpec obj)) currentReplicas
                      (syncControllersScale_body K (mq_Namespace obj)) w
               else w);
          obj = setCondition K obj ''SyncControllerScale'' ConditionTrue
                  ''ControllerScaleReconciling''
                  (success_message ''Controller scale'' obj ''has been reconciled'')
      in (Val (True, obj), w))"

section \<open>The three resources of a replica\<close>

definition controllerIndexLabels :: "AutoMQ \<Rightarrow> int32 \<Rightarrow> labels" where
  "controllerIndexLabels obj index =
     (getAutoMQLabelMap (mq_Name obj) controllerRole)(autoMQIndexKey \<mapsto> itoa (sint index))"

text \<open>The claim.\<close>

definition controllerPVC_mutate :: "AutoMQ \<Rightarrow> int32 \<Rightarrow> pvc \<Rightarrow> pvc" where
  "controllerPVC_mutate obj index p =
     (let p = p\<lparr>pvc_meta := (pvc_meta p)\<lparr>om_Labels := controllerIndexLabels obj index\<rparr>,
                pvc_AccessModes := [''ReadWriteOnce''],
                pvc_Resources := \<lparr>rs_Requests = Some [''storage'' \<mapsto> Quantity ''100Gi''],
                                  rs_Limits = None\<rparr>\<rparr>
      in if cs_StorageClass (controllerSpec obj) \<noteq> ''''
         then p\<lparr>pvc_StorageClassName := Some (cs_StorageClass (controllerSpec obj))\<rparr> else p)"

definition syncControllerPVC ::
  "'w reconciler \<Rightarrow> AutoMQ \<Rightarrow> int32 \<Rightarrow> 'w \<Rightarrow> goerror option \<times> 'w" where
  "syncControllerPVC r obj index w =
     (let pvc = new_pvc (mq_Namespace obj) (getAutoMQName controllerRole (Some index));
          (err, pvc, w) = retry_create_or_update (r_Client r)
            (on_pvc (controllerPVC_mutate obj index)) (ObjPVC pvc) w
      in (err, w))"

text \<open>The deployment: environment, command line, and the mutation of an existing object.\<close>

definition controllerEnvs :: "AutoMQ \<Rightarrow> env_var list" where
  "controllerEnvs obj = [
     fieldEnv ''NAMESPACE_NAME'' ''metadata.namespace'',
     fieldEnv ''POD_NAME'' ''metadata.name'',
     fieldEnv ''POD_IP'' ''status.podIP'',
     valueEnv ''KAFKA_S3_ACCESS_KEY'' (s3_AccessKeyID (spec_S3 (mq_Spec obj))),
     valueEnv ''KAFKA_S3_SECRET_KEY'' (s3_SecretAccessKey (spec_S3 (mq_Spec obj))),
     valueEnv ''KAFKA_HEAP_OPTS'' (join '' '' (slice (cs_JVMOptions (controllerSpec obj))))]"

definition controllerCmds :: "AutoMQ \<Rightarrow> int32 \<Rightarrow> string list" where
  "controllerCmds obj index = [
     ''/opt/kafka/scripts/mq-start.sh'',
     ''up'',
     ''--process.roles'',
     ''controller'',
     ''--node.id'',
     itoa (sint index),
     ''--cluster.id'',
     spec_ClusterID (mq_Spec obj),
     ''--controller.quorum.voters'',
     join '','' (controllerVoters obj),
     ''--s3.bucket'',
     s3_Bucket (spec_S3 (mq_Spec obj)),
     ''--s3.endpoint'',
     s3_Endpoint (spec_S3 (mq_Spec obj)),
     ''--s3.region'',
     s3_Region (spec_S3 (mq_Spec obj)),
     ''--s3.path.style'',
     fmt_bool (s3_EnablePathStyle (spec_S3 (mq_Spec obj)))]"

definition controllerTemplate ::
  "'w reconciler \<Rightarrow> ctx \<Rightarrow> AutoMQ \<Rightarrow> int32 \<Rightarrow> string \<Rightarrow> pod_template \<Rightarrow> pod_template" where
  "controllerTemplate r ctx obj index deployName t =
     (let t = t\<lparr>pt_Labels := controllerIndexLabels obj index,
                pt_HostNetwork := False,
                pt_TerminationGracePeriodSeconds := Some (60 * 2),
                pt_InitContainers := [sysctlContainer],
                pt_Affinity := ToK8sAffinity (cs_Affinity (controllerSpec obj)),
                pt_Volumes := kafkaVolumes (mq_Name obj) deployName,
                pt_Containers := [kafkaContainer controllerRole 9093 deployName
                   (controllerEnvs obj) (controllerCmds obj index)]\<rparr>;
          t = t\<lparr>pt_Annotations := [''configmap/script-hash'' \<mapsto> ctx_hash ctx]\<rparr>;
          t = addMetrics obj t;
          t = addTimeZone (r_MountTZ r) t;
          t = setResources (cs_Resource (controllerSpec obj)) t
      in addUserEnvs (cs_Envs (controllerSpec obj)) t)"

definition controllerDeploy_mutate ::
  "'w reconciler \<Rightarrow> ctx \<Rightarrow> AutoMQ \<Rightarrow> int32 \<Rightarrow> deployment \<Rightarrow> deployment" where
  "controllerDeploy_mutate r ctx obj index d =
     d\<lparr>dep_meta := (dep_meta d)\<lparr>om_Labels := getAutoMQLabelMap (mq_Name obj) controllerRole\<rparr>,
       dep_Strategy := ''RollingUpdate'',
       dep_Template := controllerTemplate r ctx obj index (om_Name (dep_meta d)) (dep_Template d)\<rparr>"

definition syncControllerDeploy ::
  "'w reconciler \<Rightarrow> ctx \<Rightarrow> AutoMQ \<Rightarrow> int32 \<Rightarrow> 'w \<Rightarrow> goerror option \<times> 'w" where
  "syncControllerDeploy r ctx obj index w =
     (let deploy = (new_deployment (mq_Namespace obj) (getAutoMQName controllerRole (Some index)))
            \<lparr>dep_Selector := Some (controllerIndexLabels obj index)\<rparr>;
          (err, deploy, w) = retry_create_or_update (r_Client r)
            (on_deployment (controllerDeploy_mutate r ctx obj index)) (ObjDeployment deploy) w
      in (err, w))"

text \<open>The service. The selector is set before the call, so it only reaches a new object.\<close>

definition controllerService_mutate :: "AutoMQ \<Rightarrow> int32 \<Rightarrow> service \<Rightarrow> service" where
  "controllerService_mutate obj index s =
     s\<lparr>svc_meta := (svc_meta s)\<lparr>om_Labels := controllerIndexLabels obj index\<rparr>,
       svc_Ports := [\<lparr>sp_Name = controllerRole, sp_Port = 9093,
         sp_TargetPort = FromString controllerRole, sp_Protocol = ''TCP'', sp_NodePort = 0\<rparr>],
       svc_Type := ''ClusterIP''\<rparr>"

definition syncControllerService ::
  "'w reconciler \<Rightarrow> AutoMQ \<Rightarrow> int32 \<Rightarrow> 'w \<Rightarrow> goerror option \<times> 'w" where
  "syncControllerService r obj index w =
     (let svc = (new_service (mq_Namespace obj) (getAutoMQName controllerRole (Some index)))
            \<lparr>svc_Selector := controllerIndexLabels obj index\<rparr>;
          (err, svc, w) = retry_create_or_update (r_Client r)
            (on_service (controllerService_mutate obj index)) (ObjService svc) w
      in (err, w))"

section \<open>The loop\<close>

definition syncControllers_body ::
  "'w reconciler \<Rightarrow> ctx \<Rightarrow> AutoMQ \<Rightarrow> int32 \<Rightarrow> 'w \<Rightarrow> (string \<times> string) option go \<times> 'w" where
  "syncControllers_body r ctx obj i w =
     (case syncControllerPVC r obj i w of
        (Some err, w) \<Rightarrow> (Val (Some (''ControllerPVCReconciling'',
           failure_message ''Failed to create pvc'' obj err)), w)
      | (None, w) \<Rightarrow>
     (case syncControllerDeploy r ctx obj i w of
        (Some err, w) \<Rightarrow> (Val (Some (''ControllerSTSReconciling'',
           failure_message ''Failed to create deploy'' obj err)), w)
      | (None, w) \<Rightarrow>
     (case syncControllerService r obj i w of
        (Some err, w) \<Rightarrow> (Val (Some (''ControllerServiceReconciling'',
           failure_message ''Failed to create service'' obj err)), w)
      | (None, w) \<Rightarrow> (Val None, w))))"

definition syncControllers ::
  "'w reconciler \<Rightarrow> ctx \<Rightarrow> AutoMQ \<Rightarrow> 'w \<Rightarrow> (bool \<times> AutoMQ) go \<times> 'w" where
  "syncControllers r ctx obj w =
     go_bind (for_ret 0 (sint (cs_Replicas (controllerSpec obj)))
                (\<lambda>i. syncControllers_body r ctx obj (word_of_int i)) w)
       (\<lambda>res w. case res of
          Some (reason, message) \<Rightarrow>
            (Val (True, setCondition (r_Client r) obj ''SyncControllerReady'' ConditionFalse
               reason message), w)
        | None \<Rightarrow>
            (Val (True, setCondition (r_Client r) obj ''SyncControllerReady'' ConditionTrue
               ''ControllerReconciling'' (success_message ''Controller resource'' obj
                  ''has been created or update'')), w))"

section \<open>What the operations do to the cluster\<close>

abbreviation controllerName :: "int32 \<Rightarrow> string" where
  "controllerName i \<equiv> getAutoMQName controllerRole (Some i)"

definition controllerKeys :: "string \<Rightarrow> int32 \<Rightarrow> okey set" where
  "controllerKeys ns i = {(KPVC, ns, controllerName i), (KDeployment, ns, controllerName i),
     (KService, ns, controllerName i)}"

text \<open>The desired state of the three resources of replica \<open>i\<close>.\<close>

definition controllerGood :: "'w reconciler \<Rightarrow> ctx \<Rightarrow> AutoMQ \<Rightarrow> int32 \<Rightarrow> object \<Rightarrow> bool" where
  "controllerGood r ctx obj i x \<longleftrightarrow> (case x of
     ObjPVC p \<Rightarrow> om_Labels (pvc_meta p) = controllerIndexLabels obj i
       \<and> pvc_AccessModes p = [''ReadWriteOnce'']
       \<and> rs_Requests (pvc_Resources p) = Some [''storage'' \<mapsto> Quantity ''100Gi'']
       \<and> (cs_StorageClass (controllerSpec obj) \<noteq> '''' \<longrightarrow>
            pvc_StorageClassName p = Some (cs_StorageClass (controllerSpec obj)))
   | ObjDeployment d \<Rightarrow> om_Labels (dep_meta d) = getAutoMQLabelMap (mq_Name obj) controllerRole
       \<and> dep_Strategy d = ''RollingUpdate''
       \<and> dep_Template d = controllerTemplate r ctx obj i (controllerName i) empty_template
   | ObjService s \<Rightarrow> om_Labels (svc_meta s) = controllerIndexLabels obj i
       \<and> svc_Type s = ''ClusterIP''
       \<and> (\<exists>p. svc_Ports s = [p] \<and> sp_Name p = controllerRole \<and> sp_Port p = 9093
            \<and> sp_TargetPort p = FromString controllerRole)
   | _ \<Rightarrow> False)"

text \<open>Every field of the template the model has is assigned, so the template an object had before
  does not matter: drift is overwritten.\<close>

lemma controllerTemplate_any:
  "controllerTemplate r ctx obj i n t = controllerTemplate r ctx obj i n t'"
  by (cases t; cases t') (simp add: controllerTemplate_def Let_def)

lemma controller_mutate_okey [simp]:
  "okey (on_pvc (controllerPVC_mutate obj i) x) = okey x"
  "okey (on_deployment (controllerDeploy_mutate r ctx obj i) x) = okey x"
  "okey (on_service (controllerService_mutate obj i) x) = okey x"
  by (auto simp: controllerPVC_mutate_def controllerDeploy_mutate_def controllerService_mutate_def
      Let_def)

lemma new_key_simps [simp]:
  "om_Namespace (pvc_meta (new_pvc ns n)) = ns" "om_Name (pvc_meta (new_pvc ns n)) = n"
  "om_Namespace (dep_meta (new_deployment ns n)) = ns" "om_Name (dep_meta (new_deployment ns n)) = n"
  "om_Namespace (svc_meta (new_service ns n)) = ns" "om_Name (svc_meta (new_service ns n)) = n"
  by (simp_all add: new_pvc_def new_deployment_def new_service_def empty_meta_def)

lemma syncControllerPVC_frame:
  "kube_laws (r_Client r) view \<Longrightarrow> k \<noteq> (KPVC, mq_Namespace obj, controllerName i) \<Longrightarrow>
    view (snd (syncControllerPVC r obj i w)) k = view w k"
  by (simp add: syncControllerPVC_def Let_def case_prod_beta retry_cou_frame)

lemma syncControllerDeploy_frame:
  "kube_laws (r_Client r) view \<Longrightarrow> k \<noteq> (KDeployment, mq_Namespace obj, controllerName i) \<Longrightarrow>
    view (snd (syncControllerDeploy r ctx obj i w)) k = view w k"
  by (simp add: syncControllerDeploy_def Let_def case_prod_beta retry_cou_frame)

lemma syncControllerService_frame:
  "kube_laws (r_Client r) view \<Longrightarrow> k \<noteq> (KService, mq_Namespace obj, controllerName i) \<Longrightarrow>
    view (snd (syncControllerService r obj i w)) k = view w k"
  by (simp add: syncControllerService_def Let_def case_prod_beta retry_cou_frame)

text \<open>What the server makes of a mutated object is as desired, whatever it was before.\<close>

lemma controllerPVC_made:
  assumes "okey b = (KPVC, ns, n)" and "admitted (on_pvc (controllerPVC_mutate obj i) b) y"
  shows "controllerGood r ctx obj i y"
proof -
  from assms(1) obtain p where "b = ObjPVC p" using okey_kindE(3) [of b] by auto
  with assms(2) show ?thesis
    by (cases y) (auto simp: controllerGood_def controllerPVC_mutate_def Let_def meta_admitted_def
        split: if_splits)
qed

lemma controllerDeploy_made:
  assumes "okey b = (KDeployment, ns, controllerName i)"
    and "admitted (on_deployment (controllerDeploy_mutate r ctx obj i) b) y"
  shows "controllerGood r ctx obj i y"
proof -
  from assms(1) obtain d where "b = ObjDeployment d" using okey_kindE(2) [of b] by auto
  with assms show ?thesis
    by (cases y) (auto simp: controllerGood_def controllerDeploy_mutate_def meta_admitted_def
        intro: controllerTemplate_any)
qed

lemma controllerService_made:
  assumes "okey b = (KService, ns, n)" and "admitted (on_service (controllerService_mutate obj i) b) y"
  shows "controllerGood r ctx obj i y"
proof -
  from assms(1) obtain s where "b = ObjService s" using okey_kindE(1) [of b] by auto
  with assms(2) show ?thesis
    by (cases y) (auto simp: controllerGood_def controllerService_mutate_def meta_admitted_def
        list_all2_Cons1 port_admitted_def)
qed

lemma syncControllerPVC_good:
  assumes laws: "kube_laws (r_Client r) view" and res: "syncControllerPVC r obj i w = (None, w')"
  shows "\<exists>x. view w' (KPVC, mq_Namespace obj, controllerName i) = Some x
    \<and> controllerGood r ctx obj i x"
proof -
  from res obtain y where call: "retry_create_or_update (r_Client r)
      (on_pvc (controllerPVC_mutate obj i))
      (ObjPVC (new_pvc (mq_Namespace obj) (controllerName i))) w = (None, y, w')"
    by (auto simp: syncControllerPVC_def Let_def split: prod.splits)
  from retry_cou_stored [OF laws call] obtain b where
    y: "view w' (KPVC, mq_Namespace obj, controllerName i) = Some y"
    and b: "okey b = (KPVC, mq_Namespace obj, controllerName i)"
      "admitted (on_pvc (controllerPVC_mutate obj i) b) y" by auto
  with y controllerPVC_made [OF b] show ?thesis by blast
qed

lemma syncControllerDeploy_good:
  assumes laws: "kube_laws (r_Client r) view" and res: "syncControllerDeploy r ctx obj i w = (None, w')"
  shows "\<exists>x. view w' (KDeployment, mq_Namespace obj, controllerName i) = Some x
    \<and> controllerGood r ctx obj i x"
proof -
  from res obtain y where call: "retry_create_or_update (r_Client r)
      (on_deployment (controllerDeploy_mutate r ctx obj i))
      (ObjDeployment ((new_deployment (mq_Namespace obj) (controllerName i))
         \<lparr>dep_Selector := Some (controllerIndexLabels obj i)\<rparr>)) w = (None, y, w')"
    by (auto simp: syncControllerDeploy_def Let_def split: prod.splits)
  from retry_cou_stored [OF laws call] obtain b where
    y: "view w' (KDeployment, mq_Namespace obj, controllerName i) = Some y"
    and b: "okey b = (KDeployment, mq_Namespace obj, controllerName i)"
      "admitted (on_deployment (controllerDeploy_mutate r ctx obj i) b) y" by auto
  with y controllerDeploy_made [OF b] show ?thesis by blast
qed

lemma syncControllerService_good:
  assumes laws: "kube_laws (r_Client r) view" and res: "syncControllerService r obj i w = (None, w')"
  shows "\<exists>x. view w' (KService, mq_Namespace obj, controllerName i) = Some x
    \<and> controllerGood r ctx obj i x"
proof -
  from res obtain y where call: "retry_create_or_update (r_Client r)
      (on_service (controllerService_mutate obj i))
      (ObjService ((new_service (mq_Namespace obj) (controllerName i))
         \<lparr>svc_Selector := controllerIndexLabels obj i\<rparr>)) w = (None, y, w')"
    by (auto simp: syncControllerService_def Let_def split: prod.splits)
  from retry_cou_stored [OF laws call] obtain b where
    y: "view w' (KService, mq_Namespace obj, controllerName i) = Some y"
    and b: "okey b = (KService, mq_Namespace obj, controllerName i)"
      "admitted (on_service (controllerService_mutate obj i) b) y" by auto
  with y controllerService_made [OF b] show ?thesis by blast
qed

section \<open>The loops as instances of the shared interfaces\<close>

lemma syncControllers_body_frame:
  assumes laws: "kube_laws (r_Client r) view" and k: "k \<notin> controllerKeys (mq_Namespace obj) i"
  shows "view (snd (syncControllers_body r ctx obj i w)) k = view w k"
proof -
  obtain e1 w1 where 1: "syncControllerPVC r obj i w = (e1, w1)" by fastforce
  obtain e2 w2 where 2: "syncControllerDeploy r ctx obj i w1 = (e2, w2)" by fastforce
  obtain e3 w3 where 3: "syncControllerService r obj i w2 = (e3, w3)" by fastforce
  have "view w1 k = view w k" "view w2 k = view w1 k" "view w3 k = view w2 k"
    using syncControllerPVC_frame [OF laws, of k obj i w]
      syncControllerDeploy_frame [OF laws, of k obj i ctx w1]
      syncControllerService_frame [OF laws, of k obj i w2] k
    by (auto simp: controllerKeys_def 1 2 3)
  then show ?thesis
    by (simp add: syncControllers_body_def 1 2 3 split: option.splits)
qed

lemma syncControllers_body_good:
  assumes laws: "kube_laws (r_Client r) view"
    and res: "syncControllers_body r ctx obj i w = (Val None, w')"
    and k: "k \<in> controllerKeys (mq_Namespace obj) i"
  shows "\<exists>x. view w' k = Some x \<and> controllerGood r ctx obj i x"
proof -
  from res obtain w1 w2 where 1: "syncControllerPVC r obj i w = (None, w1)"
    and 2: "syncControllerDeploy r ctx obj i w1 = (None, w2)"
    and 3: "syncControllerService r obj i w2 = (None, w')"
    by (auto simp: syncControllers_body_def split: prod.splits option.splits)
  note good = syncControllerPVC_good [OF laws 1, of ctx] syncControllerDeploy_good [OF laws 2]
    syncControllerService_good [OF laws 3, of ctx]
  have "view w' k = view w2 k" if "fst k \<noteq> KService"
    using syncControllerService_frame [OF laws, of k obj i w2] that by (cases k) (auto simp: 3)
  moreover have "view w2 k = view w1 k" if "fst k \<noteq> KDeployment"
    using syncControllerDeploy_frame [OF laws, of k obj i ctx w1] that by (cases k) (auto simp: 2)
  ultimately show ?thesis using k good by (auto simp: controllerKeys_def)
qed

lemma syncControllers_body_returns: "returns (syncControllers_body r ctx obj i w)"
  by (auto simp: syncControllers_body_def split: prod.splits option.splits)

lemma controllerKeys_disjoint: "i \<noteq> j \<Longrightarrow> controllerKeys ns i \<inter> controllerKeys ns j = {}"
  by (auto simp: controllerKeys_def)

interpretation controller_sync: sync_loop syncControllers_body controllerKeys controllerGood
  by unfold_locales
    (auto intro: syncControllers_body_frame syncControllers_body_returns
       dest: syncControllers_body_good simp: controllerKeys_disjoint)

definition controllerObjects :: "string \<Rightarrow> int32 \<Rightarrow> object list" where
  "controllerObjects ns i = [ObjDeployment (new_deployment ns (controllerName i)),
     ObjService (new_service ns (controllerName i)), ObjPVC (new_pvc ns (controllerName i))]"

definition controllerCleanObjects :: "string \<Rightarrow> int32 \<Rightarrow> object list" where
  "controllerCleanObjects ns i = [ObjService (new_service ns (controllerName i)),
     ObjDeployment (new_deployment ns (controllerName i)), ObjPVC (new_pvc ns (controllerName i))]"

lemma controllerObjects_keys:
  "okey ` set (controllerObjects ns i) = controllerKeys ns i"
  "okey ` set (controllerCleanObjects ns i) = controllerKeys ns i"
  by (auto simp: controllerObjects_def controllerCleanObjects_def controllerKeys_def)

interpretation controller_scale: delete_loop syncControllersScale_body controllerObjects
  by unfold_locales (simp add: syncControllersScale_body_def controllerObjects_def Let_def)

interpretation controller_clean: delete_loop cleanController_body controllerCleanObjects
  by unfold_locales (simp add: cleanController_body_def controllerCleanObjects_def Let_def)

end
