(* ===== verification/BrokerRole.thy ===== *)
theory BrokerRole
  imports ControllerRole
begin

text \<open>
  The broker nodes and the bootstrap service (\<open>internal/controller/automq_controller_b.go\<close>):
  cleanup, scale-down, the loop over the replicas (claim, service, deployment in this order: the
  deployment reads the node port of the service) and the service clients bootstrap from.
\<close>

abbreviation brokerSpec :: "AutoMQ \<Rightarrow> BrokerSpec" where
  "brokerSpec obj \<equiv> spec_Broker (mq_Spec obj)"

abbreviation brokerName :: "int32 \<Rightarrow> string" where
  "brokerName i \<equiv> getAutoMQName brokerRole (Some i)"

definition bootstrapName :: string where
  "bootstrapName = getAutoMQName (brokerRole @ ''-bootstrap'') None"

section \<open>Cleanup and scale-down\<close>

definition cleanBroker_body :: "'w kube \<Rightarrow> string \<Rightarrow> int32 \<Rightarrow> 'w \<Rightarrow> 'w" where
  "cleanBroker_body K ns index w =
     (let w = ignoring_delete K (ObjService (new_service ns (getAutoMQName brokerRole (Some index)))) w;
          w = ignoring_delete K (ObjDeployment (new_deployment ns (getAutoMQName brokerRole (Some index)))) w
      in ignoring_delete K (ObjPVC (new_pvc ns (getAutoMQName brokerRole (Some index)))) w)"

definition cleanBroker :: "'w kube \<Rightarrow> AutoMQ \<Rightarrow> 'w \<Rightarrow> goerror option \<times> 'w" where
  "cleanBroker K obj w =
     (let w = for_int 0 (sint (st_BrokerReplicas (mq_Status obj)))
                (\<lambda>i. cleanBroker_body K (mq_Namespace obj) (word_of_int i)) w;
          bsvc = new_service (mq_Namespace obj) (getAutoMQName (brokerRole @ ''-bootstrap'') None);
          w = ignoring_delete K (ObjService bsvc) w
      in (None, w))"

text \<open>The variable is called \<open>deploy\<close> in the source, but its type is \<open>StatefulSet\<close>.\<close>

definition syncBrokerScale_body :: "'w kube \<Rightarrow> string \<Rightarrow> int32 \<Rightarrow> 'w \<Rightarrow> 'w" where
  "syncBrokerScale_body K ns i w =
     (let w = ignoring_delete K (ObjStatefulSet (empty_meta ns (getAutoMQName brokerRole (Some i)))) w;
          w = ignoring_delete K (ObjService (new_service ns (getAutoMQName brokerRole (Some i)))) w
      in ignoring_delete K (ObjPVC (new_pvc ns (getAutoMQName brokerRole (Some i)))) w)"

definition syncBrokerScale ::
  "'w reconciler \<Rightarrow> ctx \<Rightarrow> AutoMQ \<Rightarrow> 'w \<Rightarrow> (bool \<times> AutoMQ) go \<times> 'w" where
  "syncBrokerScale r ctx obj w =
     (let K = r_Client r;
          currentReplicas = st_BrokerReplicas (mq_Status obj);
          w = (if sint currentReplicas > sint (bs_Replicas (brokerSpec obj))
               then for_int32 (bs_Replicas (brokerSpec obj)) currentReplicas
                      (syncBrokerScale_body K (mq_Namespace obj)) w
               else w);
          obj = setCondition K obj ''SyncBrokerScale'' ConditionTrue ''BrokerScaleReconciling''
                  (success_message ''Broker scale'' obj ''has been reconciled'')
      in (Val (True, obj), w))"

section \<open>The three resources of a replica\<close>

definition brokerIndexLabels :: "AutoMQ \<Rightarrow> int32 \<Rightarrow> labels" where
  "brokerIndexLabels obj index =
     (getAutoMQLabelMap (mq_Name obj) brokerRole)(autoMQIndexKey \<mapsto> itoa (sint index))"

definition brokerPVC_mutate :: "AutoMQ \<Rightarrow> int32 \<Rightarrow> pvc \<Rightarrow> pvc" where
  "brokerPVC_mutate obj index p =
     (let p = p\<lparr>pvc_meta := (pvc_meta p)\<lparr>om_Labels := brokerIndexLabels obj index\<rparr>,
                pvc_AccessModes := [''ReadWriteOnce''],
                pvc_Resources := \<lparr>rs_Requests = Some [''storage'' \<mapsto> Quantity ''100Gi''],
                                  rs_Limits = None\<rparr>\<rparr>
      in if bs_StorageClass (brokerSpec obj) \<noteq> ''''
         then p\<lparr>pvc_StorageClassName := Some (bs_StorageClass (brokerSpec obj))\<rparr> else p)"

definition syncBrokerPVC ::
  "'w reconciler \<Rightarrow> AutoMQ \<Rightarrow> int32 \<Rightarrow> 'w \<Rightarrow> goerror option \<times> 'w" where
  "syncBrokerPVC r obj index w =
     (let pvc = new_pvc (mq_Namespace obj) (getAutoMQName brokerRole (Some index));
          (err, pvc, w) = retry_create_or_update (r_Client r)
            (on_pvc (brokerPVC_mutate obj index)) (ObjPVC pvc) w
      in (err, w))"

definition brokerEnvs :: "'w reconciler \<Rightarrow> AutoMQ \<Rightarrow> int32 \<Rightarrow> env_var list" where
  "brokerEnvs r obj nodePort = [
     fieldEnv ''NAMESPACE_NAME'' ''metadata.namespace'',
     fieldEnv ''POD_NAME'' ''metadata.name'',
     fieldEnv ''NODE_NAME'' ''spec.nodeName'',
     fieldEnv ''POD_IP'' ''status.podIP'',
     valueEnv ''KAFKA_S3_ACCESS_KEY'' (s3_AccessKeyID (spec_S3 (mq_Spec obj))),
     valueEnv ''KAFKA_S3_SECRET_KEY'' (s3_SecretAccessKey (spec_S3 (mq_Spec obj))),
     valueEnv ''KAFKA_HEAP_OPTS'' (join '' '' (slice (bs_JVMOptions (brokerSpec obj)))),
     valueEnv ''KAFKA_CFG_AUTOBALANCER_REPORTER_NETWORK_IN_CAPACITY'' ''5120'',
     valueEnv ''KAFKA_CFG_AUTOBALANCER_REPORTER_NETWORK_OUT_CAPACITY'' ''5120'',
     valueEnv ''KAFKA_CFG_AUTOBALANCER_REPORTER_METRICS_REPORTING_INTERVAL_MS'' ''5000'',
     valueEnv ''NODEPORT_DEFAULT_PORT'' (itoa (sint nodePort)),
     valueEnv ''OPERATOR_APIS_ADDR''
       (''http://'' @ r_Getenv r ''OPERATOR_APIS_IP'' @ '':'' @ itoa 9090)]"

definition brokerCmds :: "AutoMQ \<Rightarrow> int32 \<Rightarrow> string list" where
  "brokerCmds obj index = [
     ''/opt/kafka/scripts/mq-start.sh'',
     ''up'',
     ''--process.roles'',
     ''broker'',
     ''--node.id'',
     itoa (sint (index + cs_Replicas (controllerSpec obj))),
     ''--cluster.id'',
     spec_ClusterID (mq_Spec obj),
     ''--controller.quorum.voters'',
     join '','' (controllerVoters obj),
     ''--s3.bucket'',
     s3_Bucket (spec_S3 (mq_Spec obj)),
     ''--s3.endpoint'',
     s3_Endpoint (spec_S3 (mq_Spec obj)),
     ''--s3.region'',
     s3_Region (spec_S3 (mq_Spec obj)),
     ''--s3.path.style'',
     fmt_bool (s3_EnablePathStyle (spec_S3 (mq_Spec obj)))]"

definition brokerTemplate ::
  "'w reconciler \<Rightarrow> ctx \<Rightarrow> AutoMQ \<Rightarrow> int32 \<Rightarrow> int32 \<Rightarrow> string \<Rightarrow> pod_template \<Rightarrow> pod_template" where
  "brokerTemplate r ctx obj index nodePort deployName t =
     (let t = t\<lparr>pt_Labels := brokerIndexLabels obj index,
                pt_HostNetwork := False,
                pt_TerminationGracePeriodSeconds := Some (60 * 2),
                pt_InitContainers := [sysctlContainer],
                pt_Affinity := ToK8sAffinity (bs_Affinity (brokerSpec obj)),
                pt_Volumes := kafkaVolumes (mq_Name obj) deployName,
                pt_Containers := [kafkaContainer brokerRole 9092 deployName
                   (brokerEnvs r obj nodePort) (brokerCmds obj index)]\<rparr>;
          t = t\<lparr>pt_Annotations := [''configmap/script-hash'' \<mapsto> ctx_hash ctx]\<rparr>;
          t = addMetrics obj t;
          t = addTimeZone (r_MountTZ r) t;
          t = setResources (bs_Resource (brokerSpec obj)) t
      in addUserEnvs (bs_Envs (brokerSpec obj)) t)"

definition brokerDeploy_mutate ::
  "'w reconciler \<Rightarrow> ctx \<Rightarrow> AutoMQ \<Rightarrow> int32 \<Rightarrow> int32 \<Rightarrow> deployment \<Rightarrow> deployment" where
  "brokerDeploy_mutate r ctx obj index nodePort d =
     d\<lparr>dep_meta := (dep_meta d)\<lparr>om_Labels := getAutoMQLabelMap (mq_Name obj) brokerRole\<rparr>,
       dep_Strategy := ''RollingUpdate'',
       dep_Template := brokerTemplate r ctx obj index nodePort (om_Name (dep_meta d)) (dep_Template d)\<rparr>"

text \<open>\<open>Get\<close> fills the \<open>*v1.Service\<close> it is given.\<close>

definition filled_service :: "service \<Rightarrow> object \<Rightarrow> service" where
  "filled_service svc x = (case x of ObjService s \<Rightarrow> s | _ \<Rightarrow> svc)"

definition syncBrokerDeploy ::
  "'w reconciler \<Rightarrow> ctx \<Rightarrow> AutoMQ \<Rightarrow> int32 \<Rightarrow> 'w \<Rightarrow> goerror option go \<times> 'w" where
  "syncBrokerDeploy r ctx obj index w =
     (let deploy = (new_deployment (mq_Namespace obj) (getAutoMQName brokerRole (Some index)))
            \<lparr>dep_Selector := Some (brokerIndexLabels obj index)\<rparr>;
          svc = new_service (mq_Namespace obj) (getAutoMQName brokerRole (Some index));
          (err, x, w) = k_Get (r_Client r) (ObjectKeyFromObject (ObjService svc)) (ObjService svc) w
      in case err of
           Some err \<Rightarrow> (Val (Some err), w)
         | None \<Rightarrow>
        (case svc_Ports (filled_service svc x) of
           [] \<Rightarrow> (Panic ''index out of range'', w)
         | port # _ \<Rightarrow>
             (let (err, deploy, w) = retry_create_or_update (r_Client r)
                    (on_deployment (brokerDeploy_mutate r ctx obj index (sp_NodePort port)))
                    (ObjDeployment deploy) w
              in (Val err, w))))"

definition brokerService_mutate :: "AutoMQ \<Rightarrow> int32 \<Rightarrow> service \<Rightarrow> service" where
  "brokerService_mutate obj index s =
     s\<lparr>svc_meta := (svc_meta s)\<lparr>om_Labels := brokerIndexLabels obj index\<rparr>,
       svc_Ports := [\<lparr>sp_Name = brokerRole, sp_Port = 9092,
         sp_TargetPort = FromString brokerRole, sp_Protocol = ''TCP'', sp_NodePort = 0\<rparr>],
       svc_Type := ''NodePort''\<rparr>"

definition syncBrokerService ::
  "'w reconciler \<Rightarrow> AutoMQ \<Rightarrow> int32 \<Rightarrow> 'w \<Rightarrow> goerror option \<times> 'w" where
  "syncBrokerService r obj index w =
     (let svc = (new_service (mq_Namespace obj) (getAutoMQName brokerRole (Some index)))
            \<lparr>svc_Selector := brokerIndexLabels obj index\<rparr>;
          (err, svc, w) = retry_create_or_update (r_Client r)
            (on_service (brokerService_mutate obj index)) (ObjService svc) w
      in (err, w))"

section \<open>The loop and the bootstrap service\<close>

definition syncBrokers_body ::
  "'w reconciler \<Rightarrow> ctx \<Rightarrow> AutoMQ \<Rightarrow> int32 \<Rightarrow> 'w \<Rightarrow> (string \<times> string) option go \<times> 'w" where
  "syncBrokers_body r ctx obj i w =
     (case syncBrokerPVC r obj i w of
        (Some err, w) \<Rightarrow> (Val (Some (''BrokerPVCReconciling'',
           failure_message ''Failed to create pvc'' obj err)), w)
      | (None, w) \<Rightarrow>
     (case syncBrokerService r obj i w of
        (Some err, w) \<Rightarrow> (Val (Some (''BrokerServiceReconciling'',
           failure_message ''Failed to create service'' obj err)), w)
      | (None, w) \<Rightarrow>
     go_bind (syncBrokerDeploy r ctx obj i w)
       (\<lambda>err w. case err of
          Some err \<Rightarrow> (Val (Some (''BrokerSTSReconciling'',
            failure_message ''Failed to create deploy'' obj err)), w)
        | None \<Rightarrow> (Val None, w))))"

definition syncBrokers ::
  "'w reconciler \<Rightarrow> ctx \<Rightarrow> AutoMQ \<Rightarrow> 'w \<Rightarrow> (bool \<times> AutoMQ) go \<times> 'w" where
  "syncBrokers r ctx obj w =
     go_bind (for_ret 0 (sint (bs_Replicas (brokerSpec obj)))
                (\<lambda>i. syncBrokers_body r ctx obj (word_of_int i)) w)
       (\<lambda>res w. case res of
          Some (reason, message) \<Rightarrow>
            (Val (True, setCondition (r_Client r) obj ''SyncBrokerReady'' ConditionFalse
               reason message), w)
        | None \<Rightarrow>
            (Val (True, setCondition (r_Client r) obj ''SyncBrokerReady'' ConditionTrue
               ''BrokerReconciling'' (success_message ''Broker resource'' obj
                  ''has been created or update'')), w))"

definition bootstrapService_mutate :: "AutoMQ \<Rightarrow> service \<Rightarrow> service" where
  "bootstrapService_mutate obj s =
     s\<lparr>svc_meta := (svc_meta s)\<lparr>om_Labels := getAutoMQLabelMap (mq_Name obj) brokerRole\<rparr>,
       svc_Ports := [\<lparr>sp_Name = brokerRole, sp_Port = 9092,
         sp_TargetPort = FromString brokerRole, sp_Protocol = ''TCP'',
         sp_NodePort = spec_NodePort (mq_Spec obj)\<rparr>],
       svc_Type := ''NodePort''\<rparr>"

definition syncKafkaBootstrapService ::
  "'w reconciler \<Rightarrow> ctx \<Rightarrow> AutoMQ \<Rightarrow> 'w \<Rightarrow> (bool \<times> AutoMQ) go \<times> 'w" where
  "syncKafkaBootstrapService r ctx obj w =
     (let svc = (new_service (mq_Namespace obj) (getAutoMQName (brokerRole @ ''-bootstrap'') None))
            \<lparr>svc_Selector := getAutoMQLabelMap (mq_Name obj) brokerRole\<rparr>;
          (err, svc, w) = retry_create_or_update (r_Client r)
            (on_service (bootstrapService_mutate obj)) (ObjService svc) w
      in case err of
           Some err \<Rightarrow>
             (Val (True, setCondition (r_Client r) obj ''SyncBootstrapServiceReady'' ConditionFalse
                ''BootstrapServiceReconciling''
                (failure_message ''Failed to create bootstrap service'' obj err)), w)
         | None \<Rightarrow>
             (let obj = setCondition (r_Client r) obj ''SyncBootstrapServiceReady'' ConditionTrue
                    ''BootstrapServiceReconciling''
                    (success_message ''Bootstrap service'' obj ''has been created'');
                  obj = obj\<lparr>mq_Status := (mq_Status obj)\<lparr>st_BootstrapInternalAddress :=
                    getAutoMQName (brokerRole @ ''-bootstrap'') None @ ''.'' @ mq_Namespace obj
                      @ ''.svc:'' @ itoa 9092\<rparr>\<rparr>
              in (Val (True, obj), w)))"

section \<open>What the operations do to the cluster\<close>

definition brokerKeys :: "string \<Rightarrow> int32 \<Rightarrow> okey set" where
  "brokerKeys ns i = {(KPVC, ns, brokerName i), (KService, ns, brokerName i),
     (KDeployment, ns, brokerName i)}"

definition brokerServiceGood :: "AutoMQ \<Rightarrow> int32 \<Rightarrow> service \<Rightarrow> bool" where
  "brokerServiceGood obj i s \<longleftrightarrow> om_Labels (svc_meta s) = brokerIndexLabels obj i
     \<and> svc_Type s = ''NodePort''
     \<and> (\<exists>p. svc_Ports s = [p] \<and> sp_Name p = brokerRole \<and> sp_Port p = 9092
          \<and> sp_TargetPort p = FromString brokerRole)"

text \<open>The desired state of the three resources of replica \<open>i\<close>; the pod advertises some node port,
  which \<open>syncBrokerDeploy_port\<close> below identifies.\<close>

definition brokerGood :: "'w reconciler \<Rightarrow> ctx \<Rightarrow> AutoMQ \<Rightarrow> int32 \<Rightarrow> object \<Rightarrow> bool" where
  "brokerGood r ctx obj i x \<longleftrightarrow> (case x of
     ObjPVC p \<Rightarrow> om_Labels (pvc_meta p) = brokerIndexLabels obj i
       \<and> pvc_AccessModes p = [''ReadWriteOnce'']
       \<and> rs_Requests (pvc_Resources p) = Some [''storage'' \<mapsto> Quantity ''100Gi'']
       \<and> (bs_StorageClass (brokerSpec obj) \<noteq> '''' \<longrightarrow>
            pvc_StorageClassName p = Some (bs_StorageClass (brokerSpec obj)))
   | ObjDeployment d \<Rightarrow> om_Labels (dep_meta d) = getAutoMQLabelMap (mq_Name obj) brokerRole
       \<and> dep_Strategy d = ''RollingUpdate''
       \<and> (\<exists>port. dep_Template d = brokerTemplate r ctx obj i port (brokerName i) empty_template)
   | ObjService s \<Rightarrow> brokerServiceGood obj i s
   | _ \<Rightarrow> False)"

lemma bootstrapName_differs [simp]:
  "bootstrapName \<noteq> controllerName i" "bootstrapName \<noteq> brokerName i"
  "controllerName i \<noteq> bootstrapName" "brokerName i \<noteq> bootstrapName"
  by (simp_all add: bootstrapName_def not_sym [OF bootstrap_name_differs(1)]
      not_sym [OF bootstrap_name_differs(2)])

lemma brokerTemplate_any:
  "brokerTemplate r ctx obj i port n t = brokerTemplate r ctx obj i port n t'"
  by (cases t; cases t') (simp add: brokerTemplate_def Let_def)

lemma broker_mutate_okey [simp]:
  "okey (on_pvc (brokerPVC_mutate obj i) x) = okey x"
  "okey (on_deployment (brokerDeploy_mutate r ctx obj i port) x) = okey x"
  "okey (on_service (brokerService_mutate obj i) x) = okey x"
  "okey (on_service (bootstrapService_mutate obj) x) = okey x"
  by (auto simp: brokerPVC_mutate_def brokerDeploy_mutate_def brokerService_mutate_def
      bootstrapService_mutate_def Let_def)

lemma syncBrokerPVC_frame:
  "kube_laws (r_Client r) view \<Longrightarrow> k \<noteq> (KPVC, mq_Namespace obj, brokerName i) \<Longrightarrow>
    view (snd (syncBrokerPVC r obj i w)) k = view w k"
  by (simp add: syncBrokerPVC_def Let_def case_prod_beta retry_cou_frame)

lemma syncBrokerService_frame:
  "kube_laws (r_Client r) view \<Longrightarrow> k \<noteq> (KService, mq_Namespace obj, brokerName i) \<Longrightarrow>
    view (snd (syncBrokerService r obj i w)) k = view w k"
  by (simp add: syncBrokerService_def Let_def case_prod_beta retry_cou_frame)

lemma syncBrokerDeploy_frame:
  assumes laws: "kube_laws (r_Client r) view"
    and k: "k \<noteq> (KDeployment, mq_Namespace obj, brokerName i)"
  shows "view (snd (syncBrokerDeploy r ctx obj i w)) k = view w k"
proof -
  let ?svc = "ObjService (new_service (mq_Namespace obj) (brokerName i))"
  obtain e x w1 where g: "k_Get (r_Client r) (ObjectKeyFromObject ?svc) ?svc w = (e, x, w1)"
    by (metis prod_cases3)
  with kube_lawsD(2) [OF laws] have "view w1 = view w" by (rule get_law_view)
  then show ?thesis
    using k by (simp add: syncBrokerDeploy_def g Let_def case_prod_beta retry_cou_frame [OF laws]
        split: option.splits list.splits)
qed

text \<open>What the server makes of a mutated object is as desired, whatever it was before.\<close>

lemma brokerPVC_made:
  assumes "okey b = (KPVC, ns, n)" and "admitted (on_pvc (brokerPVC_mutate obj i) b) y"
  shows "brokerGood r ctx obj i y"
proof -
  from assms(1) obtain p where "b = ObjPVC p" using okey_kindE(3) [of b] by auto
  with assms(2) show ?thesis
    by (cases y) (auto simp: brokerGood_def brokerPVC_mutate_def Let_def meta_admitted_def
        split: if_splits)
qed

lemma brokerService_made:
  assumes "okey b = (KService, ns, n)" and "admitted (on_service (brokerService_mutate obj i) b) y"
  shows "\<exists>s. y = ObjService s \<and> brokerServiceGood obj i s"
proof -
  from assms(1) obtain s where "b = ObjService s" using okey_kindE(1) [of b] by auto
  with assms(2) show ?thesis
    by (cases y) (auto simp: brokerServiceGood_def brokerService_mutate_def meta_admitted_def
        list_all2_Cons1 port_admitted_def)
qed

lemma brokerDeploy_made:
  assumes "okey b = (KDeployment, ns, brokerName i)"
    and "admitted (on_deployment (brokerDeploy_mutate r ctx obj i port) b) y"
  shows "\<exists>d. y = ObjDeployment d \<and> om_Labels (dep_meta d) = getAutoMQLabelMap (mq_Name obj) brokerRole
    \<and> dep_Strategy d = ''RollingUpdate''
    \<and> dep_Template d = brokerTemplate r ctx obj i port (brokerName i) empty_template"
proof -
  from assms(1) obtain d where "b = ObjDeployment d" using okey_kindE(2) [of b] by auto
  with assms show ?thesis
    by (cases y) (auto simp: brokerDeploy_mutate_def meta_admitted_def intro: brokerTemplate_any)
qed

lemma bootstrapService_made:
  assumes "okey b = (KService, ns, n)" and "admitted (on_service (bootstrapService_mutate obj) b) y"
  shows "\<exists>s p. y = ObjService s \<and> svc_Type s = ''NodePort'' \<and> svc_Ports s = [p] \<and> sp_Port p = 9092
    \<and> (spec_NodePort (mq_Spec obj) \<noteq> 0 \<longrightarrow> sp_NodePort p = spec_NodePort (mq_Spec obj))"
proof -
  from assms(1) obtain s where "b = ObjService s" using okey_kindE(1) [of b] by auto
  with assms(2) show ?thesis
    by (cases y) (auto simp: bootstrapService_mutate_def list_all2_Cons1 port_admitted_def)
qed

lemma syncBrokerPVC_good:
  assumes laws: "kube_laws (r_Client r) view" and res: "syncBrokerPVC r obj i w = (None, w')"
  shows "\<exists>x. view w' (KPVC, mq_Namespace obj, brokerName i) = Some x \<and> brokerGood r ctx obj i x"
proof -
  from res obtain y where call: "retry_create_or_update (r_Client r)
      (on_pvc (brokerPVC_mutate obj i))
      (ObjPVC (new_pvc (mq_Namespace obj) (brokerName i))) w = (None, y, w')"
    by (auto simp: syncBrokerPVC_def Let_def split: prod.splits)
  from retry_cou_stored [OF laws call] obtain b where
    y: "view w' (KPVC, mq_Namespace obj, brokerName i) = Some y"
    and b: "okey b = (KPVC, mq_Namespace obj, brokerName i)"
      "admitted (on_pvc (brokerPVC_mutate obj i) b) y" by auto
  with y brokerPVC_made [OF b] show ?thesis by blast
qed

lemma syncBrokerService_good:
  assumes laws: "kube_laws (r_Client r) view" and res: "syncBrokerService r obj i w = (None, w')"
  shows "\<exists>s. view w' (KService, mq_Namespace obj, brokerName i) = Some (ObjService s)
    \<and> brokerServiceGood obj i s"
proof -
  from res obtain y where call: "retry_create_or_update (r_Client r)
      (on_service (brokerService_mutate obj i))
      (ObjService ((new_service (mq_Namespace obj) (brokerName i))
         \<lparr>svc_Selector := brokerIndexLabels obj i\<rparr>)) w = (None, y, w')"
    by (auto simp: syncBrokerService_def Let_def split: prod.splits)
  from retry_cou_stored [OF laws call] obtain b where
    y: "view w' (KService, mq_Namespace obj, brokerName i) = Some y"
    and b: "okey b = (KService, mq_Namespace obj, brokerName i)"
      "admitted (on_service (brokerService_mutate obj i) b) y" by auto
  with y brokerService_made [OF b] show ?thesis by blast
qed

text \<open>The pod of a broker advertises the node port of the broker's own service.\<close>

lemma syncBrokerDeploy_stored:
  assumes laws: "kube_laws (r_Client r) view"
    and res: "syncBrokerDeploy r ctx obj i w = (Val None, w')"
  shows "\<exists>s p ps d. view w' (KService, mq_Namespace obj, brokerName i) = Some (ObjService s)
    \<and> svc_Ports s = p # ps
    \<and> view w' (KDeployment, mq_Namespace obj, brokerName i) = Some (ObjDeployment d)
    \<and> om_Labels (dep_meta d) = getAutoMQLabelMap (mq_Name obj) brokerRole
    \<and> dep_Strategy d = ''RollingUpdate''
    \<and> dep_Template d = brokerTemplate r ctx obj i (sp_NodePort p) (brokerName i) empty_template"
proof -
  let ?svc = "new_service (mq_Namespace obj) (brokerName i)"
  obtain e x w1 where g:
    "k_Get (r_Client r) (ObjectKeyFromObject (ObjService ?svc)) (ObjService ?svc) w = (e, x, w1)"
    by (metis prod_cases3)
  with res have e: "e = None"
    by (auto simp: syncBrokerDeploy_def Let_def split: option.splits)
  note v = get_law_view [OF kube_lawsD(2) [OF laws] g]
  from get_law_found [OF kube_lawsD(2) [OF laws] g [unfolded e]]
  have f: "view w (KService, mq_Namespace obj, brokerName i) = Some x"
    by (simp add: ObjectKeyFromObject_def)
  with view_lawD [OF kube_lawsD(1) [OF laws] f] okey_kindE(1) [of x]
  obtain s where s: "x = ObjService s" by auto
  from res obtain p ps y where ports: "svc_Ports s = p # ps"
    and call: "retry_create_or_update (r_Client r)
      (on_deployment (brokerDeploy_mutate r ctx obj i (sp_NodePort p)))
      (ObjDeployment ((new_deployment (mq_Namespace obj) (brokerName i))
         \<lparr>dep_Selector := Some (brokerIndexLabels obj i)\<rparr>)) w1 = (None, y, w')"
    by (auto simp: syncBrokerDeploy_def Let_def g e s filled_service_def
        split: prod.splits list.splits)
  from retry_cou_stored [OF laws call] obtain b where
    y: "view w' (KDeployment, mq_Namespace obj, brokerName i) = Some y"
    and b: "okey b = (KDeployment, mq_Namespace obj, brokerName i)"
      "admitted (on_deployment (brokerDeploy_mutate r ctx obj i (sp_NodePort p)) b) y" by auto
  note brokerDeploy_made [OF b]
  moreover have "view w' (KService, mq_Namespace obj, brokerName i) = Some (ObjService s)"
    using syncBrokerDeploy_frame [OF laws, of "(KService, mq_Namespace obj, brokerName i)" obj i ctx w]
      res f s by simp
  ultimately show ?thesis using ports y by blast
qed

lemma syncBrokerDeploy_returns:
  assumes laws: "kube_laws (r_Client r) view"
    and svc: "view w (KService, mq_Namespace obj, brokerName i) = Some (ObjService s)"
      "svc_Ports s \<noteq> []"
  shows "returns (syncBrokerDeploy r ctx obj i w)"
proof -
  let ?svc = "new_service (mq_Namespace obj) (brokerName i)"
  obtain e x w1 where g:
    "k_Get (r_Client r) (ObjectKeyFromObject (ObjService ?svc)) (ObjService ?svc) w = (e, x, w1)"
    by (metis prod_cases3)
  show ?thesis
  proof (cases e)
    case None
    from get_law_found [OF kube_lawsD(2) [OF laws] g [unfolded None]] svc(1)
    have "x = ObjService s" by (simp add: ObjectKeyFromObject_def)
    with g None svc(2) show ?thesis
      by (cases "svc_Ports s") (auto simp: syncBrokerDeploy_def Let_def filled_service_def
          split: prod.splits)
  next
    case (Some err)
    with g show ?thesis by (simp add: syncBrokerDeploy_def Let_def)
  qed
qed

section \<open>The loops as instances of the shared interfaces\<close>

lemma syncBrokers_body_frame:
  assumes laws: "kube_laws (r_Client r) view" and k: "k \<notin> brokerKeys (mq_Namespace obj) i"
  shows "view (snd (syncBrokers_body r ctx obj i w)) k = view w k"
proof -
  obtain e1 w1 where 1: "syncBrokerPVC r obj i w = (e1, w1)" by fastforce
  obtain e2 w2 where 2: "syncBrokerService r obj i w1 = (e2, w2)" by fastforce
  obtain e3 w3 where 3: "syncBrokerDeploy r ctx obj i w2 = (e3, w3)" by fastforce
  have "view w1 k = view w k" "view w2 k = view w1 k" "view w3 k = view w2 k"
    using syncBrokerPVC_frame [OF laws, of k obj i w]
      syncBrokerService_frame [OF laws, of k obj i w1]
      syncBrokerDeploy_frame [OF laws, of k obj i ctx w2] k
    by (auto simp: brokerKeys_def 1 2 3)
  then show ?thesis
    by (cases e3) (simp_all add: syncBrokers_body_def 1 2 3 split: option.splits)
qed

lemma syncBrokers_body_steps:
  assumes "syncBrokers_body r ctx obj i w = (Val None, w')"
  obtains w1 w2 where "syncBrokerPVC r obj i w = (None, w1)"
    and "syncBrokerService r obj i w1 = (None, w2)"
    and "syncBrokerDeploy r ctx obj i w2 = (Val None, w')"
  using assms
  by (auto simp: syncBrokers_body_def go_bind_Val_iff split: prod.splits option.splits)

lemma syncBrokers_body_good:
  assumes laws: "kube_laws (r_Client r) view"
    and res: "syncBrokers_body r ctx obj i w = (Val None, w')"
    and k: "k \<in> brokerKeys (mq_Namespace obj) i"
  shows "\<exists>x. view w' k = Some x \<and> brokerGood r ctx obj i x"
proof -
  from res obtain w1 w2 where 1: "syncBrokerPVC r obj i w = (None, w1)"
    and 2: "syncBrokerService r obj i w1 = (None, w2)"
    and 3: "syncBrokerDeploy r ctx obj i w2 = (Val None, w')"
    by (rule syncBrokers_body_steps)
  note good = syncBrokerPVC_good [OF laws 1, of ctx] syncBrokerService_good [OF laws 2]
  have dep: "\<exists>x. view w' (KDeployment, mq_Namespace obj, brokerName i) = Some x
      \<and> brokerGood r ctx obj i x"
    using syncBrokerDeploy_stored [OF laws 3] by (auto simp: brokerGood_def)
  have "view w' k = view w2 k" if "fst k \<noteq> KDeployment"
    using syncBrokerDeploy_frame [OF laws, of k obj i ctx w2] that by (cases k) (auto simp: 3)
  moreover have "view w2 k = view w1 k" if "fst k \<noteq> KService"
    using syncBrokerService_frame [OF laws, of k obj i w1] that by (cases k) (auto simp: 2)
  moreover have "\<exists>x. view w2 (KService, mq_Namespace obj, brokerName i) = Some x
      \<and> brokerGood r ctx obj i x"
    using good(2) by (auto simp: brokerGood_def)
  ultimately show ?thesis using k good(1) dep by (auto simp: brokerKeys_def)
qed

text \<open>No panic: by the time the deployment reads the ports, the service has one.\<close>

lemma syncBrokers_body_returns:
  assumes laws: "kube_laws (r_Client r) view"
  shows "returns (syncBrokers_body r ctx obj i w)"
proof -
  obtain e1 w1 where 1: "syncBrokerPVC r obj i w = (e1, w1)" by fastforce
  obtain e2 w2 where 2: "syncBrokerService r obj i w1 = (e2, w2)" by fastforce
  show ?thesis
  proof (cases "e1 = None \<and> e2 = None")
    case True
    with syncBrokerService_good [OF laws] 2 obtain s where
      "view w2 (KService, mq_Namespace obj, brokerName i) = Some (ObjService s)"
      and "svc_Ports s \<noteq> []" by (fastforce simp: brokerServiceGood_def)
    then have "returns (syncBrokerDeploy r ctx obj i w2)"
      by (rule syncBrokerDeploy_returns [OF laws])
    then obtain v w3 where "syncBrokerDeploy r ctx obj i w2 = (Val v, w3)" by (rule returnsE)
    with 1 2 True show ?thesis by (simp add: syncBrokers_body_def split: option.splits)
  next
    case False
    with 1 2 show ?thesis by (auto simp: syncBrokers_body_def split: option.splits)
  qed
qed

lemma brokerKeys_disjoint: "i \<noteq> j \<Longrightarrow> brokerKeys ns i \<inter> brokerKeys ns j = {}"
  by (auto simp: brokerKeys_def)

interpretation broker_sync: sync_loop syncBrokers_body brokerKeys brokerGood
  by unfold_locales
    (auto intro: syncBrokers_body_frame syncBrokers_body_returns
       dest: syncBrokers_body_good simp: brokerKeys_disjoint)

definition brokerScaleObjects :: "string \<Rightarrow> int32 \<Rightarrow> object list" where
  "brokerScaleObjects ns i = [ObjStatefulSet (empty_meta ns (brokerName i)),
     ObjService (new_service ns (brokerName i)), ObjPVC (new_pvc ns (brokerName i))]"

definition brokerCleanObjects :: "string \<Rightarrow> int32 \<Rightarrow> object list" where
  "brokerCleanObjects ns i = [ObjService (new_service ns (brokerName i)),
     ObjDeployment (new_deployment ns (brokerName i)), ObjPVC (new_pvc ns (brokerName i))]"

lemma brokerCleanObjects_keys: "okey ` set (brokerCleanObjects ns i) = brokerKeys ns i"
  by (auto simp: brokerCleanObjects_def brokerKeys_def)

interpretation broker_scale: delete_loop syncBrokerScale_body brokerScaleObjects
  by unfold_locales (simp add: syncBrokerScale_body_def brokerScaleObjects_def Let_def)

interpretation broker_clean: delete_loop cleanBroker_body brokerCleanObjects
  by unfold_locales (simp add: cleanBroker_body_def brokerCleanObjects_def Let_def)

end
