(* ===== verification/StatusController.thy ===== *)
theory StatusController
  imports BrokerRole
begin

text \<open>
  The status of a cluster (\<open>internal/controller/automq_status_controller.go\<close> and \<open>syncStatus\<close> of
  \<open>automq_controller.go\<close>): counting the running pods of a role, choosing the phase, writing the
  status back.
\<close>

section \<open>Writing the status\<close>

text \<open>\<open>Get\<close> fills the \<open>*AutoMQ\<close> it is given.\<close>

definition filled_automq :: "AutoMQ \<Rightarrow> object \<Rightarrow> AutoMQ" where
  "filled_automq a x = (case x of ObjAutoMQ b \<Rightarrow> b | _ \<Rightarrow> a)"

definition syncStatus_attempt :: "'w kube \<Rightarrow> AutoMQ \<Rightarrow> 'w attempt" where
  "syncStatus_attempt K automq = (\<lambda>(_, w).
     (case k_Get K (ObjectKeyFromObject (ObjAutoMQ automq)) (ObjAutoMQ zero_automq) w of
        (Some err, x, w) \<Rightarrow> (Some err, x, w)
      | (None, x, w) \<Rightarrow>
          (let original = (filled_automq zero_automq x)\<lparr>mq_Status := mq_Status automq\<rparr>
           in k_StatusUpdate K (ObjAutoMQ original) w)))"

definition syncStatus :: "'w kube \<Rightarrow> AutoMQ \<Rightarrow> 'w \<Rightarrow> goerror option \<times> 'w" where
  "syncStatus K automq w =
     (let (err, x, w) = k_RetryOnConflict K (syncStatus_attempt K automq) (ObjAutoMQ zero_automq, w)
      in (err, w))"

section \<open>Counting pods\<close>

fun allContainersReady :: "(string \<times> string) list \<Rightarrow> bool" where
  "allContainersReady [] = True"
| "allContainersReady ((type, status) # cs) =
     (if type = ''Ready'' \<and> status \<noteq> ConditionTrue then False else allContainersReady cs)"

fun countRunning :: "int \<Rightarrow> pod list \<Rightarrow> int" where
  "countRunning n [] = n"
| "countRunning n (p # ps) =
     (if pod_Phase p = ''Running'' then
        (if allContainersReady (pod_Conditions p) then countRunning (n + 1) ps
         else countRunning n ps)
      else countRunning n ps)"

definition getPodRunningNum ::
  "'w kube \<Rightarrow> string \<Rightarrow> labels \<Rightarrow> 'w \<Rightarrow> (goerror + int) \<times> 'w" where
  "getPodRunningNum K namespace labelsMap w =
     (case k_ListPods K namespace labelsMap w of
        (Inl err, w) \<Rightarrow> (Inl (ErrorsNew (''error listing pods: '' @ err_text err)), w)
      | (Inr pods, w) \<Rightarrow> (Inr (countRunning 0 pods), w))"

section \<open>The phase\<close>

fun conditionsTrue :: "condition list \<Rightarrow> bool" where
  "conditionsTrue [] = True"
| "conditionsTrue (v # vs) = (if co_Status v \<noteq> ConditionTrue then False else conditionsTrue vs)"

definition setPhase :: "AutoMQPhase \<Rightarrow> AutoMQ \<Rightarrow> AutoMQ" where
  "setPhase p m = m\<lparr>mq_Status := (mq_Status m)\<lparr>st_Phase := p\<rparr>\<rparr>"

text \<open>
  \<open>statusReconcile\<close> up to its last call: it returns early with an error or nil (\<^const>\<open>Inl\<close>), or
  it has computed the custom resource whose status \<open>syncStatus\<close> is to write.
\<close>

definition statusObserve ::
  "'w reconciler \<Rightarrow> AutoMQ \<Rightarrow> 'w \<Rightarrow> (goerror option + AutoMQ) \<times> 'w" where
  "statusObserve r obj w =
     (let K = r_Client r in
      case k_Get K (ObjectKeyFromObject (ObjAutoMQ obj)) (ObjAutoMQ zero_automq) w of
        (Some err, x, w) \<Rightarrow> (Inl (k_IgnoreNotFound K err), w)
      | (None, x, w) \<Rightarrow>
     (let automq = setPhase AutoMQPending (filled_automq zero_automq x);
          status = conditionsTrue (st_Conditions (mq_Status automq));
          automq = (if \<not> status then setPhase AutoMQError automq
                    else setPhase AutoMQInProcess automq)
      in if st_Phase (mq_Status automq) = AutoMQInProcess then
           (let cLabelMap = getAutoMQLabelMap (mq_Name obj) controllerRole;
                bLabelMap = getAutoMQLabelMap (mq_Name obj) brokerRole in
            case getPodRunningNum K (mq_Namespace automq) cLabelMap w of
              (Inl err, w) \<Rightarrow> (Inl (Some err), w)
            | (Inr cRunningNum, w) \<Rightarrow>
           (case getPodRunningNum K (mq_Namespace automq) bLabelMap w of
              (Inl err, w) \<Rightarrow> (Inl (Some err), w)
            | (Inr bRunningNum, w) \<Rightarrow>
               (let c = (word_of_int cRunningNum :: int32);
                    b = (word_of_int bRunningNum :: int32);
                    automq = automq\<lparr>mq_Status := (mq_Status automq)\<lparr>st_ReadyPods := c + b\<rparr>\<rparr>;
                    automq = (if c = cs_Replicas (controllerSpec automq)
                                 \<and> b = bs_Replicas (brokerSpec automq)
                              then setPhase AutoMQReady automq else automq)
                in (Inr automq, w))))
         else (Inr automq, w)))"

definition statusReconcile :: "'w reconciler \<Rightarrow> AutoMQ \<Rightarrow> 'w \<Rightarrow> goerror option \<times> 'w" where
  "statusReconcile r obj w =
     (case statusObserve r obj w of
        (Inl err, w) \<Rightarrow> (err, w)
      | (Inr automq, w) \<Rightarrow> syncStatus (r_Client r) automq w)"

section \<open>Facts\<close>

lemma allContainersReady_iff:
  "allContainersReady cs \<longleftrightarrow> (\<forall>(t, s) \<in> set cs. t = ''Ready'' \<longrightarrow> s = ConditionTrue)"
  by (induction cs rule: allContainersReady.induct) auto

lemma conditionsTrue_iff: "conditionsTrue cs \<longleftrightarrow> (\<forall>c \<in> set cs. co_Status c = ConditionTrue)"
  by (induction cs) auto

lemma countRunning_eq:
  "countRunning n ps =
     n + int (length (filter (\<lambda>p. pod_Phase p = ''Running'' \<and> allContainersReady (pod_Conditions p)) ps))"
  by (induction n ps rule: countRunning.induct) auto

end
