(* ===== verification/GoPath.thy ===== *)
theory GoPath
  imports GoStrings
begin

text \<open>
  The parts of Go's packages \<open>path\<close> and \<open>path/filepath\<close> (on Unix the two agree) that the asset
  table and the object-storage client call: \<open>Clean\<close>, \<open>Join\<close> and \<open>Dir\<close>. The lemmas say what they
  do on paths made of plain segments.
\<close>

section \<open>Clean\<close>

text \<open>
  The elements of the path are processed from left to right onto a stack (top first): empty
  elements and \<open>.\<close> are dropped, \<open>..\<close> takes back the element before it, unless there is none to
  take back; a rooted path then drops it, another keeps it.
\<close>

fun clean_parts :: "bool \<Rightarrow> string list \<Rightarrow> string list \<Rightarrow> string list" where
  "clean_parts rooted st [] = rev st"
| "clean_parts rooted st (c # cs) =
     (if c = '''' \<or> c = ''.'' then clean_parts rooted st cs
      else if c = ''..'' then
        (case st of
           [] \<Rightarrow> if rooted then clean_parts rooted [] cs else clean_parts rooted [c] cs
         | x # st' \<Rightarrow> if x \<noteq> ''..'' then clean_parts rooted st' cs
                      else clean_parts rooted (c # st) cs)
      else clean_parts rooted (c # st) cs)"

definition path_Clean :: "string \<Rightarrow> string" where
  "path_Clean p =
     (if p = '''' then ''.''
      else (let rooted = (hd p = CHR ''/'');
                out = (if rooted then ''/'' else '''')
                  @ join ''/'' (clean_parts rooted [] (split_on (CHR ''/'') p))
            in if out = '''' then ''.'' else out))"

definition path_Join :: "string list \<Rightarrow> string" where
  "path_Join elem =
     (case dropWhile (\<lambda>e. e = '''') elem of
        [] \<Rightarrow> ''''
      | es \<Rightarrow> path_Clean (join ''/'' es))"

definition path_Dir :: "string \<Rightarrow> string" where
  "path_Dir p = path_Clean (fst (path_split p))"

section \<open>Plain segments\<close>

definition plain :: "string \<Rightarrow> bool" where
  "plain s \<longleftrightarrow> s \<noteq> '''' \<and> s \<noteq> ''.'' \<and> s \<noteq> ''..'' \<and> CHR ''/'' \<notin> set s"

lemma split_on_plain: "c \<notin> set s \<Longrightarrow> split_on c s = [s]"
  by (induction s) auto

lemma split_on_sep: "c \<notin> set p \<Longrightarrow> split_on c (p @ c # s) = p # split_on c s"
  by (induction p) auto

lemma join_Cons: "xs \<noteq> [] \<Longrightarrow> join sep (x # xs) = x @ sep @ join sep xs"
  by (cases xs) simp_all

lemma split_join_segments:
  "xs \<noteq> [] \<Longrightarrow> \<forall>x \<in> set xs. c \<notin> set x \<Longrightarrow> split_on c (join [c] xs) = xs"
proof (induction xs)
  case (Cons x xs)
  then show ?case
    by (cases "xs = []") (simp_all add: split_on_plain split_on_sep join_Cons del: join.simps(3))
qed simp

lemma clean_parts_plain:
  "\<forall>x \<in> set xs. x = '''' \<or> plain x \<Longrightarrow>
    clean_parts r st xs = rev st @ filter (\<lambda>x. x \<noteq> '''') xs"
  by (induction xs arbitrary: st) (auto simp: plain_def)

lemma hd_join:
  "plain x \<Longrightarrow> join sep (x # xs) \<noteq> '''' \<and> hd (join sep (x # xs)) \<noteq> CHR ''/''"
  by (cases x; cases xs) (auto simp: plain_def)

text \<open>Joining plain elements, some of them empty, puts slashes between those that are not.\<close>

lemma Join_plain:
  assumes "\<forall>x \<in> set xs. x = '''' \<or> plain x"
  shows "path_Join xs = join ''/'' (filter (\<lambda>x. x \<noteq> '''') xs)"
proof (cases "dropWhile (\<lambda>e. e = '''') xs")
  case Nil
  then have "filter (\<lambda>x. x \<noteq> '''') xs = []"
    by (simp add: filter_empty_conv dropWhile_eq_Nil_conv)
  then show ?thesis by (simp add: path_Join_def Nil del: dropWhile_eq_Nil_conv)
next
  case (Cons e es)
  have e: "e \<noteq> ''''" using hd_dropWhile [of "\<lambda>e. e = ''''" xs] Cons by simp
  have xs: "xs = takeWhile (\<lambda>e. e = '''') xs @ e # es"
    using takeWhile_dropWhile_id [of "\<lambda>e. e = ''''" xs] unfolding Cons by (rule sym)
  have "filter (\<lambda>x. x \<noteq> '''') (takeWhile (\<lambda>e. e = '''') xs) = []"
    by (simp add: filter_empty_conv) (meson set_takeWhileD)
  then have "filter (\<lambda>x. x \<noteq> '''') (takeWhile (\<lambda>e. e = '''') xs @ e # es)
      = e # filter (\<lambda>x. x \<noteq> '''') es" by (simp add: e)
  with xs have f: "filter (\<lambda>x. x \<noteq> '''') xs = e # filter (\<lambda>x. x \<noteq> '''') es" by (rule ssubst)
  from xs have "set (e # es) \<subseteq> set xs" by (metis Un_upper2 set_append)
  with assms have all: "\<forall>x \<in> set (e # es). x = '''' \<or> plain x" by blast
  then have pe: "plain e" using e by simp
  let ?j = "join ''/'' (e # es)"
  have "\<forall>x \<in> set (e # es). CHR ''/'' \<notin> set x"
  proof
    fix x
    assume "x \<in> set (e # es)"
    with all have "x = '''' \<or> plain x" by (rule bspec)
    then show "CHR ''/'' \<notin> set x" by (elim disjE) (simp_all add: plain_def)
  qed
  then have s: "split_on (CHR ''/'') ?j = e # es" by (rule split_join_segments [OF list.distinct(2)])
  have c: "clean_parts False [] (e # es) = filter (\<lambda>x. x \<noteq> '''') xs"
    unfolding f clean_parts_plain [OF all] using e by simp
  have "join ''/'' (filter (\<lambda>x. x \<noteq> '''') xs) \<noteq> ''''"
    unfolding f using hd_join [OF pe] by blast
  then have "path_Clean ?j = join ''/'' (filter (\<lambda>x. x \<noteq> '''') xs)"
    using hd_join [OF pe, of "''/''" es]
    by (simp only: path_Clean_def Let_def s c if_False append_Nil simp_thms)
  then show ?thesis by (simp only: path_Join_def Cons list.case)
qed

end
