(* ===== verification/Assets.thy ===== *)
theory Assets
  imports GoPath
begin

text \<open>
  The embedded script (\<open>defaults/zz_generated_bindata.go\<close>): the asset table and the tree over it,
  looking up, listing and restoring assets. The bytes of the script are a parameter \<open>content\<close>
  of the table; the file system of the package \<open>os\<close> is the record \<open>os_fs\<close> of operations over a
  state of the outside world, and \<open>fs_laws\<close> states what restoring relies on.
\<close>

section \<open>The table\<close>

record bindataFileInfo =
  fi_name :: string
  fi_size :: int64
  fi_mode :: "32 word"
  fi_modTime :: int

record asset =
  asset_bytes :: string
  asset_info :: bindataFileInfo

text \<open>\<open>os.ModeDir\<close> is the top bit of the mode; \<open>Sys\<close> is always nil.\<close>

definition ModeDir :: "32 word" where "ModeDir = push_bit 31 1"

definition fi_IsDir :: "bindataFileInfo \<Rightarrow> bool" where
  "fi_IsDir fi \<longleftrightarrow> Bit_Operations.and (fi_mode fi) ModeDir \<noteq> 0"

definition bindataRead :: "string \<Rightarrow> string \<Rightarrow> goerror + string" where
  "bindataRead data name = Inr data"

definition defaultsUpShBytes :: "string \<Rightarrow> goerror + string" where
  "defaultsUpShBytes content = bindataRead content ''defaults/up.sh''"

definition defaultsUpSh :: "string \<Rightarrow> goerror + asset" where
  "defaultsUpSh content =
     (case defaultsUpShBytes content of
        Inl err \<Rightarrow> Inl err
      | Inr bytes \<Rightarrow>
          Inr \<lparr>asset_bytes = bytes, asset_info = \<lparr>fi_name = ''defaults/up.sh'', fi_size = 12502,
            fi_mode = 420, fi_modTime = 1728839086\<rparr>\<rparr>)"

text \<open>\<open>strings.Replace(name, "\\", "/", -1)\<close>.\<close>

definition cannonicalName :: "string \<Rightarrow> string" where
  "cannonicalName name = map (\<lambda>c. if c = CHR 0x5C then CHR ''/'' else c) name"

definition bindata :: "string \<Rightarrow> (string \<times> (goerror + asset)) list" where
  "bindata content = [(''defaults/up.sh'', defaultsUpSh content)]"

definition asset_not_found :: "string \<Rightarrow> string \<Rightarrow> goerror" where
  "asset_not_found what name = ErrorsNew (what @ '' '' @ name @ '' not found'')"

definition asset_cant_read :: "string \<Rightarrow> string \<Rightarrow> goerror \<Rightarrow> goerror" where
  "asset_cant_read what name err = ErrorsNew (what @ '' '' @ name @ '' can'' @ [CHR 0x27]
     @ ''t read by error: '' @ err_text err)"

definition Asset :: "string \<Rightarrow> string \<Rightarrow> goerror + string" where
  "Asset content name =
     (case map_of (bindata content) (cannonicalName name) of
        Some f \<Rightarrow> (case f of
            Inl err \<Rightarrow> Inl (asset_cant_read ''Asset'' name err)
          | Inr a \<Rightarrow> Inr (asset_bytes a))
      | None \<Rightarrow> Inl (asset_not_found ''Asset'' name))"

definition MustAsset :: "string \<Rightarrow> string \<Rightarrow> string go" where
  "MustAsset content name =
     (case Asset content name of
        Inl err \<Rightarrow> Panic (''asset: Asset('' @ name @ ''): '' @ err_text err)
      | Inr a \<Rightarrow> Val a)"

definition AssetInfo :: "string \<Rightarrow> string \<Rightarrow> goerror + bindataFileInfo" where
  "AssetInfo content name =
     (case map_of (bindata content) (cannonicalName name) of
        Some f \<Rightarrow> (case f of
            Inl err \<Rightarrow> Inl (asset_cant_read ''AssetInfo'' name err)
          | Inr a \<Rightarrow> Inr (asset_info a))
      | None \<Rightarrow> Inl (asset_not_found ''AssetInfo'' name))"

definition AssetNames :: "string \<Rightarrow> string list" where
  "AssetNames content = map fst (bindata content)"

section \<open>The tree\<close>

datatype bintree = Bintree (bt_Func: "(goerror + asset) option")
  (bt_Children: "(string \<times> bintree) list")

definition bintree_root :: "string \<Rightarrow> bintree" where
  "bintree_root content = Bintree None
     [(''defaults'', Bintree None
        [(''up.sh'', Bintree (Some (defaultsUpSh content)) [])])]"

text \<open>\<open>for _, p := range pathList { node = node.Children[p]; if node == nil { return } }\<close>\<close>

fun bt_walk :: "bintree \<Rightarrow> string list \<Rightarrow> bintree option" where
  "bt_walk node [] = Some node"
| "bt_walk node (p # pathList) =
     (case map_of (bt_Children node) p of
        None \<Rightarrow> None
      | Some node \<Rightarrow> bt_walk node pathList)"

definition AssetDir :: "string \<Rightarrow> string \<Rightarrow> goerror + string list" where
  "AssetDir content name =
     (case (if length name \<noteq> 0 then bt_walk (bintree_root content)
              (split_on (CHR ''/'') (cannonicalName name))
            else Some (bintree_root content)) of
        None \<Rightarrow> Inl (asset_not_found ''Asset'' name)
      | Some node \<Rightarrow>
          if bt_Func node \<noteq> None then Inl (asset_not_found ''Asset'' name)
          else Inr (map fst (bt_Children node)))"

section \<open>Restoring\<close>

record 'w os_fs =
  os_MkdirAll :: "string \<Rightarrow> 32 word \<Rightarrow> 'w \<Rightarrow> goerror option \<times> 'w"
  os_WriteFile :: "string \<Rightarrow> string \<Rightarrow> 32 word \<Rightarrow> 'w \<Rightarrow> goerror option \<times> 'w"
  os_Chtimes :: "string \<Rightarrow> int \<Rightarrow> int \<Rightarrow> 'w \<Rightarrow> goerror option \<times> 'w"

definition filePath :: "string \<Rightarrow> string \<Rightarrow> string" where
  "filePath dir name = path_Join (dir # split_on (CHR ''/'') (cannonicalName name))"

definition RestoreAsset ::
  "'w os_fs \<Rightarrow> string \<Rightarrow> string \<Rightarrow> string \<Rightarrow> 'w \<Rightarrow> goerror option \<times> 'w" where
  "RestoreAsset F content dir name w =
     (case Asset content name of Inl err \<Rightarrow> (Some err, w) | Inr data \<Rightarrow>
     (case AssetInfo content name of Inl err \<Rightarrow> (Some err, w) | Inr info \<Rightarrow>
     (case os_MkdirAll F (filePath dir (path_Dir name)) 493 w of
        (Some err, w) \<Rightarrow> (Some err, w)
      | (None, w) \<Rightarrow>
     (case os_WriteFile F (filePath dir name) data (fi_mode info) w of
        (Some err, w) \<Rightarrow> (Some err, w)
      | (None, w) \<Rightarrow>
     (case os_Chtimes F (filePath dir name) (fi_modTime info) (fi_modTime info) w of
        (Some err, w) \<Rightarrow> (Some err, w)
      | (None, w) \<Rightarrow> (None, w))))))"

text \<open>
  \<open>for _, child := range children { err = f(child); if err != nil { return err } }\<close>, for a call
  that may not return.
\<close>

fun range_children ::
  "(string \<Rightarrow> 'w \<Rightarrow> (goerror option \<times> 'w) option) \<Rightarrow> string list \<Rightarrow> 'w \<Rightarrow>
    (goerror option \<times> 'w) option" where
  "range_children f [] w = Some (None, w)"
| "range_children f (child # children) w =
     (case f child w of
        None \<Rightarrow> None
      | Some (Some err, w) \<Rightarrow> Some (Some err, w)
      | Some (None, w) \<Rightarrow> range_children f children w)"

text \<open>
  \<open>RestoreAssets\<close> recurses through \<open>AssetDir\<close>; the first argument bounds the depth of the calls
  and \<^const>\<open>None\<close> is the call that has not returned within it.
\<close>

fun RestoreAssets ::
  "nat \<Rightarrow> 'w os_fs \<Rightarrow> string \<Rightarrow> string \<Rightarrow> string \<Rightarrow> 'w \<Rightarrow> (goerror option \<times> 'w) option" where
  "RestoreAssets 0 F content dir name w = None"
| "RestoreAssets (Suc depth) F content dir name w =
     (case AssetDir content name of
        Inl err \<Rightarrow> Some (RestoreAsset F content dir name w)
      | Inr children \<Rightarrow>
          range_children (\<lambda>child. RestoreAssets depth F content dir (path_Join [name, child]))
            children w)"

section \<open>Facts\<close>

lemma Asset_up_sh [simp]: "Asset content ''defaults/up.sh'' = Inr content"
  by (simp add: Asset_def bindata_def cannonicalName_def defaultsUpSh_def defaultsUpShBytes_def
      bindataRead_def)

end
