(* ===== verification/Reconciler.thy ===== *)
theory Reconciler
  imports StatusController Assets
begin

text \<open>
  The reconciliation of a custom resource (\<open>internal/controller/automq_controller.go\<close>): the
  stages \<open>s3Service\<close> and \<open>scriptConfigmap\<close>, the pipeline of seven stages, cleanup on deletion, and
  the entry point \<open>Reconcile\<close> with its finalizer handling.
\<close>

section \<open>The first two stages\<close>

definition s3Service :: "'w reconciler \<Rightarrow> ctx \<Rightarrow> AutoMQ \<Rightarrow> 'w \<Rightarrow> (bool \<times> AutoMQ) go \<times> 'w" where
  "s3Service r ctx obj w =
     (let K = r_Client r;
          s3 = spec_S3 (mq_Spec obj);
          (sg, w) = NewBucket (r_S3 r)
            \<lparr>cfg_Type = ''s3'', cfg_Key = s3_AccessKeyID s3, cfg_Secret = s3_SecretAccessKey s3,
             cfg_Region = s3_Region s3, cfg_Endpoint = s3_Endpoint s3,
             cfg_MaxBackoffDelay = None, cfg_MaxRetryAttempts = None\<rparr> w
      in case sg of
           Inl err \<Rightarrow>
             (Val (False, setCondition K obj ''SyncS3ServiceReady'' ConditionFalse
                ''AwsS3ReconcilingInit''
                (failure_message ''Failed to create S3 Bucket interface'' obj err)), w)
         | Inr sg \<Rightarrow>
             (let (err, w) = MkBucket (r_S3 r) sg (s3_Bucket s3) w in
              case err of
                Some err \<Rightarrow>
                  (if \<not> contains (err_text err) ''BucketAlready'' then
                     (Val (False, setCondition K obj ''SyncS3ServiceReady'' ConditionFalse
                        ''AwsS3ReconcilingBucket''
                        (failure_message ''Failed to create S3 Bucket interface'' obj err)), w)
                   else
                     (Val (True, setCondition K obj ''SyncS3ServiceReady'' ConditionTrue
                        ''AwsS3Reconciling''
                        (success_message ''S3 Bucket interface'' obj ''has been created'')), w))
              | None \<Rightarrow>
                  (Val (True, setCondition K obj ''SyncS3ServiceReady'' ConditionTrue
                     ''AwsS3Reconciling''
                     (success_message ''S3 Bucket interface'' obj ''has been created'')), w)))"

definition scriptConfigmap_mutate :: "string \<Rightarrow> configmap \<Rightarrow> configmap" where
  "scriptConfigmap_mutate data cm = cm\<lparr>cm_Data := [''up.sh'' \<mapsto> data]\<rparr>"

definition on_configmap :: "(configmap \<Rightarrow> configmap) \<Rightarrow> object \<Rightarrow> object" where
  "on_configmap f x = (case x of ObjConfigMap c \<Rightarrow> ObjConfigMap (f c) | _ \<Rightarrow> x)"

text \<open>
  The context with the hash of the script is a local variable: it reaches the calls of this
  stage and no other.
\<close>

definition scriptConfigmap ::
  "'w reconciler \<Rightarrow> ctx \<Rightarrow> AutoMQ \<Rightarrow> 'w \<Rightarrow> (bool \<times> AutoMQ) go \<times> 'w" where
  "scriptConfigmap r ctx obj w =
     (let K = r_Client r in
      case Asset (r_UpSh r) ''defaults/up.sh'' of
        Inl err \<Rightarrow>
          (Val (False, setCondition K obj ''SyncConfigmapReady'' ConditionFalse
             ''ConfigmapReconcilingInit''
             (failure_message ''Failed to create script configmap'' obj err)), w)
      | Inr data \<Rightarrow>
          (let ctx = ctx(''hash-configmap'' \<mapsto> k_Hash K data);
               (err, cm, w) = retry_fresh_create_or_update K
                  (on_configmap (scriptConfigmap_mutate data))
                  (ObjConfigMap (new_configmap (mq_Namespace obj) (mq_Name obj))) w
           in case err of
                Some err \<Rightarrow>
                  (Val (False, setCondition K obj ''SyncConfigmapReady'' ConditionFalse
                     ''ConfigmapReconcilingCreate''
                     (failure_message ''Failed to create script configmap'' obj err)), w)
              | None \<Rightarrow>
                  (Val (True, setCondition K obj ''SyncConfigmapReady'' ConditionTrue
                     ''ConfigmapReconciling''
                     (success_message ''Script configmap'' obj ''has been created'')), w)))"

section \<open>The pipeline\<close>

type_synonym 'w stage = "AutoMQ \<Rightarrow> 'w \<Rightarrow> (bool \<times> AutoMQ) go \<times> 'w"

fun runPipeline :: "'w stage list \<Rightarrow> AutoMQ \<Rightarrow> 'w \<Rightarrow> AutoMQ go \<times> 'w" where
  "runPipeline [] automq w = (Val automq, w)"
| "runPipeline (fn # fns) automq w =
     go_bind (fn automq w) (\<lambda>(ifRunning, automq) w.
       if \<not> ifRunning then (Val automq, w) else runPipeline fns automq w)"

definition pipelines :: "'w reconciler \<Rightarrow> ctx \<Rightarrow> 'w stage list" where
  "pipelines r ctx = [
     s3Service r ctx,
     scriptConfigmap r ctx,
     syncControllersScale r ctx,
     syncControllers r ctx,
     syncBrokerScale r ctx,
     syncBrokers r ctx,
     syncKafkaBootstrapService r ctx]"

definition setAddresses :: "AutoMQ \<Rightarrow> AutoMQ" where
  "setAddresses automq = automq\<lparr>mq_Status := (mq_Status automq)
     \<lparr>st_ControllerAddresses := controllerVoters automq\<rparr>\<rparr>"

definition recordReplicas :: "AutoMQ \<Rightarrow> AutoMQ" where
  "recordReplicas automq = automq\<lparr>mq_Status := (mq_Status automq)
     \<lparr>st_ControllerReplicas := cs_Replicas (controllerSpec automq),
      st_BrokerReplicas := bs_Replicas (brokerSpec automq)\<rparr>\<rparr>"

definition reconcile :: "'w reconciler \<Rightarrow> ctx \<Rightarrow> object \<Rightarrow> 'w \<Rightarrow> goerror option go \<times> 'w" where
  "reconcile r ctx obj w =
     (case obj of
        ObjAutoMQ automq \<Rightarrow>
          go_bind (runPipeline (pipelines r ctx) (setAddresses automq) w)
            (\<lambda>automq w.
               (let (err, w) = syncStatus (r_Client r) (recordReplicas automq) w
                in (Val err, w)))
      | _ \<Rightarrow> (Val (Some (ErrorsNew ''obj convert automq is error'')), w))"

section \<open>Deletion\<close>

text \<open>\<open>if err != nil { if !apierrors.IsNotFound(err) { return err } }\<close>\<close>

definition failing :: "'w kube \<Rightarrow> goerror option \<Rightarrow> goerror option" where
  "failing K err = (case err of Some e \<Rightarrow> if \<not> k_IsNotFound K e then Some e else None | None \<Rightarrow> None)"

definition cleanup :: "'w reconciler \<Rightarrow> AutoMQ \<Rightarrow> 'w \<Rightarrow> goerror option \<times> 'w" where
  "cleanup r automq w =
     (let K = r_Client r;
          (err, w) = cleanBroker K automq w in
      case failing K err of Some e \<Rightarrow> (Some e, w) | None \<Rightarrow>
     (let (err, w) = cleanController K automq w in
      case failing K err of Some e \<Rightarrow> (Some e, w) | None \<Rightarrow>
     (let cm = new_configmap (mq_Namespace automq) (mq_Name automq);
          (err, w) = k_Delete K (ObjConfigMap cm) w
      in (failing K err, w))))"

definition doFinalizerOperationsForSetting ::
  "'w reconciler \<Rightarrow> AutoMQ \<Rightarrow> 'w \<Rightarrow> goerror option \<times> 'w" where
  "doFinalizerOperationsForSetting r automq w = cleanup r automq w"

section \<open>The entry point\<close>

definition setFinalizers :: "string list \<Rightarrow> AutoMQ \<Rightarrow> AutoMQ" where
  "setFinalizers fs a = a\<lparr>mq_meta := (mq_meta a)\<lparr>om_Finalizers := fs\<rparr>\<rparr>"

definition retryUpdate :: "'w kube \<Rightarrow> AutoMQ \<Rightarrow> 'w \<Rightarrow> goerror option \<times> AutoMQ \<times> 'w" where
  "retryUpdate K autoMQ w =
     (let (err, x, w) = k_RetryOnConflict K (\<lambda>(x, w). k_Update K x w) (ObjAutoMQ autoMQ, w)
      in (err, filled_automq autoMQ x, w))"

text \<open>
  \<open>Reconcile\<close> up to its last call. Either it has returned (\<^const>\<open>Inl\<close>): the result is the
  returned error, and whether the call started a status ticker, the goroutine that runs
  \<open>statusReconcile\<close> every five seconds. Or it goes on into \<open>reconcile\<close> with the custom resource,
  and the ticker runs.
\<close>

definition startReconcile ::
  "'w reconciler \<Rightarrow> nsname \<Rightarrow> 'w \<Rightarrow> ((goerror option \<times> bool) + AutoMQ) \<times> 'w" where
  "startReconcile r req w =
     (let K = r_Client r;
          autoMQFinalizer = r_Finalizer r;
          (err, x, w) = k_Get K req (ObjAutoMQ zero_automq) w in
      case err of
        Some err \<Rightarrow> (Inl (k_IgnoreNotFound K err, False), w)
      | None \<Rightarrow>
     (let autoMQ = filled_automq zero_automq x in
      if om_DeletionTimestamp (mq_meta autoMQ) \<noteq> None
           \<and> \<not> time_IsZero (om_DeletionTimestamp (mq_meta autoMQ)) then
        (let (err, w) = doFinalizerOperationsForSetting r autoMQ w in
         case err of Some err \<Rightarrow> (Inl (Some err, False), w)
         | None \<Rightarrow>
        (let autoMQ = (if k_ContainsFinalizer K (om_Finalizers (mq_meta autoMQ)) autoMQFinalizer
               then setFinalizers (k_RemoveFinalizer K (om_Finalizers (mq_meta autoMQ))
                      autoMQFinalizer) autoMQ
               else autoMQ);
             (err, autoMQ, w) = retryUpdate K autoMQ w
         in (Inl (err, False), w)))
      else if time_IsZero (om_DeletionTimestamp (mq_meta autoMQ))
                \<or> om_DeletionTimestamp (mq_meta autoMQ) = None then
        (let autoMQ = setFinalizers (k_AddFinalizer K (om_Finalizers (mq_meta autoMQ))
               autoMQFinalizer) autoMQ;
             (err, autoMQ, w) = retryUpdate K autoMQ w in
         case err of Some err \<Rightarrow> (Inl (Some err, True), w)
         | None \<Rightarrow> (Inr autoMQ, w))
      else (Inl (Some (ErrorsNew ''reconcile error from Finalizer''), True), w)))"

definition Reconcile ::
  "'w reconciler \<Rightarrow> ctx \<Rightarrow> nsname \<Rightarrow> 'w \<Rightarrow> (goerror option \<times> bool) go \<times> 'w" where
  "Reconcile r ctx req w =
     (case startReconcile r req w of
        (Inl res, w) \<Rightarrow> (Val res, w)
      | (Inr autoMQ, w) \<Rightarrow>
          go_bind (reconcile r ctx (ObjAutoMQ autoMQ) w) (\<lambda>err w. (Val (err, True), w)))"

end
