(* ===== verification/Pipeline.thy ===== *)
theory Pipeline
  imports Reconciler
begin

text \<open>
  The contract of a pipeline stage, as the interface \<open>pipeline_stage\<close>: it returns, keeps the
  identity and the specification of the custom resource and, in its status, the phase, the pod
  counts and the controller addresses; it sets the one condition of its type for the current
  generation (to False when it stops the pipeline), and touches no resource of the cluster but those the custom resource owns. The seven stages
  of \<open>automq_controller.go\<close> are instances; what follows for the whole pipeline, for \<open>reconcile\<close>
  and for \<open>Reconcile\<close> is proved from the contract.
\<close>

section \<open>What a custom resource owns\<close>

definition ownedKeys :: "string \<Rightarrow> string \<Rightarrow> okey set" where
  "ownedKeys ns name = {(KConfigMap, ns, name), (KService, ns, bootstrapName)}
     \<union> (\<Union>i. controllerKeys ns i) \<union> (\<Union>i. brokerKeys ns i)
     \<union> range (\<lambda>i. (KStatefulSet, ns, brokerName i))"

lemma ownedKeysI:
  "(KConfigMap, ns, name) \<in> ownedKeys ns name"
  "(KService, ns, bootstrapName) \<in> ownedKeys ns name"
  "k \<in> controllerKeys ns i \<Longrightarrow> k \<in> ownedKeys ns name"
  "k \<in> brokerKeys ns i \<Longrightarrow> k \<in> ownedKeys ns name"
  "(KStatefulSet, ns, brokerName i) \<in> ownedKeys ns name"
  by (auto simp: ownedKeys_def)

text \<open>Creating a bucket, or reading the SDK's configuration, leaves the cluster alone.\<close>

definition s3_quiet :: "'w s3_sdk \<Rightarrow> 'w view \<Rightarrow> bool" where
  "s3_quiet S view \<longleftrightarrow> (\<forall>opts w. view (snd (sdk_LoadDefaultConfig S opts w)) = view w)
     \<and> (\<forall>c b w. view (snd (sdk_CreateBucket S c b w)) = view w)"

definition env_laws :: "'w reconciler \<Rightarrow> 'w view \<Rightarrow> bool" where
  "env_laws r view \<longleftrightarrow> kube_laws (r_Client r) view \<and> s3_quiet (r_S3 r) view"

lemma env_lawsD:
  "env_laws r view \<Longrightarrow> kube_laws (r_Client r) view"
  "env_laws r view \<Longrightarrow> s3_quiet (r_S3 r) view"
  "env_laws r view \<Longrightarrow> cond_law (r_Client r)"
  by (auto simp: env_laws_def dest: kube_lawsD(8))

section \<open>The contract\<close>

definition keeps :: "AutoMQ \<Rightarrow> AutoMQ \<Rightarrow> bool" where
  "keeps obj obj' \<longleftrightarrow> mq_meta obj' = mq_meta obj \<and> mq_Spec obj' = mq_Spec obj
     \<and> st_ControllerReplicas (mq_Status obj') = st_ControllerReplicas (mq_Status obj)
     \<and> st_BrokerReplicas (mq_Status obj') = st_BrokerReplicas (mq_Status obj)
     \<and> st_Phase (mq_Status obj') = st_Phase (mq_Status obj)
     \<and> st_ReadyPods (mq_Status obj') = st_ReadyPods (mq_Status obj)
     \<and> st_ControllerAddresses (mq_Status obj') = st_ControllerAddresses (mq_Status obj)"

lemma keeps_refl [simp]: "keeps obj obj"
  by (simp add: keeps_def)

lemma keeps_trans: "keeps a b \<Longrightarrow> keeps b c \<Longrightarrow> keeps a c"
  by (simp add: keeps_def)

lemma keeps_key: "keeps a b \<Longrightarrow> mq_Namespace b = mq_Namespace a \<and> mq_Name b = mq_Name a
    \<and> mq_Generation b = mq_Generation a"
  by (simp add: keeps_def)

abbreviation conditionOf :: "AutoMQ \<Rightarrow> string \<Rightarrow> condition option" where
  "conditionOf obj t \<equiv> find_condition (st_Conditions (mq_Status obj)) t"

text \<open>The stage sets the condition of type \<open>t\<close> and no other.\<close>

definition setsCondition :: "string \<Rightarrow> bool \<Rightarrow> AutoMQ \<Rightarrow> AutoMQ \<Rightarrow> bool" where
  "setsCondition t running obj obj' \<longleftrightarrow>
     (\<exists>c. conditionOf obj' t = Some c \<and> co_ObservedGeneration c = mq_Generation obj
        \<and> (co_Status c = ConditionTrue \<or> co_Status c = ConditionFalse)
        \<and> (\<not> running \<longrightarrow> co_Status c = ConditionFalse))
     \<and> (\<forall>u. u \<noteq> t \<longrightarrow> conditionOf obj' u = conditionOf obj u)
     \<and> (distinct (map co_Type (st_Conditions (mq_Status obj))) \<longrightarrow>
          distinct (map co_Type (st_Conditions (mq_Status obj'))))"

definition stage_ok :: "'w view \<Rightarrow> string \<Rightarrow> 'w stage \<Rightarrow> bool" where
  "stage_ok view t st \<longleftrightarrow> (\<forall>obj w. \<exists>b obj' w'. st obj w = (Val (b, obj'), w')
     \<and> keeps obj obj' \<and> setsCondition t b obj obj'
     \<and> (\<forall>k. k \<notin> ownedKeys (mq_Namespace obj) (mq_Name obj) \<longrightarrow> view w' k = view w k))"

locale pipeline_stage =
  fixes stage :: "'w reconciler \<Rightarrow> ctx \<Rightarrow> 'w stage"
    and ctype :: string
  assumes stage_result: "env_laws r view \<Longrightarrow> \<exists>b obj'. fst (stage r ctx obj w) = Val (b, obj')
      \<and> keeps obj obj' \<and> setsCondition ctype b obj obj'"
    and stage_frame: "env_laws r view \<Longrightarrow> k \<notin> ownedKeys (mq_Namespace obj) (mq_Name obj) \<Longrightarrow>
      view (snd (stage r ctx obj w)) k = view w k"
begin

lemma stage_ok: "env_laws r view \<Longrightarrow> stage_ok view ctype (stage r ctx)"
  unfolding stage_ok_def
proof (intro allI)
  fix obj w
  assume laws: "env_laws r view"
  from stage_result [OF this] obtain b obj' where
    "fst (stage r ctx obj w) = Val (b, obj')" "keeps obj obj'" "setsCondition ctype b obj obj'"
    by blast
  then show "\<exists>b obj' w'. stage r ctx obj w = (Val (b, obj'), w') \<and> keeps obj obj'
      \<and> setsCondition ctype b obj obj'
      \<and> (\<forall>k. k \<notin> ownedKeys (mq_Namespace obj) (mq_Name obj) \<longrightarrow> view w' k = view w k)"
    using stage_frame [OF laws, of _ obj ctx w] by (metis prod.collapse)
qed

end

lemma setCondition_keeps [simp]: "keeps obj (setCondition K obj t s reason m)"
  by (simp add: keeps_def)

lemma setCondition_sets:
  assumes "cond_law K" and "s = ConditionFalse \<or> s = ConditionTrue \<and> running"
  shows "setsCondition t running obj (setCondition K obj t s reason m)"
  using assms
  by (auto simp: setsCondition_def setCondition_def find_set_condition distinct_set_condition)

lemma setCondition_stage:
  assumes "env_laws r view" and "s = ConditionFalse \<or> s = ConditionTrue \<and> running"
  shows "\<exists>b obj'. Val (running, setCondition (r_Client r) obj t s reason m) = Val (b, obj')
      \<and> keeps obj obj' \<and> setsCondition t b obj obj'"
  using setCondition_sets [OF env_lawsD(3) [OF assms(1)] assms(2)] by auto


section \<open>The seven stages\<close>

lemma NewBucket_view:
  "s3_quiet S view \<Longrightarrow> view (snd (NewBucket S cfg w)) = view w"
  by (auto simp: NewBucket_def newS3BucketService_def awsConfig_def s3_quiet_def Let_def
      split: prod.splits option.splits) (metis snd_conv)+

lemma s3Service_view:
  assumes "s3_quiet (r_S3 r) view"
  shows "view (snd (s3Service r ctx obj w)) = view w"
proof -
  obtain cfg where c: "cfg = \<lparr>cfg_Type = ''s3'', cfg_Key = s3_AccessKeyID (spec_S3 (mq_Spec obj)),
      cfg_Secret = s3_SecretAccessKey (spec_S3 (mq_Spec obj)),
      cfg_Region = s3_Region (spec_S3 (mq_Spec obj)), cfg_Endpoint = s3_Endpoint (spec_S3 (mq_Spec obj)),
      cfg_MaxBackoffDelay = None, cfg_MaxRetryAttempts = None\<rparr>" by simp
  obtain sg w1 where 1: "NewBucket (r_S3 r) cfg w = (sg, w1)" by fastforce
  from NewBucket_view [OF assms, of cfg w] have v1: "view w1 = view w" by (simp add: 1)
  show ?thesis
  proof (cases sg)
    case (Inl err)
    then show ?thesis using v1 by (simp add: s3Service_def Let_def 1 flip: c)
  next
    case (Inr s)
    obtain e w2 where 2: "sdk_CreateBucket (r_S3 r) (s3s_client s)
        (s3_Bucket (spec_S3 (mq_Spec obj))) w1 = (e, w2)" by fastforce
    then have "view w2 = view w1" using assms unfolding s3_quiet_def by (metis snd_conv)
    then show ?thesis
      using v1 Inr by (simp add: s3Service_def Let_def 1 MkBucket_def 2 split: option.splits flip: c)
  qed
qed

interpretation stage_s3: pipeline_stage s3Service "''SyncS3ServiceReady''"
proof
  fix r :: "'w reconciler" and view ctx obj w
  assume laws: "env_laws r view"
  show "\<exists>b obj'. fst (s3Service r ctx obj w) = Val (b, obj') \<and> keeps obj obj'
      \<and> setsCondition ''SyncS3ServiceReady'' b obj obj'"
    by (auto simp: s3Service_def Let_def split: prod.splits sum.splits option.splits
        intro!: setCondition_sets [OF env_lawsD(3) [OF laws]])
qed (simp add: s3Service_view env_lawsD(2))

lemma scriptConfigmap_frame:
  assumes "kube_laws (r_Client r) view" and "k \<noteq> (KConfigMap, mq_Namespace obj, mq_Name obj)"
  shows "view (snd (scriptConfigmap r ctx obj w)) k = view w k"
proof -
  have "okey (on_configmap (scriptConfigmap_mutate d) b) = okey b" for d b
    by (cases b) (simp_all add: on_configmap_def scriptConfigmap_mutate_def)
  moreover have "k \<noteq> okey (ObjConfigMap (new_configmap (mq_Namespace obj) (mq_Name obj)))"
    using assms(2) by (simp add: new_configmap_def empty_meta_def)
  ultimately show ?thesis
    using retry_fresh_frame [OF assms(1)]
    by (simp add: scriptConfigmap_def Let_def case_prod_beta split: option.splits)
qed

interpretation stage_configmap: pipeline_stage scriptConfigmap "''SyncConfigmapReady''"
proof
  fix r :: "'w reconciler" and view ctx obj w
  assume laws: "env_laws r view"
  show "\<exists>b obj'. fst (scriptConfigmap r ctx obj w) = Val (b, obj') \<and> keeps obj obj'
      \<and> setsCondition ''SyncConfigmapReady'' b obj obj'"
    by (auto simp: scriptConfigmap_def Let_def split: prod.splits option.splits
        intro!: setCondition_sets [OF env_lawsD(3) [OF laws]])
next
  fix r :: "'w reconciler" and view k ctx obj w
  assume "env_laws r view" and "k \<notin> ownedKeys (mq_Namespace obj) (mq_Name obj)"
  then show "view (snd (scriptConfigmap r ctx obj w)) k = view w k"
    by (intro scriptConfigmap_frame) (auto simp: env_lawsD ownedKeys_def)
qed

lemma scale_result:
  assumes "env_laws r view"
  shows "\<exists>b obj'. fst (syncControllersScale r ctx obj w) = Val (b, obj') \<and> keeps obj obj'
      \<and> setsCondition ''SyncControllerScale'' b obj obj'"
    and "\<exists>b obj'. fst (syncBrokerScale r ctx obj w) = Val (b, obj') \<and> keeps obj obj'
      \<and> setsCondition ''SyncBrokerScale'' b obj obj'"
  by (auto simp: syncControllersScale_def syncBrokerScale_def Let_def
      intro!: setCondition_sets [OF env_lawsD(3) [OF assms]])

lemma syncControllersScale_frame:
  assumes "delete_law (r_Client r) view" and "\<And>i. k \<notin> controllerKeys (mq_Namespace obj) i"
  shows "view (snd (syncControllersScale r ctx obj w)) k = view w k"
  using assms controller_scale.loop_other [OF assms(1)]
  by (simp add: syncControllersScale_def Let_def for_int32_for_int controllerObjects_keys)

lemma syncBrokerScale_frame:
  assumes "delete_law (r_Client r) view" and "\<And>i. k \<notin> brokerKeys (mq_Namespace obj) i"
    and "\<And>i. k \<noteq> (KStatefulSet, mq_Namespace obj, brokerName i)"
  shows "view (snd (syncBrokerScale r ctx obj w)) k = view w k"
proof -
  have "k \<notin> okey ` set (brokerScaleObjects (mq_Namespace obj) i)" for i
    using assms(2) [of i] assms(3) [of i]
    by (auto simp: brokerScaleObjects_def brokerKeys_def empty_meta_def)
  then show ?thesis
    using broker_scale.loop_other [OF assms(1)]
    by (simp add: syncBrokerScale_def Let_def for_int32_for_int)
qed

interpretation stage_controller_scale: pipeline_stage syncControllersScale "''SyncControllerScale''"
proof (unfold_locales, rule scale_result(1), assumption)
  fix r :: "'w reconciler" and view k ctx obj w
  assume "env_laws r view" and "k \<notin> ownedKeys (mq_Namespace obj) (mq_Name obj)"
  then show "view (snd (syncControllersScale r ctx obj w)) k = view w k"
    by (intro syncControllersScale_frame kube_lawsD(4)) (auto dest: env_lawsD ownedKeysI(3))
qed

interpretation stage_broker_scale: pipeline_stage syncBrokerScale "''SyncBrokerScale''"
proof (unfold_locales, rule scale_result(2), assumption)
  fix r :: "'w reconciler" and view k ctx obj w
  assume "env_laws r view" and "k \<notin> ownedKeys (mq_Namespace obj) (mq_Name obj)"
  then show "view (snd (syncBrokerScale r ctx obj w)) k = view w k"
    by (intro syncBrokerScale_frame kube_lawsD(4)) (auto dest: env_lawsD ownedKeysI(4) simp: ownedKeysI(5))
qed


text \<open>The two synchronisation stages, through the loops' own interface.\<close>

lemma sync_result:
  assumes "returns p" and "env_laws r view"
  shows "\<exists>b obj'. fst (go_bind p (\<lambda>res w. case res of
           Some (reason, message) \<Rightarrow>
             (Val (True, setCondition (r_Client r) obj t ConditionFalse reason message), w)
         | None \<Rightarrow> (Val (True, setCondition (r_Client r) obj t ConditionTrue reason' message'), w)))
       = Val (b, obj') \<and> keeps obj obj' \<and> setsCondition t b obj obj'"
proof -
  from assms(1) obtain res w where "p = (Val res, w)" by (rule returnsE)
  then show ?thesis
    by (cases res) (auto split: prod.splits intro!: setCondition_sets [OF env_lawsD(3) [OF assms(2)]])
qed

lemma go_bind_sync_snd:
  assumes "\<And>res w. snd (f res w) = w"
  shows "snd (go_bind p f) = snd p"
  using assms by (cases p; cases "fst p") auto

lemma syncControllers_frame:
  assumes "kube_laws (r_Client r) view" and "\<And>i. k \<notin> controllerKeys (mq_Namespace obj) i"
  shows "view (snd (syncControllers r ctx obj w)) k = view w k"
proof -
  have "snd (syncControllers r ctx obj w) =
      snd (for_ret 0 (sint (cs_Replicas (controllerSpec obj)))
        (\<lambda>i. syncControllers_body r ctx obj (word_of_int i)) w)"
    unfolding syncControllers_def by (rule go_bind_sync_snd) (auto split: option.splits)
  then show ?thesis using controller_sync.loop_frame [OF assms(1)] assms(2) by simp
qed

lemma syncBrokers_frame:
  assumes "kube_laws (r_Client r) view" and "\<And>i. k \<notin> brokerKeys (mq_Namespace obj) i"
  shows "view (snd (syncBrokers r ctx obj w)) k = view w k"
proof -
  have "snd (syncBrokers r ctx obj w) =
      snd (for_ret 0 (sint (bs_Replicas (brokerSpec obj)))
        (\<lambda>i. syncBrokers_body r ctx obj (word_of_int i)) w)"
    unfolding syncBrokers_def by (rule go_bind_sync_snd) (auto split: option.splits)
  then show ?thesis using broker_sync.loop_frame [OF assms(1)] assms(2) by simp
qed

interpretation stage_controllers: pipeline_stage syncControllers "''SyncControllerReady''"
proof
  fix r :: "'w reconciler" and view ctx obj w
  assume laws: "env_laws r view"
  from controller_sync.loop_returns [OF env_lawsD(1) [OF this]]
  show "\<exists>b obj'. fst (syncControllers r ctx obj w) = Val (b, obj') \<and> keeps obj obj'
      \<and> setsCondition ''SyncControllerReady'' b obj obj'"
    unfolding syncControllers_def by (rule sync_result [OF _ laws])
next
  fix r :: "'w reconciler" and view k ctx obj w
  assume "env_laws r view" and "k \<notin> ownedKeys (mq_Namespace obj) (mq_Name obj)"
  then show "view (snd (syncControllers r ctx obj w)) k = view w k"
    by (intro syncControllers_frame) (auto dest: env_lawsD ownedKeysI(3))
qed

interpretation stage_brokers: pipeline_stage syncBrokers "''SyncBrokerReady''"
proof
  fix r :: "'w reconciler" and view ctx obj w
  assume laws: "env_laws r view"
  from broker_sync.loop_returns [OF env_lawsD(1) [OF this]]
  show "\<exists>b obj'. fst (syncBrokers r ctx obj w) = Val (b, obj') \<and> keeps obj obj'
      \<and> setsCondition ''SyncBrokerReady'' b obj obj'"
    unfolding syncBrokers_def by (rule sync_result [OF _ laws])
next
  fix r :: "'w reconciler" and view k ctx obj w
  assume "env_laws r view" and "k \<notin> ownedKeys (mq_Namespace obj) (mq_Name obj)"
  then show "view (snd (syncBrokers r ctx obj w)) k = view w k"
    by (intro syncBrokers_frame) (auto dest: env_lawsD ownedKeysI(4))
qed

lemma keeps_address [simp]:
  "keeps obj (x\<lparr>mq_Status := (mq_Status x)\<lparr>st_BootstrapInternalAddress := a\<rparr>\<rparr>) = keeps obj x"
  by (simp add: keeps_def)

lemma sets_address [simp]:
  "setsCondition t b obj (x\<lparr>mq_Status := (mq_Status x)\<lparr>st_BootstrapInternalAddress := a\<rparr>\<rparr>) =
    setsCondition t b obj x"
  by (simp add: setsCondition_def)

interpretation stage_bootstrap: pipeline_stage syncKafkaBootstrapService "''SyncBootstrapServiceReady''"
proof
  fix r :: "'w reconciler" and view ctx obj w
  assume laws: "env_laws r view"
  show "\<exists>b obj'. fst (syncKafkaBootstrapService r ctx obj w) = Val (b, obj') \<and> keeps obj obj'
      \<and> setsCondition ''SyncBootstrapServiceReady'' b obj obj'"
    by (auto simp: syncKafkaBootstrapService_def Let_def split: prod.splits option.splits
        intro!: setCondition_sets [OF env_lawsD(3) [OF laws]])
next
  fix r :: "'w reconciler" and view k ctx obj w
  assume laws: "env_laws r view" and k: "k \<notin> ownedKeys (mq_Namespace obj) (mq_Name obj)"
  then have "k \<noteq> (KService, mq_Namespace obj, bootstrapName)" by (auto simp: ownedKeys_def)
  then show "view (snd (syncKafkaBootstrapService r ctx obj w)) k = view w k"
    by (simp add: syncKafkaBootstrapService_def Let_def case_prod_beta bootstrapName_def
        retry_cou_frame [OF env_lawsD(1) [OF laws]] split: option.splits)
qed


section \<open>The whole pipeline\<close>

definition stageTypes :: "string list" where
  "stageTypes = [''SyncS3ServiceReady'', ''SyncConfigmapReady'', ''SyncControllerScale'',
     ''SyncControllerReady'', ''SyncBrokerScale'', ''SyncBrokerReady'',
     ''SyncBootstrapServiceReady'']"

text \<open>
  The first \<open>n\<close> stages of those with the types \<open>ts\<close> ran: their conditions are set for the
  current generation, no other condition changed, and if \<open>n\<close> is not all of them the last one
  that ran reports False.
\<close>

definition ranStages :: "string list \<Rightarrow> nat \<Rightarrow> AutoMQ \<Rightarrow> AutoMQ \<Rightarrow> bool" where
  "ranStages ts n obj obj' \<longleftrightarrow> n \<le> length ts
     \<and> (\<forall>t \<in> set (take n ts). \<exists>c. conditionOf obj' t = Some c
          \<and> co_ObservedGeneration c = mq_Generation obj
          \<and> (co_Status c = ConditionTrue \<or> co_Status c = ConditionFalse))
     \<and> (\<forall>u. u \<notin> set (take n ts) \<longrightarrow> conditionOf obj' u = conditionOf obj u)
     \<and> (n < length ts \<longrightarrow> 0 < n
          \<and> (\<exists>c. conditionOf obj' (ts ! (n - 1)) = Some c \<and> co_Status c = ConditionFalse))
     \<and> (distinct (map co_Type (st_Conditions (mq_Status obj))) \<longrightarrow>
          distinct (map co_Type (st_Conditions (mq_Status obj'))))"

lemma ranStages_stop:
  "setsCondition t False obj obj' \<Longrightarrow> ranStages (t # ts) 1 obj obj'"
  by (auto simp: ranStages_def setsCondition_def)

lemma ranStages_Cons:
  assumes first: "setsCondition t True obj obj1" and k: "keeps obj obj1"
    and rest: "ranStages ts n obj1 obj'" and t: "t \<notin> set ts"
  shows "ranStages (t # ts) (Suc n) obj obj'"
proof -
  have t': "t \<notin> set (take n ts)" using t by (meson in_set_takeD)
  then have "conditionOf obj' t = conditionOf obj1 t" using rest by (simp add: ranStages_def)
  moreover have "Suc n < length (t # ts) \<longrightarrow> (t # ts) ! n = ts ! (n - 1)"
    using rest by (auto simp: ranStages_def nth_Cons')
  ultimately show ?thesis
    using first rest keeps_key [OF k] t' by (auto simp: ranStages_def setsCondition_def)
qed

lemma runPipeline_ok:
  assumes "list_all2 (stage_ok view) ts sts" and "distinct ts"
  shows "\<exists>n obj' w'. runPipeline sts obj w = (Val obj', w') \<and> keeps obj obj'
    \<and> ranStages ts n obj obj' \<and> (ts \<noteq> [] \<longrightarrow> 0 < n)
    \<and> (\<forall>k. k \<notin> ownedKeys (mq_Namespace obj) (mq_Name obj) \<longrightarrow> view w' k = view w k)"
  using assms
proof (induction arbitrary: obj w rule: list_all2_induct)
  case Nil
  have "ranStages [] 0 obj obj" by (simp add: ranStages_def)
  then show ?case by auto
next
  case (Cons t ts st sts)
  from Cons.hyps(1) obtain b obj1 w1 where st: "st obj w = (Val (b, obj1), w1)"
    and k1: "keeps obj obj1" and c1: "setsCondition t b obj obj1"
    and f1: "\<And>k. k \<notin> ownedKeys (mq_Namespace obj) (mq_Name obj) \<Longrightarrow> view w1 k = view w k"
    unfolding stage_ok_def by blast
  show ?case
  proof (cases b)
    case False
    with st have run: "runPipeline (st # sts) obj w = (Val obj1, w1)" by simp
    have "ranStages (t # ts) 1 obj obj1" using c1 False ranStages_stop by simp
    with run k1 f1 show ?thesis by (intro exI [of _ "1::nat"] exI [of _ obj1] exI [of _ w1]) simp
  next
    case True
    from Cons.IH Cons.prems obtain n obj' w' where
      run: "runPipeline sts obj1 w1 = (Val obj', w')" and k: "keeps obj1 obj'"
      and r: "ranStages ts n obj1 obj'"
      and f: "\<And>k. k \<notin> ownedKeys (mq_Namespace obj1) (mq_Name obj1) \<Longrightarrow> view w' k = view w1 k"
      by (metis distinct.simps(2))
    have "ranStages (t # ts) (Suc n) obj obj'"
      using ranStages_Cons c1 True k1 r Cons.prems by simp
    moreover have "runPipeline (st # sts) obj w = (Val obj', w')" using st True run by simp
    moreover have "view w' k = view w k" if "k \<notin> ownedKeys (mq_Namespace obj) (mq_Name obj)" for k
      using f [of k] f1 [of k] keeps_key [OF k1] that by simp
    ultimately show ?thesis using keeps_trans [OF k1 k] by blast
  qed
qed

lemma distinct_stageTypes: "distinct stageTypes"
  by (simp add: stageTypes_def)

lemma pipelines_ok:
  assumes "env_laws r view"
  shows "list_all2 (stage_ok view) stageTypes (pipelines r ctx)"
  using stage_s3.stage_ok [OF assms] stage_configmap.stage_ok [OF assms]
    stage_controller_scale.stage_ok [OF assms] stage_controllers.stage_ok [OF assms]
    stage_broker_scale.stage_ok [OF assms] stage_brokers.stage_ok [OF assms]
    stage_bootstrap.stage_ok [OF assms]
  by (simp add: stageTypes_def pipelines_def)

lemma length_pipelines [simp]: "length (pipelines r ctx) = 7"
  by (simp add: pipelines_def)

lemma stage_at:
  assumes "env_laws r view" and "n < 7"
  obtains ifRunning a' w' where "(pipelines r ctx ! n) a w = (Val (ifRunning, a'), w')"
    and "keeps a a'" and "setsCondition (stageTypes ! n) ifRunning a a'"
    and "\<And>k. k \<notin> ownedKeys (mq_Namespace a) (mq_Name a) \<Longrightarrow> view w' k = view w k"
proof -
  have "stage_ok view (stageTypes ! n) (pipelines r ctx ! n)"
    using list_all2_nthD2 [OF pipelines_ok [OF assms(1), of ctx], of n] assms(2) by simp
  with that show thesis unfolding stage_ok_def by blast
qed

lemmas run_pipelines = runPipeline_ok [OF pipelines_ok distinct_stageTypes]

text \<open>The status update at the end of \<open>reconcile\<close>, under the retry loop.\<close>

lemma syncStatus_attempt_frame:
  assumes laws: "kube_laws K view" and k: "k \<noteq> okey (ObjAutoMQ a)"
  shows "view (snd (snd (syncStatus_attempt K a s))) k = view (snd s) k"
proof -
  obtain x w where s: "s = (x, w)" by (cases s)
  obtain e y w1 where g: "k_Get K (ObjectKeyFromObject (ObjAutoMQ a)) (ObjAutoMQ zero_automq) w
      = (e, y, w1)" by (metis prod_cases3)
  note v = get_law_view [OF kube_lawsD(2) [OF laws] g]
  show ?thesis
  proof (cases e)
    case (Some err)
    then show ?thesis by (simp add: syncStatus_attempt_def s g v)
  next
    case None
    from get_law_found [OF kube_lawsD(2) [OF laws] g [unfolded None]]
    have f: "view w (KAutoMQ, ObjectKeyFromObject (ObjAutoMQ a)) = Some y" by simp
    from view_lawD [OF kube_lawsD(1) [OF laws] f] okey_kindE(5) [of y]
    obtain b where b: "y = ObjAutoMQ b" "okey (ObjAutoMQ b) = okey (ObjAutoMQ a)"
      by (auto simp: ObjectKeyFromObject_def)
    let ?o = "ObjAutoMQ (b\<lparr>mq_Status := mq_Status a\<rparr>)"
    have "okey ?o = okey (ObjAutoMQ a)" using b by simp
    with k have "view (snd (snd (k_StatusUpdate K ?o w1))) k = view w1 k"
      using kube_lawsD(5) [OF laws] unfolding update_law_def by (metis prod.collapse)
    then show ?thesis by (simp add: syncStatus_attempt_def s g None b v filled_automq_def)
  qed
qed

lemma syncStatus_frame:
  assumes laws: "kube_laws K view" and k: "k \<noteq> okey (ObjAutoMQ a)"
  shows "view (snd (syncStatus K a w)) k = view w k"
proof -
  have "retry_run (k_IsConflict K) (syncStatus_attempt K a) (ObjAutoMQ zero_automq, w)
      (k_RetryOnConflict K (syncStatus_attempt K a) (ObjAutoMQ zero_automq, w))"
    by (rule retry_law_run [OF laws])
  from retry_run_frame [OF this, of "\<lambda>w. view w k"] syncStatus_attempt_frame [OF laws k]
  show ?thesis by (simp add: syncStatus_def case_prod_beta)
qed

lemma syncStatus_stored:
  assumes laws: "kube_laws K view" and res: "syncStatus K a w = (None, w')"
  shows "\<exists>b. view w' (okey (ObjAutoMQ a)) = Some (ObjAutoMQ b) \<and> mq_Status b = mq_Status a"
proof -
  have "retry_run (k_IsConflict K) (syncStatus_attempt K a) (ObjAutoMQ zero_automq, w)
      (k_RetryOnConflict K (syncStatus_attempt K a) (ObjAutoMQ zero_automq, w))"
    by (rule retry_law_run [OF laws])
  moreover from res obtain x where
    "k_RetryOnConflict K (syncStatus_attempt K a) (ObjAutoMQ zero_automq, w) = (None, x, w')"
    by (auto simp: syncStatus_def split: prod.splits)
  ultimately obtain s where "syncStatus_attempt K a s = (None, x, w')"
    using retry_run_success by fastforce
  then obtain y w0 w1 where
    g: "k_Get K (ObjectKeyFromObject (ObjAutoMQ a)) (ObjAutoMQ zero_automq) w0 = (None, y, w1)"
    and u: "k_StatusUpdate K (ObjAutoMQ ((filled_automq zero_automq y)\<lparr>mq_Status := mq_Status a\<rparr>)) w1
      = (None, x, w')"
    by (cases s) (auto simp: syncStatus_attempt_def Let_def split: prod.splits option.splits)
  from get_law_found [OF kube_lawsD(2) [OF laws] g]
  have f: "view w0 (KAutoMQ, ObjectKeyFromObject (ObjAutoMQ a)) = Some y" by simp
  from view_lawD [OF kube_lawsD(1) [OF laws] f] okey_kindE(5) [of y]
  obtain b where b: "y = ObjAutoMQ b" "okey (ObjAutoMQ b) = okey (ObjAutoMQ a)"
    by (auto simp: ObjectKeyFromObject_def)
  from kube_lawsD(11) [OF laws, unfolded status_law_def, rule_format, OF u] b
  show ?thesis by (auto simp: filled_automq_def)
qed

end
