(* ===== verification/EntryPoint.thy ===== *)
theory EntryPoint
  imports Pipeline
begin

text \<open>
  What a call of \<open>Reconcile\<close> does to the cluster, path by path: the update that adds or removes
  the finalizer, the cleanup of a deleted custom resource, and the reconciliation of a live one.
\<close>

section \<open>The finalizer update\<close>

lemma retryUpdate_run:
  assumes "retry_run conflict (\<lambda>(x, w). k_Update K x w) s r" and laws: "update_law K view"
  shows "(\<forall>k. k \<noteq> okey (fst s) \<longrightarrow> view (snd (snd r)) k = view (snd s) k)
    \<and> (\<exists>w. k_Update K (fst s) w = r)"
  using assms(1)
proof (induction rule: retry_run.induct)
  case (last s r)
  then show ?case
    using laws unfolding update_law_def by (cases s; cases r) (auto split: prod.splits)
next
  case (again s e s' r)
  obtain x w where s: "s = (x, w)" by (cases s)
  obtain y w1 where s': "s' = (y, w1)" by (cases s')
  from again.hyps(1) have "k_Update K x w = (Some e, y, w1)" by (simp add: s s')
  with laws have y: "y = x" and v: "\<forall>k. k \<noteq> okey x \<longrightarrow> view w1 k = view w k"
    unfolding update_law_def by blast+
  from again.IH show ?case unfolding s s' y fst_conv snd_conv using v by metis
qed

lemma retryUpdate_call:
  assumes laws: "kube_laws K view" and res: "retryUpdate K a w = (e, a', w')"
  shows "\<exists>x w1. k_Update K (ObjAutoMQ a) w1 = (e, x, w') \<and> a' = filled_automq a x
    \<and> (\<forall>k. k \<noteq> okey (ObjAutoMQ a) \<longrightarrow> view w' k = view w k)"
proof -
  from res obtain x where
    u: "k_RetryOnConflict K (\<lambda>(x, w). k_Update K x w) (ObjAutoMQ a, w) = (e, x, w')"
    and a': "a' = filled_automq a x"
    by (auto simp: retryUpdate_def Let_def split: prod.splits)
  have "retry_run (k_IsConflict K) (\<lambda>(x, w). k_Update K x w) (ObjAutoMQ a, w) (e, x, w')"
    using kube_lawsD(7) [OF laws] unfolding retry_law_def u [symmetric] by blast
  from retryUpdate_run [OF this kube_lawsD(5) [OF laws]] a' show ?thesis
    by (metis fst_conv snd_conv)
qed

lemma retryUpdate_key:
  assumes laws: "kube_laws K view" and res: "retryUpdate K a w = (e, a', w')"
  shows "mq_Namespace a' = mq_Namespace a" and "mq_Name a' = mq_Name a"
proof -
  from retryUpdate_call [OF assms] obtain x w1 where
    "k_Update K (ObjAutoMQ a) w1 = (e, x, w')" and a': "a' = filled_automq a x" by blast
  with kube_lawsD(5) [OF laws] have x: "okey x = okey (ObjAutoMQ a)"
    unfolding update_law_def by blast
  with okey_kindE(5) [of x] obtain b where "x = ObjAutoMQ b" by auto
  with x a' show "mq_Namespace a' = mq_Namespace a" "mq_Name a' = mq_Name a"
    by (simp_all add: filled_automq_def)
qed

lemma retryUpdate_frame:
  assumes "kube_laws K view" and "k \<noteq> okey (ObjAutoMQ a)"
  shows "view (snd (snd (retryUpdate K a w))) k = view w k"
proof -
  obtain e a' w' where r: "retryUpdate K a w = (e, a', w')" by (cases "retryUpdate K a w")
  from retryUpdate_call [OF assms(1) r] assms(2) show ?thesis unfolding r snd_conv by blast
qed

text \<open>A successful update of an object that is not being deleted stores the finalizers sent.\<close>

lemma retryUpdate_finalizers:
  assumes laws: "kube_laws K view" and res: "retryUpdate K a w = (None, a', w')"
  shows "set (om_Finalizers (mq_meta a')) = set (om_Finalizers (mq_meta a))"
    and "om_DeletionTimestamp (mq_meta a) = None \<Longrightarrow>
      view w' (okey (ObjAutoMQ a)) = Some (ObjAutoMQ a')"
proof -
  from retryUpdate_call [OF assms] obtain x w1 where
    u: "k_Update K (ObjAutoMQ a) w1 = (None, x, w')" and a': "a' = filled_automq a x" by blast
  from kube_lawsD(12) [OF laws, unfolded finalizer_update_law_def, rule_format, OF u]
  obtain b where b: "x = ObjAutoMQ b"
    "set (om_Finalizers (mq_meta b)) = set (om_Finalizers (mq_meta a))"
    "om_DeletionTimestamp (mq_meta a) = None \<longrightarrow> view w' (okey (ObjAutoMQ a)) = Some x"
    by (elim exE conjE)
  with a' have "a' = b" by (simp add: filled_automq_def)
  with b show "set (om_Finalizers (mq_meta a')) = set (om_Finalizers (mq_meta a))"
    and "om_DeletionTimestamp (mq_meta a) = None \<Longrightarrow>
      view w' (okey (ObjAutoMQ a)) = Some (ObjAutoMQ a')"
    by simp_all
qed

section \<open>Cleanup\<close>

lemma cleanController_frame:
  assumes "delete_law K view" and "\<And>i. k \<notin> controllerKeys (mq_Namespace a) i"
  shows "view (snd (cleanController K a w)) k = view w k"
  using assms controller_clean.loop_other [OF assms(1)]
  by (simp add: cleanController_def controllerObjects_keys)

lemma cleanBroker_frame:
  assumes "delete_law K view" and "\<And>i. k \<notin> brokerKeys (mq_Namespace a) i"
    and "k \<noteq> (KService, mq_Namespace a, bootstrapName)"
  shows "view (snd (cleanBroker K a w)) k = view w k"
  using assms broker_clean.loop_other [OF assms(1)]
  by (simp add: cleanBroker_def Let_def ignoring_delete_def delete_other brokerCleanObjects_keys
      bootstrapName_def)

text \<open>The two loops report no error, so \<open>cleanup\<close> always goes on to the config map.\<close>

lemma cleanup_eq:
  "cleanup r a w =
     (let w1 = snd (cleanBroker (r_Client r) a w);
          w2 = snd (cleanController (r_Client r) a w1);
          p = k_Delete (r_Client r) (ObjConfigMap (new_configmap (mq_Namespace a) (mq_Name a))) w2
      in (failing (r_Client r) (fst p), snd p))"
  by (simp add: cleanup_def cleanBroker_def cleanController_def failing_def Let_def case_prod_beta)

lemma cleanup_frame:
  assumes laws: "kube_laws (r_Client r) view"
    and k: "k \<notin> ownedKeys (mq_Namespace a) (mq_Name a)"
  shows "view (snd (cleanup r a w)) k = view w k"
proof -
  have "k \<noteq> okey (ObjConfigMap (new_configmap (mq_Namespace a) (mq_Name a)))"
    using k by (auto simp: ownedKeys_def new_configmap_def empty_meta_def)
  then show ?thesis
    using k kube_lawsD(4) [OF laws]
    by (simp add: cleanup_eq Let_def delete_other cleanController_frame cleanBroker_frame
        ownedKeys_def)
qed

lemma cleanController_none:
  assumes "delete_law K view" "view w k = None"
  shows "view (snd (cleanController K a w)) k = None"
  using controller_clean.loop_none [OF assms] by (simp add: cleanController_def)

lemma cleanBroker_none:
  assumes "delete_law K view" "view w k = None"
  shows "view (snd (cleanBroker K a w)) k = None"
  using broker_clean.loop_none [OF assms]
  by (simp add: cleanBroker_def Let_def ignoring_delete_def delete_none [OF assms(1)])

lemma cleanController_removes:
  assumes "delete_law K view" "deletes_succeed K view"
    and j: "0 \<le> sint j" "sint j < sint (st_ControllerReplicas (mq_Status a))"
    and k: "k \<in> controllerKeys (mq_Namespace a) j"
  shows "view (snd (cleanController K a w)) k = None"
proof -
  from k obtain x where "x \<in> set (controllerCleanObjects (mq_Namespace a) j)" "k = okey x"
    by (metis controllerObjects_keys(2) imageE)
  then show ?thesis
    using controller_clean.loop_removes [OF assms(1,2) j] by (simp add: cleanController_def)
qed

lemma cleanBroker_removes:
  assumes "delete_law K view" "deletes_succeed K view"
    and "sint j < sint (st_BrokerReplicas (mq_Status a)) \<and> 0 \<le> sint j
      \<and> k \<in> brokerKeys (mq_Namespace a) j \<or> k = (KService, mq_Namespace a, bootstrapName)"
  shows "view (snd (cleanBroker K a w)) k = None"
proof -
  let ?svc = "ObjService (new_service (mq_Namespace a) (getAutoMQName (brokerRole @ ''-bootstrap'') None))"
  have svc: "okey ?svc = (KService, mq_Namespace a, bootstrapName)" by (simp add: bootstrapName_def)
  show ?thesis
    using assms(3)
  proof (elim disjE conjE)
    assume j: "0 \<le> sint j" "sint j < sint (st_BrokerReplicas (mq_Status a))"
      and k: "k \<in> brokerKeys (mq_Namespace a) j"
    from k obtain x where "x \<in> set (brokerCleanObjects (mq_Namespace a) j)" "k = okey x"
      by (metis brokerCleanObjects_keys imageE)
    with broker_clean.loop_removes [OF assms(1,2) j] show ?thesis
      by (simp add: cleanBroker_def Let_def ignoring_delete_def delete_none [OF assms(1)])
  next
    assume "k = (KService, mq_Namespace a, bootstrapName)"
    with ignoring_delete_removes [OF assms(1,2), of ?svc] svc show ?thesis
      by (simp add: cleanBroker_def Let_def)
  qed
qed


section \<open>The three paths of \<open>Reconcile\<close>\<close>

definition withFinalizer :: "'w reconciler \<Rightarrow> AutoMQ \<Rightarrow> AutoMQ" where
  "withFinalizer r a =
     setFinalizers (k_AddFinalizer (r_Client r) (om_Finalizers (mq_meta a)) (r_Finalizer r)) a"

definition withoutFinalizer :: "'w reconciler \<Rightarrow> AutoMQ \<Rightarrow> AutoMQ" where
  "withoutFinalizer r a =
     (if k_ContainsFinalizer (r_Client r) (om_Finalizers (mq_meta a)) (r_Finalizer r)
      then setFinalizers (k_RemoveFinalizer (r_Client r) (om_Finalizers (mq_meta a)) (r_Finalizer r)) a
      else a)"

lemma setFinalizers_sel [simp]:
  "mq_Name (setFinalizers fs a) = mq_Name a" "mq_Namespace (setFinalizers fs a) = mq_Namespace a"
  "om_DeletionTimestamp (mq_meta (setFinalizers fs a)) = om_DeletionTimestamp (mq_meta a)"
  "om_Finalizers (mq_meta (setFinalizers fs a)) = fs"
  "mq_Spec (setFinalizers fs a) = mq_Spec a" "mq_Status (setFinalizers fs a) = mq_Status a"
  by (simp_all add: setFinalizers_def)

lemma withFinalizer_sel [simp]:
  "mq_Name (withFinalizer r a) = mq_Name a" "mq_Namespace (withFinalizer r a) = mq_Namespace a"
  "om_DeletionTimestamp (mq_meta (withFinalizer r a)) = om_DeletionTimestamp (mq_meta a)"
  "mq_Spec (withFinalizer r a) = mq_Spec a"
  "mq_Name (withoutFinalizer r a) = mq_Name a" "mq_Namespace (withoutFinalizer r a) = mq_Namespace a"
  by (simp_all add: withFinalizer_def withoutFinalizer_def)

lemma Reconcile_failed_get:
  assumes "k_Get (r_Client r) req (ObjAutoMQ zero_automq) w = (Some e, x, w1)"
  shows "Reconcile r ctx req w = (Val (k_IgnoreNotFound (r_Client r) e, False), w1)"
  by (simp add: Reconcile_def startReconcile_def assms)

lemma Reconcile_deleted:
  assumes "k_Get (r_Client r) req (ObjAutoMQ zero_automq) w = (None, ObjAutoMQ a, w1)"
    and "\<not> time_IsZero (om_DeletionTimestamp (mq_meta a))"
  shows "Reconcile r ctx req w =
    (case cleanup r a w1 of
       (Some e, w2) \<Rightarrow> (Val (Some e, False), w2)
     | (None, w2) \<Rightarrow> (case retryUpdate (r_Client r) (withoutFinalizer r a) w2 of
         (e, b, w3) \<Rightarrow> (Val (e, False), w3)))"
proof -
  have "om_DeletionTimestamp (mq_meta a) \<noteq> None"
    using assms(2) by (cases "om_DeletionTimestamp (mq_meta a)") (simp_all add: time_IsZero_def)
  then show ?thesis
    using assms by (simp add: Reconcile_def startReconcile_def Let_def filled_automq_def withoutFinalizer_def
        doFinalizerOperationsForSetting_def split: prod.splits option.splits)
qed

lemma Reconcile_live:
  assumes "k_Get (r_Client r) req (ObjAutoMQ zero_automq) w = (None, ObjAutoMQ a, w1)"
    and "time_IsZero (om_DeletionTimestamp (mq_meta a))"
  shows "Reconcile r ctx req w =
    (case retryUpdate (r_Client r) (withFinalizer r a) w1 of
       (Some e, b, w2) \<Rightarrow> (Val (Some e, True), w2)
     | (None, b, w2) \<Rightarrow>
         go_bind (reconcile r ctx (ObjAutoMQ b) w2) (\<lambda>err w. (Val (err, True), w)))"
  using assms by (simp add: Reconcile_def startReconcile_def Let_def filled_automq_def withFinalizer_def
      split: prod.splits option.splits)

text \<open>What the first \<open>Get\<close> can return.\<close>

lemma first_get:
  assumes laws: "kube_laws (r_Client r) view"
  obtains (error) e x w1 where
    "k_Get (r_Client r) req (ObjAutoMQ zero_automq) w = (Some e, x, w1)" "view w1 = view w"
  | (found) a w1 where
    "k_Get (r_Client r) req (ObjAutoMQ zero_automq) w = (None, ObjAutoMQ a, w1)" "view w1 = view w"
    "view w (KAutoMQ, req) = Some (ObjAutoMQ a)" "(mq_Namespace a, mq_Name a) = req"
proof -
  obtain e x w1 where g: "k_Get (r_Client r) req (ObjAutoMQ zero_automq) w = (e, x, w1)"
    by (metis prod_cases3)
  note v = get_law_view [OF kube_lawsD(2) [OF laws] g]
  show thesis
  proof (cases e)
    case (Some err)
    with g v error show thesis by simp
  next
    case None
    from get_law_found [OF kube_lawsD(2) [OF laws] g [unfolded None]]
    have f: "view w (KAutoMQ, req) = Some x" by simp
    from view_lawD [OF kube_lawsD(1) [OF laws] f] okey_kindE(5) [of x]
    obtain a where "x = ObjAutoMQ a" "(mq_Namespace a, mq_Name a) = req" by auto
    with g None v f found show thesis by simp
  qed
qed

section \<open>Starting a reconciliation\<close>

lemma startReconcile_started:
  assumes laws: "kube_laws (r_Client r) view" and res: "startReconcile r req w = (Inr b, w')"
  shows "\<exists>a w1. view w (KAutoMQ, req) = Some (ObjAutoMQ a) \<and> (mq_Namespace a, mq_Name a) = req
    \<and> view w1 = view w \<and> retryUpdate (r_Client r) (withFinalizer r a) w1 = (None, b, w')"
  using laws
proof (cases rule: first_get [of r view req w])
  case (error e x w1)
  with res show ?thesis by (simp add: startReconcile_def)
next
  case (found a w1)
  with res have "retryUpdate (r_Client r) (withFinalizer r a) w1 = (None, b, w')"
    by (auto simp: startReconcile_def filled_automq_def Let_def withFinalizer_def
        split: prod.splits option.splits if_splits)
  with found show ?thesis by blast
qed

lemma startReconcile_key:
  assumes "kube_laws (r_Client r) view" and "startReconcile r req w = (Inr b, w')"
  shows "okey (ObjAutoMQ b) = (KAutoMQ, req)"
proof -
  from startReconcile_started [OF assms] obtain a w1 where "(mq_Namespace a, mq_Name a) = req"
    "retryUpdate (r_Client r) (withFinalizer r a) w1 = (None, b, w')" by blast
  with retryUpdate_key [OF assms(1) this(2)] show ?thesis by auto
qed

text \<open>A custom resource that is not stored is not reconciled, and the cluster stays as it is.\<close>

lemma startReconcile_gone:
  assumes laws: "kube_laws (r_Client r) view" and "view w (KAutoMQ, req) = None"
  shows "\<exists>e w'. startReconcile r req w = (Inl (e, False), w') \<and> view w' = view w"
  using laws
proof (cases rule: first_get [of r view req w])
  case (error e x w1)
  then show ?thesis by (simp add: startReconcile_def)
next
  case (found a w1)
  with assms(2) show ?thesis by simp
qed

section \<open>One reconciliation\<close>

lemma ownedKeys_not_AutoMQ: "(KAutoMQ, x) \<notin> ownedKeys ns name"
  by (auto simp: ownedKeys_def controllerKeys_def brokerKeys_def)

lemma setAddresses_keeps [simp]:
  "mq_meta (setAddresses a) = mq_meta a" "mq_Spec (setAddresses a) = mq_Spec a"
  "st_Conditions (mq_Status (setAddresses a)) = st_Conditions (mq_Status a)"
  "st_ControllerAddresses (mq_Status (setAddresses a)) = controllerVoters a"
  by (simp_all add: setAddresses_def)

lemma recordReplicas_sel [simp]:
  "mq_meta (recordReplicas a) = mq_meta a" "mq_Spec (recordReplicas a) = mq_Spec a"
  "st_Conditions (mq_Status (recordReplicas a)) = st_Conditions (mq_Status a)"
  "st_ControllerAddresses (mq_Status (recordReplicas a)) = st_ControllerAddresses (mq_Status a)"
  "st_ControllerReplicas (mq_Status (recordReplicas a)) = cs_Replicas (controllerSpec a)"
  "st_BrokerReplicas (mq_Status (recordReplicas a)) = bs_Replicas (brokerSpec a)"
  by (simp_all add: recordReplicas_def)

lemma reconcile_Val_iff:
  "reconcile r ctx (ObjAutoMQ a) w = (Val e, w') \<longleftrightarrow>
     (\<exists>b w1. runPipeline (pipelines r ctx) (setAddresses a) w = (Val b, w1)
        \<and> syncStatus (r_Client r) (recordReplicas b) w1 = (e, w'))"
  by (simp add: reconcile_def go_bind_Val_iff case_prod_beta) (metis prod.collapse fst_conv snd_conv)

lemma ranStages_setAddresses [simp]:
  "ranStages ts n (setAddresses a) b = ranStages ts n a b"
  by (simp add: ranStages_def)

text \<open>The status that a reconciliation writes: after \<open>n\<close> stages.\<close>

definition reconciledStatus :: "AutoMQ \<Rightarrow> nat \<Rightarrow> AutoMQ \<Rightarrow> bool" where
  "reconciledStatus a n b \<longleftrightarrow> 0 < n \<and> ranStages stageTypes n a b
     \<and> st_ControllerReplicas (mq_Status b) = cs_Replicas (controllerSpec a)
     \<and> st_BrokerReplicas (mq_Status b) = bs_Replicas (brokerSpec a)
     \<and> st_ControllerAddresses (mq_Status b) = controllerVoters a"

lemma reconcile_result:
  assumes laws: "env_laws r view"
  obtains e w' where "reconcile r ctx (ObjAutoMQ a) w = (Val e, w')"
    and "\<And>k. k \<notin> ownedKeys (mq_Namespace a) (mq_Name a) \<Longrightarrow> k \<noteq> okey (ObjAutoMQ a) \<Longrightarrow>
      view w' k = view w k"
    and "e = None \<Longrightarrow> \<exists>n b. view w' (okey (ObjAutoMQ a)) = Some (ObjAutoMQ b)
      \<and> reconciledStatus a n b"
proof -
  note K = env_lawsD(1) [OF laws]
  from run_pipelines [OF laws, of ctx "setAddresses a" w] obtain n b w1 where
    run: "runPipeline (pipelines r ctx) (setAddresses a) w = (Val b, w1)"
    and k: "keeps (setAddresses a) b" and rs: "ranStages stageTypes n a b" and n: "0 < n"
    and f: "\<And>k. k \<notin> ownedKeys (mq_Namespace a) (mq_Name a) \<Longrightarrow> view w1 k = view w k"
    by (auto simp: stageTypes_def simp del: split_paired_All)
  obtain e w' where st: "syncStatus (r_Client r) (recordReplicas b) w1 = (e, w')" by fastforce
  have key: "okey (ObjAutoMQ (recordReplicas b)) = okey (ObjAutoMQ a)"
    using k by (simp add: keeps_def)
  show thesis
  proof (rule that)
    show "reconcile r ctx (ObjAutoMQ a) w = (Val e, w')"
      by (simp add: reconcile_def run st)
    show "view w' k = view w k"
      if "k \<notin> ownedKeys (mq_Namespace a) (mq_Name a)" "k \<noteq> okey (ObjAutoMQ a)" for k
      using f that syncStatus_frame [OF K, of k "recordReplicas b" w1] key by (simp add: st)
    assume "e = None"
    with syncStatus_stored [OF K, of "recordReplicas b" w1 w'] st key obtain c where
      "view w' (okey (ObjAutoMQ a)) = Some (ObjAutoMQ c)"
      and "mq_Status c = mq_Status (recordReplicas b)" by auto
    moreover from this(2) rs k n have "reconciledStatus a n c"
      by (simp add: reconciledStatus_def ranStages_def keeps_def)
    ultimately show "\<exists>n b. view w' (okey (ObjAutoMQ a)) = Some (ObjAutoMQ b)
        \<and> reconciledStatus a n b" by blast
  qed
qed

end
