(* ===== verification/Healthy.thy ===== *)
theory Healthy
  imports EntryPoint
begin

text \<open>
  Surroundings in which no call fails, as hypotheses on the parameters of the model: the API
  server answers and accepts what it is sent, the object store accepts the bucket or has it
  already. There every stage reports True, so that no reconciliation stops half way.
\<close>

section \<open>A server that answers\<close>

text \<open>
  A server that answers: an existing object is read, and a status update of an object as it is
  stored goes through.
\<close>

definition responsive :: "'w kube \<Rightarrow> 'w view \<Rightarrow> bool" where
  "responsive K view \<longleftrightarrow>
     (\<forall>key x w. view w (obj_kind x, key) \<noteq> None \<longrightarrow> fst (k_Get K key x w) = None)
   \<and> (\<forall>a c w. view w (okey (ObjAutoMQ a)) = Some (ObjAutoMQ c) \<and> mq_meta a = mq_meta c \<longrightarrow>
        fst (k_StatusUpdate K (ObjAutoMQ a) w) = None)"

lemma retry_run_first: "retry_run conflict f s r \<Longrightarrow> fst (f s) = None \<Longrightarrow> r = f s"
  by (induction rule: retry_run.induct) auto

lemma syncStatus_first:
  assumes laws: "kube_laws K view" and resp: "responsive K view"
    and v: "view w (okey (ObjAutoMQ a)) = Some (ObjAutoMQ c)"
  shows "\<exists>w1 w'. syncStatus K a w = (None, w') \<and> view w1 = view w
    \<and> (\<exists>y. k_StatusUpdate K (ObjAutoMQ (c\<lparr>mq_Status := mq_Status a\<rparr>)) w1 = (None, y, w'))"
proof -
  obtain e x w1 where g: "k_Get K (ObjectKeyFromObject (ObjAutoMQ a)) (ObjAutoMQ zero_automq) w
      = (e, x, w1)" by (metis prod_cases3)
  have key: "(KAutoMQ, ObjectKeyFromObject (ObjAutoMQ a)) = okey (ObjAutoMQ a)"
    by (simp add: ObjectKeyFromObject_def)
  then have e: "e = None"
    using resp [unfolded responsive_def, THEN conjunct1, rule_format,
        of w "ObjAutoMQ zero_automq" "ObjectKeyFromObject (ObjAutoMQ a)"] v g by simp
  have x: "x = ObjAutoMQ c"
    using get_law_found [OF kube_lawsD(2) [OF laws] g [unfolded e]] v key by simp
  have v1: "view w1 = view w" by (rule get_law_view [OF kube_lawsD(2) [OF laws] g])
  let ?o = "c\<lparr>mq_Status := mq_Status a\<rparr>"
  have "okey (ObjAutoMQ ?o) = okey (ObjAutoMQ a)"
    using view_lawD [OF kube_lawsD(1) [OF laws] v] by simp
  then have "view w1 (okey (ObjAutoMQ ?o)) = Some (ObjAutoMQ c)" using v v1 by simp
  then have "fst (k_StatusUpdate K (ObjAutoMQ ?o) w1) = None"
    using resp [unfolded responsive_def, THEN conjunct2, rule_format, of w1 ?o c] by simp
  then obtain y w' where u: "k_StatusUpdate K (ObjAutoMQ ?o) w1 = (None, y, w')"
    by (metis prod.collapse)
  let ?attempt = "syncStatus_attempt K a" and ?s = "(ObjAutoMQ zero_automq, w)"
  have "?attempt ?s = (None, y, w')"
    by (simp add: syncStatus_attempt_def g e x filled_automq_def u)
  moreover have "retry_run (k_IsConflict K) ?attempt ?s (k_RetryOnConflict K ?attempt ?s)"
    by (rule retry_law_run [OF laws])
  ultimately have "k_RetryOnConflict K ?attempt ?s = (None, y, w')"
    using retry_run_first by (metis fst_conv)
  then have "syncStatus K a w = (None, w')" by (simp add: syncStatus_def)
  with v1 u show ?thesis by blast
qed

lemma syncStatus_responsive:
  assumes "kube_laws K view" and "responsive K view"
    and "view w (okey (ObjAutoMQ a)) = Some (ObjAutoMQ c)"
  shows "\<exists>w'. syncStatus K a w = (None, w')"
  using syncStatus_first [OF assms] by blast

text \<open>
  A server that also accepts every object it is asked to create or update, and an object store
  that makes the bucket or has it already.
\<close>

definition accepting :: "'w kube \<Rightarrow> bool" where
  "accepting K \<longleftrightarrow> (\<forall>x f w. (\<forall>b. okey (f b) = okey b) \<longrightarrow> fst (k_CreateOrUpdate K x f w) = None)"

definition bucketMade :: "'w s3_sdk \<Rightarrow> bool" where
  "bucketMade S \<longleftrightarrow> (\<forall>opts w. fst (sdk_LoadDefaultConfig S opts w) = None)
     \<and> (\<forall>c b w. case fst (sdk_CreateBucket S c b w) of None \<Rightarrow> True
          | Some e \<Rightarrow> contains (err_text e) ''BucketAlready'')"

definition healthy :: "'w reconciler \<Rightarrow> 'w view \<Rightarrow> bool" where
  "healthy r view \<longleftrightarrow> responsive (r_Client r) view \<and> accepting (r_Client r) \<and> bucketMade (r_S3 r)"

lemma accepting_retry:
  assumes "retry_law K" and "accepting K" and "\<And>b. okey (f b) = okey b"
  shows "fst (retry_create_or_update K f x w) = None"
    and "fst (retry_fresh_create_or_update K f x w) = None"
proof -
  have acc: "fst (k_CreateOrUpdate K x f w) = None"
    using assms(2,3) by (simp add: accepting_def)
  have run: "retry_run (k_IsConflict K) g s (k_RetryOnConflict K g s)" for g :: "'a attempt" and s
    using assms(1) unfolding retry_law_def by blast
  show "fst (retry_create_or_update K f x w) = None"
    unfolding retry_create_or_update_def
    using retry_run_first [OF run, of "\<lambda>(x, w). k_CreateOrUpdate K x f w" "(x, w)"] acc by simp
  show "fst (retry_fresh_create_or_update K f x w) = None"
    unfolding retry_fresh_create_or_update_def
    using retry_run_first [OF run, of "\<lambda>(_, w). k_CreateOrUpdate K x f w" "(x, w)"] acc by simp
qed

section \<open>Every stage reports True\<close>

lemma conditions_differ [simp]:
  "ConditionTrue \<noteq> ConditionFalse" "ConditionFalse \<noteq> ConditionTrue"
  by (simp_all add: ConditionTrue_def ConditionFalse_def)

definition conditionStatus :: "AutoMQ \<Rightarrow> string \<Rightarrow> string option" where
  "conditionStatus obj t = map_option co_Status (conditionOf obj t)"

lemma conditionStatus_set:
  "cond_law K \<Longrightarrow> conditionStatus (setCondition K obj t s reason m) u =
    (if u = t then Some s else conditionStatus obj u)"
  by (simp add: conditionStatus_def setCondition_def find_set_condition)

lemma conditionStatus_address [simp]:
  "conditionStatus (x\<lparr>mq_Status := (mq_Status x)\<lparr>st_BootstrapInternalAddress := u\<rparr>\<rparr>) t =
    conditionStatus x t"
  by (simp add: conditionStatus_def)

lemma for_ret_all_None:
  assumes "\<And>i s. fst (body i s) = Val None"
  shows "\<exists>t. for_ret lo hi body s = (Val None, t)"
  using assms
proof (induction lo hi body s rule: for_ret.induct)
  case (1 lo hi body s)
  show ?case
  proof (cases "lo < hi")
    case True
    obtain s' where b: "body lo s = (Val None, s')"
      using "1.prems" [of lo s] by (cases "body lo s") simp
    have "\<exists>t. for_ret (lo + 1) hi body s' = (Val None, t)"
      using "1.IH" [OF True b [symmetric] refl refl] "1.prems" by simp
    with True b show ?thesis by (subst for_ret.simps) simp
  qed simp
qed

definition stageTrue :: "string \<Rightarrow> 'w stage \<Rightarrow> bool" where
  "stageTrue t st \<longleftrightarrow> (\<forall>obj w. \<exists>obj' w'. st obj w = (Val (True, obj'), w')
     \<and> conditionStatus obj' t = Some ConditionTrue)"

lemma healthy_syncControllers_body:
  assumes laws: "kube_laws (r_Client r) view" and acc: "accepting (r_Client r)"
  shows "fst (syncControllers_body r ctx obj i w) = Val None"
proof -
  note ok = accepting_retry(1) [OF kube_lawsD(7) [OF laws] acc]
  show ?thesis
    by (simp add: syncControllers_body_def syncControllerPVC_def syncControllerDeploy_def
        syncControllerService_def Let_def case_prod_beta ok)
qed

lemma healthy_syncBrokers_body:
  assumes laws: "kube_laws (r_Client r) view" and acc: "accepting (r_Client r)"
    and resp: "responsive (r_Client r) view"
  shows "fst (syncBrokers_body r ctx obj i w) = Val None"
proof -
  note ok = accepting_retry(1) [OF kube_lawsD(7) [OF laws] acc]
  obtain w1 where 1: "syncBrokerPVC r obj i w = (None, w1)"
    by (simp add: syncBrokerPVC_def Let_def case_prod_beta ok)
  obtain w2 where 2: "syncBrokerService r obj i w1 = (None, w2)"
    by (simp add: syncBrokerService_def Let_def case_prod_beta ok)
  let ?svc = "ObjService (new_service (mq_Namespace obj) (brokerName i))"
  from syncBrokerService_good [OF laws 2] obtain s where
    s: "view w2 (KService, mq_Namespace obj, brokerName i) = Some (ObjService s)"
    and p: "svc_Ports s \<noteq> []" by (fastforce simp: brokerServiceGood_def)
  obtain e x w3 where g: "k_Get (r_Client r) (ObjectKeyFromObject ?svc) ?svc w2 = (e, x, w3)"
    by (metis prod_cases3)
  have e: "e = None"
    using resp [unfolded responsive_def, THEN conjunct1, rule_format, of w2 ?svc "ObjectKeyFromObject ?svc"]
      s g by (simp add: ObjectKeyFromObject_def)
  have "x = ObjService s"
    using get_law_found [OF kube_lawsD(2) [OF laws] g [unfolded e]] s
    by (simp add: ObjectKeyFromObject_def)
  with g e p have "fst (syncBrokerDeploy r ctx obj i w2) = Val None"
    by (cases "svc_Ports s") (auto simp: syncBrokerDeploy_def Let_def filled_service_def
        case_prod_beta ok)
  then show ?thesis
    by (cases "syncBrokerDeploy r ctx obj i w2") (simp add: syncBrokers_body_def 1 2)
qed

lemma bucketMade_NewBucket:
  assumes "bucketMade S" and "cfg_Type cfg = ''s3''"
  obtains sg w' where "NewBucket S cfg w = (Inr sg, w')"
proof -
  have "\<exists>sg w'. newS3BucketService S c w = (Inr sg, w')" for c
    using assms(1) by (simp add: newS3BucketService_def awsConfig_def bucketMade_def Let_def
        case_prod_beta)
  then show thesis
    using assms(2) that by (cases "hasPrefix (cfg_Endpoint cfg) ''http''")
      (auto simp: NewBucket_def Let_def)
qed

lemma healthy_s3Service:
  assumes laws: "cond_law (r_Client r)" and s3: "bucketMade (r_S3 r)"
  shows "stageTrue ''SyncS3ServiceReady'' (s3Service r ctx)"
  unfolding stageTrue_def
proof (intro allI)
  fix obj :: AutoMQ and w
  let ?s3 = "spec_S3 (mq_Spec obj)"
  let ?cfg = "\<lparr>cfg_Type = ''s3'', cfg_Key = s3_AccessKeyID ?s3, cfg_Secret = s3_SecretAccessKey ?s3,
    cfg_Region = s3_Region ?s3, cfg_Endpoint = s3_Endpoint ?s3,
    cfg_MaxBackoffDelay = None, cfg_MaxRetryAttempts = None\<rparr>"
  obtain sg w1 where new: "NewBucket (r_S3 r) ?cfg w = (Inr sg, w1)"
    by (rule bucketMade_NewBucket [OF s3, of ?cfg w]) simp_all
  obtain e w2 where mk: "MkBucket (r_S3 r) sg (s3_Bucket ?s3) w1 = (e, w2)" by fastforce
  then have "case e of None \<Rightarrow> True | Some e \<Rightarrow> contains (err_text e) ''BucketAlready''"
    using s3 unfolding bucketMade_def MkBucket_def by (metis fst_conv)
  with new mk show "\<exists>obj' w'. s3Service r ctx obj w = (Val (True, obj'), w')
      \<and> conditionStatus obj' ''SyncS3ServiceReady'' = Some ConditionTrue"
    by (cases e) (simp_all add: s3Service_def Let_def conditionStatus_set [OF laws])
qed

lemma healthy_scriptConfigmap:
  assumes laws: "kube_laws (r_Client r) view" and acc: "accepting (r_Client r)"
  shows "stageTrue ''SyncConfigmapReady'' (scriptConfigmap r ctx)"
  unfolding stageTrue_def
proof (intro allI)
  fix obj :: AutoMQ and w
  let ?f = "on_configmap (scriptConfigmap_mutate (r_UpSh r))"
  have "okey (?f x) = okey x" for x
    by (cases x) (simp_all add: on_configmap_def scriptConfigmap_mutate_def)
  from accepting_retry(2) [OF kube_lawsD(7) [OF laws] acc this] obtain y w' where
    "retry_fresh_create_or_update (r_Client r) ?f
      (ObjConfigMap (new_configmap (mq_Namespace obj) (mq_Name obj))) w = (None, y, w')"
    by (metis prod.collapse)
  then show "\<exists>obj' w'. scriptConfigmap r ctx obj w = (Val (True, obj'), w')
      \<and> conditionStatus obj' ''SyncConfigmapReady'' = Some ConditionTrue"
    by (simp add: scriptConfigmap_def Let_def conditionStatus_set [OF kube_lawsD(8) [OF laws]])
qed

lemma healthy_syncControllers:
  assumes laws: "kube_laws (r_Client r) view" and acc: "accepting (r_Client r)"
  shows "\<exists>w'. syncControllers r ctx obj w =
    (Val (True, setCondition (r_Client r) obj ''SyncControllerReady'' ConditionTrue
       ''ControllerReconciling'' (success_message ''Controller resource'' obj
          ''has been created or update'')), w')"
proof -
  have "\<exists>w'. for_ret 0 (sint (cs_Replicas (controllerSpec obj)))
      (\<lambda>i. syncControllers_body r ctx obj (word_of_int i)) w = (Val None, w')"
    by (rule for_ret_all_None) (rule healthy_syncControllers_body [OF laws acc])
  then show ?thesis by (auto simp: syncControllers_def)
qed

lemma healthy_syncBrokers:
  assumes laws: "kube_laws (r_Client r) view" and acc: "accepting (r_Client r)"
    and resp: "responsive (r_Client r) view"
  shows "\<exists>w'. syncBrokers r ctx obj w =
    (Val (True, setCondition (r_Client r) obj ''SyncBrokerReady'' ConditionTrue
       ''BrokerReconciling'' (success_message ''Broker resource'' obj
          ''has been created or update'')), w')"
proof -
  have "\<exists>w'. for_ret 0 (sint (bs_Replicas (brokerSpec obj)))
      (\<lambda>i. syncBrokers_body r ctx obj (word_of_int i)) w = (Val None, w')"
    by (rule for_ret_all_None) (rule healthy_syncBrokers_body [OF laws acc resp])
  then show ?thesis by (auto simp: syncBrokers_def)
qed

lemma healthy_stages:
  assumes laws: "env_laws r view" and h: "healthy r view"
  shows "list_all2 stageTrue stageTypes (pipelines r ctx)"
proof -
  note K = env_lawsD(1) [OF laws]
  note cond = conditionStatus_set [OF kube_lawsD(8) [OF K]]
  from h have resp: "responsive (r_Client r) view" and acc: "accepting (r_Client r)"
    and s3: "bucketMade (r_S3 r)" by (simp_all add: healthy_def)
  have "stageTrue ''SyncControllerScale'' (syncControllersScale r ctx)"
    "stageTrue ''SyncBrokerScale'' (syncBrokerScale r ctx)"
    by (simp_all add: stageTrue_def syncControllersScale_def syncBrokerScale_def Let_def cond)
  moreover have "stageTrue ''SyncControllerReady'' (syncControllers r ctx)"
    unfolding stageTrue_def using healthy_syncControllers [OF K acc, of ctx] cond by metis
  moreover have "stageTrue ''SyncBrokerReady'' (syncBrokers r ctx)"
    unfolding stageTrue_def using healthy_syncBrokers [OF K acc resp, of ctx] cond by metis
  moreover have "stageTrue ''SyncBootstrapServiceReady'' (syncKafkaBootstrapService r ctx)"
    by (simp add: stageTrue_def syncKafkaBootstrapService_def Let_def case_prod_beta cond
        accepting_retry(1) [OF kube_lawsD(7) [OF K] acc])
  ultimately show ?thesis
    using healthy_s3Service [OF kube_lawsD(8) [OF K] s3] healthy_scriptConfigmap [OF K acc]
    by (simp add: stageTypes_def pipelines_def)
qed

lemma runPipeline_True:
  assumes "list_all2 (stage_ok view) ts sts" and "list_all2 stageTrue ts sts" and "distinct ts"
  shows "\<exists>b w'. runPipeline sts a w = (Val b, w')
    \<and> (\<forall>t \<in> set ts. conditionStatus b t = Some ConditionTrue)"
  using assms
proof (induction arbitrary: a w rule: list_all2_induct)
  case Nil
  then show ?case by simp
next
  case (Cons t ts st sts)
  have "stageTrue t st" and sts: "list_all2 stageTrue ts sts" and ts: "distinct ts" "t \<notin> set ts"
    using Cons.prems by simp_all
  from this(1) obtain a1 w1 where st: "st a w = (Val (True, a1), w1)"
    "conditionStatus a1 t = Some ConditionTrue"
    unfolding stageTrue_def by (elim allE [of _ a] allE [of _ w] exE conjE) (rule that)
  from Cons.IH [OF sts ts(1), of a1 w1] obtain b w' where rest:
    "runPipeline sts a1 w1 = (Val b, w')"
    "\<forall>t \<in> set ts. conditionStatus b t = Some ConditionTrue" by (elim exE conjE) (rule that)
  from runPipeline_ok [OF Cons.hyps(2) ts(1), of a1 w1] rest(1) obtain n where
    "ranStages ts n a1 b" by auto
  with ts(2) have "conditionOf b t = conditionOf a1 t"
    unfolding ranStages_def by (meson in_set_takeD)
  with st rest show ?case by (simp add: conditionStatus_def)
qed


end
