(* ===== verification/MemOperator.thy ===== *)
theory MemOperator
  imports Healthy
begin

text \<open>
  An operator on the in-memory cluster of \<^theory_text>\<open>MemCluster\<close>, with an object store that answers
  every call, and a sample custom resource: the inputs of the witnesses. Models no part of the
  repository.
\<close>

definition memS3 :: "goerror option \<Rightarrow> mem s3_sdk" where
  "memS3 e = \<lparr>sdk_LoadDefaultConfig = \<lambda>opts w. (None, w),
     sdk_CreateBucket = \<lambda>c b w. (e, w), sdk_DeleteBucket = \<lambda>c b w. (None, w),
     sdk_HeadObject = \<lambda>c b k w. (None, w), sdk_DeleteObject = \<lambda>c b k w. (None, w),
     sdk_PutObject = \<lambda>c b k d m w. (None, w), sdk_GetObject = \<lambda>c b k w. (Inr 0, w),
     sdk_ReadAll = \<lambda>b w. (Inr ''data'', w), sdk_Close = \<lambda>b w. w,
     sdk_ListObjects = \<lambda>c b p d w. (Inr \<lparr>lr_Contents = [Some ''a'', Some ''b''],
        lr_CommonPrefixes = [Some ''p/'']\<rparr>, w),
     sdk_ListBuckets = \<lambda>c w. (Inr [Some ''ko3''], w)\<rparr>"

definition memOperator :: "goerror option \<Rightarrow> deny \<Rightarrow> mem reconciler" where
  "memOperator e deny = \<lparr>r_Client = mem_kube deny, r_Finalizer = ''automq/finalizer'',
     r_MountTZ = False, r_S3 = memS3 e, r_Getenv = (\<lambda>_. ''10.0.0.1''), r_UpSh = ''#!/bin/bash''\<rparr>"

abbreviation allow :: deny where "allow \<equiv> \<lambda>_. None"

definition sampleSpec :: AutoMQSpec where
  "sampleSpec = zero_spec
     \<lparr>spec_S3 := (spec_S3 zero_spec)\<lparr>s3_Endpoint := ''minio:9000'', s3_Region := ''us-east-1'',
        s3_Bucket := ''ko3''\<rparr>,
      spec_ClusterID := ''rZdE0DjZSrqy96PXrMUZVw'', spec_Image := DefaultImageName,
      spec_Controller := (spec_Controller zero_spec)\<lparr>cs_Replicas := 1, cs_JVMOptions := Some [''-Xmx1g'']\<rparr>,
      spec_Broker := (spec_Broker zero_spec)\<lparr>bs_Replicas := 1, bs_JVMOptions := Some [''-Xmx1g'']\<rparr>\<rparr>"

definition sample :: "string \<Rightarrow> AutoMQ" where
  "sample n = \<lparr>mq_meta = empty_meta ''prod'' n, mq_Spec = sampleSpec, mq_Status = zero_status\<rparr>"

definition withReplicas :: "int32 \<Rightarrow> int32 \<Rightarrow> AutoMQ \<Rightarrow> AutoMQ" where
  "withReplicas c b a = a\<lparr>mq_Status := (mq_Status a)
     \<lparr>st_ControllerReplicas := c, st_BrokerReplicas := b\<rparr>\<rparr>"

definition markDeleted :: "AutoMQ \<Rightarrow> AutoMQ" where
  "markDeleted a = a\<lparr>mq_meta := (mq_meta a)\<lparr>om_DeletionTimestamp := Some 7,
     om_Finalizers := [''automq/finalizer'']\<rparr>\<rparr>"

definition cluster :: "object list \<Rightarrow> mem" where
  "cluster xs = fold mem_put xs \<lparr>mem_store = \<lambda>_. None, mem_pods = []\<rparr>"

lemma memOperator_sel [simp]:
  "r_Client (memOperator e deny) = mem_kube deny"
  "r_Finalizer (memOperator e deny) = ''automq/finalizer''"
  "r_S3 (memOperator e deny) = memS3 e"
  "r_UpSh (memOperator e deny) = ''#!/bin/bash''"
  by (simp_all add: memOperator_def)

lemma mem_env_laws: "env_laws (memOperator e deny) mem_view"
  by (simp add: env_laws_def mem_kube_laws s3_quiet_def memS3_def)

lemmas mem_laws = env_lawsD(1) [OF mem_env_laws]

lemma sample_sel [simp]:
  "mq_Namespace (sample n) = ''prod''" "mq_Name (sample n) = n"
  "om_DeletionTimestamp (mq_meta (sample n)) = None"
  "mq_Spec (sample n) = sampleSpec" "mq_Status (sample n) = zero_status"
  "cs_Replicas (spec_Controller sampleSpec) = 1" "bs_Replicas (spec_Broker sampleSpec) = 1"
  by (simp_all add: sample_def empty_meta_def sampleSpec_def)

lemma withReplicas_sel [simp]:
  "mq_meta (withReplicas c b a) = mq_meta a" "mq_Spec (withReplicas c b a) = mq_Spec a"
  "st_ControllerReplicas (mq_Status (withReplicas c b a)) = c"
  "st_BrokerReplicas (mq_Status (withReplicas c b a)) = b"
  by (simp_all add: withReplicas_def)

lemma markDeleted_sel [simp]:
  "mq_Namespace (markDeleted a) = mq_Namespace a" "mq_Name (markDeleted a) = mq_Name a"
  "om_DeletionTimestamp (mq_meta (markDeleted a)) = Some 7"
  "om_Finalizers (mq_meta (markDeleted a)) = [''automq/finalizer'']"
  "mq_Spec (markDeleted a) = mq_Spec a" "mq_Status (markDeleted a) = mq_Status a"
  by (simp_all add: markDeleted_def)

lemma cluster_view [simp]:
  "mem_view (cluster []) k = None"
  "mem_view (cluster (xs @ [x])) k = (if k = okey x then Some x else mem_view (cluster xs) k)"
  by (simp_all add: cluster_def mem_view_put) (simp add: mem_view_def)

lemma cluster_single [simp]: "mem_view (cluster [x]) k = (if k = okey x then Some x else None)"
  using cluster_view(2) [of "[]" x] by simp

section \<open>Where nothing is refused, every step succeeds\<close>

lemma mem_deletes_succeed: "deletes_succeed (mem_kube allow) mem_view"
  by (auto simp: deletes_succeed_def mem_delete_def)

lemma mem_cou_ok [simp]:
  "fst (retry_create_or_update (mem_kube allow) f x w) = None"
  by (simp add: mem_retry_cou Let_def)

lemma mem_responsive: "responsive (mem_kube allow) mem_view"
  by (auto simp: responsive_def mem_get_def mem_status_update_def)

lemma mem_accepting: "accepting (mem_kube allow)"
  by (simp add: accepting_def mem_cou_def Let_def)

lemma mem_healthy: "healthy (memOperator None allow) mem_view"
  by (simp add: healthy_def mem_responsive mem_accepting bucketMade_def memOperator_def memS3_def)

lemma mem_kube_responsive: "responsive (r_Client (memOperator e allow)) mem_view"
  "accepting (r_Client (memOperator e allow))"
  by (simp_all add: mem_responsive mem_accepting)

lemmas mem_syncControllers = healthy_syncControllers [OF mem_laws mem_kube_responsive(2), unfolded memOperator_sel]
lemmas mem_syncBrokers = healthy_syncBrokers [OF mem_laws mem_kube_responsive(2,1), unfolded memOperator_sel]

end
