(* ===== verification/Convergence.thy ===== *)
theory Convergence
  imports MemOperator
begin

text \<open>
  What a synchronisation stage guarantees when it reports success, and what the scale-down and
  cleanup loops remove. The facts on single stages are composed in \<open>Desired\<close>; the properties on
  what is removed have a run of the operator on the in-memory cluster as their witness.
\<close>

section \<open>Synchronisation\<close>

text \<open>A stage that reports True has run its loop to the end.\<close>

lemma sync_True:
  assumes laws: "kube_laws K view"
    and run: "go_bind p (\<lambda>res w. case res of
           Some (reason, message) \<Rightarrow>
             (Val (True, setCondition K obj t ConditionFalse reason message), w)
         | None \<Rightarrow> (Val (True, setCondition K obj t ConditionTrue reason' message'), w))
       = (Val (b, obj'), w')"
    and cond: "conditionStatus obj' t = Some ConditionTrue"
  shows "p = (Val None, w')"
proof -
  from run obtain res w1 where p: "p = (Val res, w1)"
    and res: "(case res of
           Some (reason, message) \<Rightarrow>
             (Val (True, setCondition K obj t ConditionFalse reason message), w1)
         | None \<Rightarrow> (Val (True, setCondition K obj t ConditionTrue reason' message'), w1))
       = (Val (b, obj'), w')"
    unfolding go_bind_Val_iff by blast
  show ?thesis
  proof (cases res)
    case None
    with p res show ?thesis by simp
  next
    case (Some rm)
    with res have "obj' = setCondition K obj t ConditionFalse (fst rm) (snd rm)"
      by (simp add: case_prod_beta)
    with cond show ?thesis by (simp add: conditionStatus_set [OF kube_lawsD(8) [OF laws]])
  qed
qed

text \<open>
  When \<open>syncControllers\<close> reports \<open>SyncControllerReady\<close> True, the claim, the deployment and the
  service of every controller replica are stored and in the desired state, whatever they were
  before and however many conflicts were retried.
\<close>

theorem controllers_converge:
  assumes "kube_laws (r_Client r) view"
    and "syncControllers r ctx obj w = (Val (b, obj'), w')"
    and "conditionStatus obj' ''SyncControllerReady'' = Some ConditionTrue"
    and "0 \<le> j" and "j < sint (cs_Replicas (controllerSpec obj))"
    and "k \<in> controllerKeys (mq_Namespace obj) (word_of_int j)"
  shows "\<exists>x. view w' k = Some x \<and> controllerGood r ctx obj (word_of_int j) x"
  using controller_sync.loop_good [OF assms(1) _ _ sync_True [OF assms(1) assms(2) [unfolded syncControllers_def] assms(3)] assms(4-6)]
    assms(4,5) sint_int32_bounds by force

text \<open>
  When \<open>syncBrokers\<close> reports \<open>SyncBrokerReady\<close> True, the claim, the service and the deployment
  of every broker replica are stored and in the desired state.
\<close>

theorem brokers_converge:
  assumes "kube_laws (r_Client r) view"
    and "syncBrokers r ctx obj w = (Val (b, obj'), w')"
    and "conditionStatus obj' ''SyncBrokerReady'' = Some ConditionTrue"
    and "0 \<le> j" and "j < sint (bs_Replicas (brokerSpec obj))"
    and "k \<in> brokerKeys (mq_Namespace obj) (word_of_int j)"
  shows "\<exists>x. view w' k = Some x \<and> brokerGood r ctx obj (word_of_int j) x"
  using broker_sync.loop_good [OF assms(1) _ _ sync_True [OF assms(1) assms(2) [unfolded syncBrokers_def] assms(3)] assms(4-6)]
    assms(4,5) sint_int32_bounds by force


text \<open>The deployment of a broker and its service agree, from the loop's invariant.\<close>

definition portAgrees :: "'w reconciler \<Rightarrow> ctx \<Rightarrow> AutoMQ \<Rightarrow> int32 \<Rightarrow> (okey \<Rightarrow> object option) \<Rightarrow> bool" where
  "portAgrees r ctx obj i v \<longleftrightarrow> (\<exists>s p ps d.
     v (KService, mq_Namespace obj, brokerName i) = Some (ObjService s) \<and> svc_Ports s = p # ps
     \<and> v (KDeployment, mq_Namespace obj, brokerName i) = Some (ObjDeployment d)
     \<and> dep_Template d = brokerTemplate r ctx obj i (sp_NodePort p) (brokerName i) empty_template)"

lemma portAgrees_step:
  assumes laws: "kube_laws (r_Client r) view"
    and run: "syncBrokers_body r ctx obj i w = (Val None, w')"
  shows "portAgrees r ctx obj i (view w')"
proof -
  from run obtain w2 where "syncBrokerDeploy r ctx obj i w2 = (Val None, w')"
    by (rule syncBrokers_body_steps)
  from syncBrokerDeploy_stored [OF laws this] show ?thesis
    unfolding portAgrees_def by blast
qed

lemma portAgrees_other:
  assumes laws: "kube_laws (r_Client r) view" and "i \<noteq> j"
    and "portAgrees r ctx obj j (view w)"
  shows "portAgrees r ctx obj j (view (snd (syncBrokers_body r ctx obj i w)))"
proof -
  have "view (snd (syncBrokers_body r ctx obj i w)) k = view w k"
    if "k \<in> brokerKeys (mq_Namespace obj) j" for k
    using that brokerKeys_disjoint [OF assms(2)] by (intro syncBrokers_body_frame [OF laws]) blast
  then show ?thesis using assms(3) by (simp add: portAgrees_def brokerKeys_def)
qed

text \<open>
  When \<open>syncBrokers\<close> reports success, the pod template of every broker is the one built with
  the node port that the stored service of that same broker has.
\<close>

theorem brokers_advertise_own_port:
  assumes laws: "kube_laws (r_Client r) view"
    and run: "syncBrokers r ctx obj w = (Val (b, obj'), w')"
    and cond: "conditionStatus obj' ''SyncBrokerReady'' = Some ConditionTrue"
    and j: "0 \<le> j" "j < sint (bs_Replicas (brokerSpec obj))"
  shows "portAgrees r ctx obj (word_of_int j) (view w')"
proof -
  let ?n = "sint (bs_Replicas (brokerSpec obj))"
  let ?I = "\<lambda>i w. i \<le> ?n \<and> (j < i \<longrightarrow> portAgrees r ctx obj (word_of_int j) (view w))"
  have "?I ?n w'"
  proof (rule for_ret_rule [where I = ?I])
    show "for_ret 0 ?n (\<lambda>i. syncBrokers_body r ctx obj (word_of_int i)) w = (Val None, w')"
      by (rule sync_True [OF laws run [unfolded syncBrokers_def] cond])
    show "0 \<le> ?n" "?I 0 w" using j by auto
  next
    fix i s s'
    assume i: "0 \<le> i" "i < ?n" and I: "?I i s"
      and step: "syncBrokers_body r ctx obj (word_of_int i) s = (Val None, s')"
    show "?I (i + 1) s'"
    proof (cases "i = j")
      case True
      with portAgrees_step [OF laws step] i show ?thesis by simp
    next
      case False
      then have "(word_of_int i :: int32) \<noteq> word_of_int j"
        using i j sint_int32_bounds [of "bs_Replicas (brokerSpec obj)"]
        by (subst int32_index_inject) auto
      with portAgrees_other [OF laws this, of ctx obj s] I i False show ?thesis
        by (simp add: step)
    qed
  qed
  with j show ?thesis by simp
qed

section \<open>Scale-down\<close>

text \<open>
  Scaling the controllers down removes the deployment, the service and the claim of exactly
  the replicas from the specified count up to the recorded one, and leaves everything else.
\<close>

theorem controller_scale_down:
  assumes "kube_laws (r_Client r) view" and "deletes_succeed (r_Client r) view"
  shows "view (snd (syncControllersScale r ctx obj w)) k =
    (if \<exists>j. sint (cs_Replicas (controllerSpec obj)) \<le> j
          \<and> j < sint (st_ControllerReplicas (mq_Status obj))
          \<and> k \<in> controllerKeys (mq_Namespace obj) (word_of_int j)
     then None else view w k)"
proof -
  let ?lo = "sint (cs_Replicas (controllerSpec obj))" and ?hi = "sint (st_ControllerReplicas (mq_Status obj))"
  note dl = kube_lawsD(4) [OF assms(1)]
  have eq: "snd (syncControllersScale r ctx obj w) = for_int ?lo ?hi
      (\<lambda>i. syncControllersScale_body (r_Client r) (mq_Namespace obj) (word_of_int i)) w"
    by (simp add: syncControllersScale_def Let_def for_int32_for_int)
  show ?thesis
  proof (cases "\<exists>j. ?lo \<le> j \<and> j < ?hi \<and> k \<in> controllerKeys (mq_Namespace obj) (word_of_int j)")
    case True
    then obtain j x where "?lo \<le> j" "j < ?hi" "k = okey x"
      "x \<in> set (controllerObjects (mq_Namespace obj) (word_of_int j))"
      by (metis controllerObjects_keys(1) imageE)
    with controller_scale.loop_removes [OF dl assms(2)] True show ?thesis by (simp add: eq)
  next
    case False
    then have "view (for_int ?lo ?hi (\<lambda>i. syncControllersScale_body (r_Client r) (mq_Namespace obj)
        (word_of_int i)) w) k = view w k"
      by (intro controller_scale.loop_other [OF dl]) (auto simp: controllerObjects_keys)
    then show ?thesis unfolding eq if_not_P [OF False] .
  qed
qed

theorem controller_scale_down_witness:
  "mem_view (snd (syncControllersScale (memOperator None allow) Map.empty
     (withReplicas 2 0 (sample ''mq''))
     (cluster [ObjDeployment (new_deployment ''prod'' (controllerName 1))])))
     (KDeployment, ''prod'', controllerName 1) = None"
proof -
  have "\<exists>j. 1 \<le> j \<and> j < (2::int)
      \<and> (KDeployment, ''prod'', controllerName 1) \<in> controllerKeys ''prod'' (word_of_int j)"
    by (intro exI [of _ "1 :: int"]) (simp add: controllerKeys_def)
  then show ?thesis
    using controller_scale_down [OF mem_laws, of None allow Map.empty "withReplicas 2 0 (sample ''mq'')"
        "cluster [ObjDeployment (new_deployment ''prod'' (controllerName 1))]"
        "(KDeployment, ''prod'', controllerName 1)"] mem_deletes_succeed
    by simp
qed

text \<open>
  C27: scaling the brokers down never removes a deployment: the loop deletes a \<open>StatefulSet\<close> of the
  broker's name, a kind the operator creates nowhere, so the pods of the removed brokers go on.
\<close>

theorem broker_scale_keeps_deployments:
  assumes "kube_laws (r_Client r) view"
  shows "view (snd (syncBrokerScale r ctx obj w)) (KDeployment, x) = view w (KDeployment, x)"
proof -
  have "(KDeployment, x) \<notin> okey ` set (brokerScaleObjects (mq_Namespace obj) i)" for i
    by (auto simp: brokerScaleObjects_def)
  then show ?thesis
    using broker_scale.loop_other [OF kube_lawsD(4) [OF assms]]
    by (simp add: syncBrokerScale_def Let_def for_int32_for_int)
qed

theorem broker_scale_keeps_deployments_witness:
  "mem_view (snd (syncBrokerScale (memOperator None allow) Map.empty
     (withReplicas 1 2 (sample ''mq''))
     (cluster [ObjDeployment (new_deployment ''prod'' (brokerName 1))])))
     (KDeployment, ''prod'', brokerName 1) =
   Some (ObjDeployment (new_deployment ''prod'' (brokerName 1)))"
  using broker_scale_keeps_deployments [OF mem_laws, of None allow Map.empty
      "withReplicas 1 2 (sample ''mq'')" "cluster [ObjDeployment (new_deployment ''prod'' (brokerName 1))]"
      "(''prod'', brokerName 1)"] by simp


text \<open>
  When the stage of the bootstrap service reports success, the stored service is of type
  \<open>NodePort\<close>, exposes port 9092, at the node port of the specification if that is not 0, and the
  status carries its cluster-internal address.
\<close>

theorem bootstrap_service_ready:
  assumes laws: "kube_laws (r_Client r) view"
    and run: "syncKafkaBootstrapService r ctx obj w = (Val (b, obj'), w')"
    and cond: "conditionStatus obj' ''SyncBootstrapServiceReady'' = Some ConditionTrue"
  shows "\<exists>s p. view w' (KService, mq_Namespace obj, bootstrapName) = Some (ObjService s)
    \<and> svc_Type s = ''NodePort'' \<and> svc_Ports s = [p] \<and> sp_Port p = 9092
    \<and> (spec_NodePort (mq_Spec obj) \<noteq> 0 \<longrightarrow> sp_NodePort p = spec_NodePort (mq_Spec obj))
    \<and> st_BootstrapInternalAddress (mq_Status obj') =
        bootstrapName @ ''.'' @ mq_Namespace obj @ ''.svc:'' @ itoa (sint (sp_Port p))"
proof -
  let ?svc = "ObjService ((new_service (mq_Namespace obj) bootstrapName)
      \<lparr>svc_Selector := getAutoMQLabelMap (mq_Name obj) brokerRole\<rparr>)"
  obtain e y w1 where call: "retry_create_or_update (r_Client r)
      (on_service (bootstrapService_mutate obj)) ?svc w = (e, y, w1)" by (metis prod_cases3)
  have e: "e = None" and w1: "w1 = w'"
    and addr: "st_BootstrapInternalAddress (mq_Status obj') =
        bootstrapName @ ''.'' @ mq_Namespace obj @ ''.svc:'' @ itoa 9092"
    using run cond call
    by (auto simp: syncKafkaBootstrapService_def Let_def bootstrapName_def
        conditionStatus_set [OF kube_lawsD(8) [OF laws]] split: option.splits)
  from retry_cou_stored [OF laws call [unfolded e]] obtain base where
    y: "view w1 (KService, mq_Namespace obj, bootstrapName) = Some y"
    and base: "okey base = (KService, mq_Namespace obj, bootstrapName)"
      "admitted (on_service (bootstrapService_mutate obj) base) y" by auto
  from bootstrapService_made [OF base] y w1 addr show ?thesis by auto
qed

end
