(* ===== verification/Lifecycle.thy ===== *)
theory Lifecycle
  imports Convergence
begin

text \<open>
  The life of a custom resource seen from \<open>Reconcile\<close>: what deletion removes and when the
  finalizer goes, what a reconciliation records, and what it never touches.
\<close>

section \<open>Deletion\<close>

text \<open>Everything the recorded status says the operator has created.\<close>

definition recordedKeys :: "AutoMQ \<Rightarrow> okey set" where
  "recordedKeys a = {(KConfigMap, mq_Namespace a, mq_Name a), (KService, mq_Namespace a, bootstrapName)}
     \<union> (\<Union>j \<in> {j. 0 \<le> sint j \<and> sint j < sint (st_ControllerReplicas (mq_Status a))}.
          controllerKeys (mq_Namespace a) j)
     \<union> (\<Union>j \<in> {j. 0 \<le> sint j \<and> sint j < sint (st_BrokerReplicas (mq_Status a))}.
          brokerKeys (mq_Namespace a) j)"

lemma recordedKeys_owned: "k \<in> recordedKeys a \<Longrightarrow> k \<in> ownedKeys (mq_Namespace a) (mq_Name a)"
  by (auto simp: recordedKeys_def ownedKeys_def)

lemma cleanup_removes:
  assumes laws: "kube_laws (r_Client r) view" and ds: "deletes_succeed (r_Client r) view"
    and k: "k \<in> recordedKeys a"
  shows "view (snd (cleanup r a w)) k = None"
proof -
  note dl = kube_lawsD(4) [OF laws]
  let ?K = "r_Client r" and ?cm = "ObjConfigMap (new_configmap (mq_Namespace a) (mq_Name a))"
  let ?w1 = "snd (cleanBroker ?K a w)"
  let ?w2 = "snd (cleanController ?K a ?w1)"
  have cm: "okey ?cm = (KConfigMap, mq_Namespace a, mq_Name a)"
    by (simp add: new_configmap_def empty_meta_def)
  have eq: "snd (cleanup r a w) = snd (k_Delete ?K ?cm ?w2)"
    by (simp add: cleanup_eq Let_def)
  from k consider (cm1) "k = (KConfigMap, mq_Namespace a, mq_Name a)"
    | (ctl) j where "0 \<le> sint j" "sint j < sint (st_ControllerReplicas (mq_Status a))"
        "k \<in> controllerKeys (mq_Namespace a) j"
    | (svc) "k = (KService, mq_Namespace a, bootstrapName)"
    | (brk) j where "0 \<le> sint j" "sint j < sint (st_BrokerReplicas (mq_Status a))"
        "k \<in> brokerKeys (mq_Namespace a) j"
    unfolding recordedKeys_def by blast
  then show ?thesis
  proof cases
    case cm1
    then show ?thesis
      using ignoring_delete_removes [OF dl ds, of ?cm ?w2] cm by (simp add: eq ignoring_delete_def)
  next
    case ctl
    then show ?thesis
      unfolding eq by (intro delete_none [OF dl] cleanController_removes [OF dl ds])
  next
    case svc
    then show ?thesis unfolding eq
      by (intro delete_none [OF dl] cleanController_none [OF dl] cleanBroker_removes [OF dl ds]) simp
  next
    case (brk j)
    then show ?thesis unfolding eq
      by (intro delete_none [OF dl] cleanController_none [OF dl] cleanBroker_removes [OF dl ds, of j])
        simp
  qed
qed

lemma cleanup_none:
  assumes "kube_laws (r_Client r) view" and "view w k = None"
  shows "view (snd (cleanup r a w)) k = None"
  using cleanController_none [OF kube_lawsD(4) [OF assms(1)]]
    cleanBroker_none [OF kube_lawsD(4) [OF assms(1)] assms(2)]
    delete_none [OF kube_lawsD(4) [OF assms(1)]]
  by (simp add: cleanup_eq Let_def)


lemma mem_cleanup_ok:
  "deny (KConfigMap, mq_Namespace a, mq_Name a) = None \<Longrightarrow>
    fst (cleanup (memOperator e deny) a w) = None"
  by (auto simp: cleanup_eq Let_def failing_def mem_delete_def mem_is_not_found_def not_found_def
      new_configmap_def empty_meta_def split: option.splits)

text \<open>What no deletion changes, cleanup does not change.\<close>

lemma cleanup_invariant:
  assumes "\<And>x w. g (snd (k_Delete (r_Client r) x w)) = g w"
  shows "g (snd (cleanup r a w)) = g w"
proof -
  have step: "g (ignoring_delete (r_Client r) x w) = g w" for x w
    using assms by (simp add: ignoring_delete_def)
  have "g (snd (cleanBroker (r_Client r) a w)) = g w" for w
    by (simp add: cleanBroker_def Let_def step cleanBroker_body_def
        for_int_frame [where g = g])
  moreover have "g (snd (cleanController (r_Client r) a w)) = g w" for w
    by (simp add: cleanController_def Let_def step cleanController_body_def
        for_int_frame [where g = g])
  ultimately show ?thesis by (simp add: cleanup_eq Let_def assms)
qed



text \<open>
  C13: if the cleanup of a deleted custom resource reports an error, \<open>Reconcile\<close> returns it and
  the custom resource keeps its finalizer: what is stored for it does not change.
\<close>

theorem finalizer_kept_on_failure:
  assumes laws: "kube_laws (r_Client r) view"
    and get: "k_Get (r_Client r) req (ObjAutoMQ zero_automq) w = (None, ObjAutoMQ a, w1)"
    and deleted: "\<not> time_IsZero (om_DeletionTimestamp (mq_meta a))"
    and failed: "cleanup r a w1 = (Some e, w2)"
  shows "Reconcile r ctx req w = (Val (Some e, False), w2)
    \<and> view w2 (KAutoMQ, req) = Some (ObjAutoMQ a)"
proof -
  note l = kube_lawsD(2) [OF laws]
  have "view w1 (KAutoMQ, req) = Some (ObjAutoMQ a)"
    using get_law_found [OF l get] get_law_view [OF l get] by simp
  moreover have "view w2 (KAutoMQ, req) = view w1 (KAutoMQ, req)"
    using cleanup_frame [OF laws, of "(KAutoMQ, req)" a w1] ownedKeys_not_AutoMQ failed by simp
  ultimately show ?thesis by (simp add: Reconcile_deleted [OF get deleted] failed)
qed

definition refuse :: "okey \<Rightarrow> deny" where
  "refuse key k = (if k = key then Some (StatusError ''Forbidden'' ''forbidden'') else None)"

theorem finalizer_kept_on_failure_witness:
  "\<exists>w'. Reconcile (memOperator None (refuse (KConfigMap, ''prod'', ''mq''))) Map.empty
      (''prod'', ''mq'') (cluster [ObjAutoMQ (markDeleted (sample ''mq''))])
      = (Val (Some (StatusError ''Forbidden'' ''forbidden''), False), w')
    \<and> mem_view w' (KAutoMQ, ''prod'', ''mq'') = Some (ObjAutoMQ (markDeleted (sample ''mq'')))"
proof -
  let ?r = "memOperator None (refuse (KConfigMap, ''prod'', ''mq''))"
  let ?a = "markDeleted (sample ''mq'')" and ?e = "StatusError ''Forbidden'' ''forbidden''"
  have get: "k_Get (r_Client ?r) (''prod'', ''mq'') (ObjAutoMQ zero_automq) (cluster [ObjAutoMQ ?a])
      = (None, ObjAutoMQ ?a, cluster [ObjAutoMQ ?a])"
    by (simp add: mem_get_def)
  have "fst (cleanup ?r ?a (cluster [ObjAutoMQ ?a])) = Some ?e"
    by (simp add: cleanup_eq Let_def failing_def mem_delete_def refuse_def mem_is_not_found_def
        new_configmap_def empty_meta_def)
  then obtain w2 where failed: "cleanup ?r ?a (cluster [ObjAutoMQ ?a]) = (Some ?e, w2)"
    by (metis prod.collapse)
  show ?thesis
    using finalizer_kept_on_failure [OF mem_laws get _ failed] by (simp add: time_IsZero_def)
qed



section \<open>One call of \<open>Reconcile\<close>\<close>

lemma Reconcile_outcome:
  assumes laws: "env_laws r view"
  shows "returns (Reconcile r ctx req w)
    \<and> (\<forall>k. k \<notin> ownedKeys (fst req) (snd req) \<longrightarrow> k \<noteq> (KAutoMQ, req) \<longrightarrow>
         view (snd (Reconcile r ctx req w)) k = view w k)"
  using env_lawsD(1) [OF laws]
proof (cases rule: first_get [where req = req and w = w])
  case (error e x w1)
  then show ?thesis by (simp add: Reconcile_failed_get [OF error(1)])
next
  case (found a w1)
  note K = env_lawsD(1) [OF laws]
  have key: "okey (ObjAutoMQ a) = (KAutoMQ, req)" "ownedKeys (fst req) (snd req) =
      ownedKeys (mq_Namespace a) (mq_Name a)" using found(4) by auto
  show ?thesis
  proof (cases "time_IsZero (om_DeletionTimestamp (mq_meta a))")
    case False
    obtain e w2 where c: "cleanup r a w1 = (e, w2)" by fastforce
    obtain e' b w3 where u: "retryUpdate (r_Client r) (withoutFinalizer r a) w2 = (e', b, w3)"
      by (metis prod_cases3)
    have "view w2 k = view w k" if "k \<notin> ownedKeys (fst req) (snd req)" for k
      using cleanup_frame [OF K, of k a w1] that c found(2) key by simp
    moreover have "view w3 k = view w2 k" if "k \<noteq> (KAutoMQ, req)" for k
      using retryUpdate_frame [OF K, of k "withoutFinalizer r a" w2] that u found(4) by auto
    ultimately show ?thesis
      by (simp add: Reconcile_deleted [OF found(1) False] c u split: option.splits)
  next
    case True
    obtain e' b w2 where u: "retryUpdate (r_Client r) (withFinalizer r a) w1 = (e', b, w2)"
      by (metis prod_cases3)
    have b: "(mq_Namespace b, mq_Name b) = req"
      using retryUpdate_key [OF K u] found(4) by simp
    obtain e w' where rec: "reconcile r ctx (ObjAutoMQ b) w2 = (Val e, w')"
      and f: "\<And>k. k \<notin> ownedKeys (mq_Namespace b) (mq_Name b) \<Longrightarrow> k \<noteq> okey (ObjAutoMQ b) \<Longrightarrow>
        view w' k = view w2 k"
      by (rule reconcile_result [OF laws, of ctx b w2]) blast
    have "view w2 k = view w k" if "k \<noteq> (KAutoMQ, req)" for k
      using retryUpdate_frame [OF K, of k "withFinalizer r a" w1] that u found(2,4) by auto
    moreover have "view w' k = view w2 k"
      if "k \<notin> ownedKeys (fst req) (snd req)" "k \<noteq> (KAutoMQ, req)" for k
      using f [of k] that b by auto
    ultimately show ?thesis
      by (simp add: Reconcile_live [OF found(1) True] u rec split: option.splits)
  qed
qed

text \<open>
  \<open>Reconcile\<close> of one custom resource changes nothing in the cluster but that resource, its
  config map, the bootstrap service, and the resources named after controller and broker
  replicas in its namespace.
\<close>

theorem Reconcile_frame:
  assumes "env_laws r view" and "k \<notin> ownedKeys (fst req) (snd req)" and "k \<noteq> (KAutoMQ, req)"
  shows "view (snd (Reconcile r ctx req w)) k = view w k"
  using Reconcile_outcome [OF assms(1)] assms(2,3) by blast

theorem Reconcile_frame_witness:
  "mem_view (snd (Reconcile (memOperator None allow) Map.empty (''prod'', ''mq'')
     (cluster [ObjAutoMQ (sample ''mq''), ObjConfigMap (new_configmap ''prod'' ''other'')])))
     (KConfigMap, ''prod'', ''other'') = Some (ObjConfigMap (new_configmap ''prod'' ''other''))"
proof -
  have v: "mem_view (cluster ([ObjAutoMQ (sample ''mq'')] @ [ObjConfigMap (new_configmap ''prod'' ''other'')]))
      (KConfigMap, ''prod'', ''other'') = Some (ObjConfigMap (new_configmap ''prod'' ''other''))"
    by (simp only: cluster_view) (simp add: new_configmap_def empty_meta_def)
  have "(KConfigMap, ''prod'', ''other'') \<notin> ownedKeys ''prod'' ''mq''"
    by (auto simp: ownedKeys_def controllerKeys_def brokerKeys_def)
  then show ?thesis
    using Reconcile_frame [OF mem_env_laws, of "(KConfigMap, ''prod'', ''other'')" "(''prod'', ''mq'')"
        None allow Map.empty] v by simp
qed



text \<open>
  C16: when \<open>reconcile\<close> returns nil the stored status tells what happened: the conditions of the
  stages that ran are set for the current generation and the others are as before, the last
  stage that ran reports False unless all seven ran, and the replica counts and controller
  addresses are those of the specification.
\<close>

theorem reconcile_records:
  assumes "env_laws r view" and "reconcile r ctx (ObjAutoMQ a) w = (Val None, w')"
  shows "\<exists>n b. view w' (okey (ObjAutoMQ a)) = Some (ObjAutoMQ b) \<and> reconciledStatus a n b"
  using reconcile_result [OF assms(1), of ctx a w] assms(2) by (metis Pair_inject go.inject(1))


text \<open>On the in-memory cluster a reconciliation succeeds and keeps the stored metadata.\<close>

lemma mem_reconcile_meta:
  assumes stored: "mem_view w (okey (ObjAutoMQ a)) = Some (ObjAutoMQ c)"
  shows "\<exists>w' st. reconcile (memOperator e allow) ctx (ObjAutoMQ a) w = (Val None, w')
    \<and> mem_view w' (okey (ObjAutoMQ a)) = Some (ObjAutoMQ (c\<lparr>mq_Status := st\<rparr>))"
proof -
  let ?r = "memOperator e allow"
  from run_pipelines [OF mem_env_laws, of e allow ctx "setAddresses a" w] obtain b w1 where
    run: "runPipeline (pipelines ?r ctx) (setAddresses a) w = (Val b, w1)"
    and k: "keeps (setAddresses a) b"
    and f: "\<And>k. k \<notin> ownedKeys (mq_Namespace a) (mq_Name a) \<Longrightarrow> mem_view w1 k = mem_view w k"
    by (auto simp del: split_paired_All)
  have key: "okey (ObjAutoMQ (recordReplicas b)) = okey (ObjAutoMQ a)"
    using k by (simp add: keeps_def)
  have x: "mem_view w1 (KAutoMQ, mq_Namespace a, mq_Name a) = Some (ObjAutoMQ c)"
    using f [of "okey (ObjAutoMQ a)"] stored ownedKeys_not_AutoMQ by simp
  have ck: "okey (ObjAutoMQ c) = okey (ObjAutoMQ a)" by (rule mem_view_okey [OF stored])
  let ?c = "c\<lparr>mq_Status := mq_Status (recordReplicas b)\<rparr>"
  have "syncStatus (mem_kube allow) (recordReplicas b) w1 = (None, mem_put (ObjAutoMQ ?c) w1)"
    using x ck key by (simp add: syncStatus_def numeral_eq_Suc syncStatus_attempt_def mem_get_def
        ObjectKeyFromObject_def mem_status_update_def filled_automq_def Let_def)
  then have "reconcile ?r ctx (ObjAutoMQ a) w = (Val None, mem_put (ObjAutoMQ ?c) w1)"
    by (simp add: reconcile_def run)
  moreover have "mem_view (mem_put (ObjAutoMQ ?c) w1) (okey (ObjAutoMQ a)) = Some (ObjAutoMQ ?c)"
    using ck by (simp add: mem_view_put)
  ultimately show ?thesis by blast
qed

lemma mem_reconcile_ok:
  assumes "mem_view w (okey (ObjAutoMQ a)) \<noteq> None"
  shows "\<exists>w'. reconcile (memOperator e allow) ctx (ObjAutoMQ a) w = (Val None, w')"
proof -
  from assms obtain x where x: "mem_view w (okey (ObjAutoMQ a)) = Some x" by blast
  from mem_view_okey [OF x] okey_kindE(5) [of x] obtain c where "x = ObjAutoMQ c" by auto
  with x mem_reconcile_meta [of w a c] show ?thesis by blast
qed

lemma mem_Reconcile_live:
  assumes stored: "mem_view w (KAutoMQ, req) = Some (ObjAutoMQ a)"
    and live: "om_DeletionTimestamp (mq_meta a) = None"
  shows "\<exists>w' a'. Reconcile (memOperator e allow) ctx req w = (Val (None, True), w')
    \<and> mem_view w' (KAutoMQ, req) = Some (ObjAutoMQ a')
    \<and> om_DeletionTimestamp (mq_meta a') = None"
proof -
  let ?r = "memOperator e allow"
  define b where "b = withFinalizer ?r a"
  have b: "okey (ObjAutoMQ b) = (KAutoMQ, req)" "om_DeletionTimestamp (mq_meta b) = None"
    using mem_view_okey [OF stored] live by (simp_all add: b_def)
  have get: "k_Get (r_Client ?r) req (ObjAutoMQ zero_automq) w = (None, ObjAutoMQ a, w)"
    using stored by (simp add: mem_get_def)
  have upd: "retryUpdate (mem_kube allow) b w = (None, b, mem_put (ObjAutoMQ b) w)"
    using b stored by (simp add: retryUpdate_def mem_update_def numeral_eq_Suc filled_automq_def)
  have "mem_view (mem_put (ObjAutoMQ b) w) (okey (ObjAutoMQ b)) = Some (ObjAutoMQ b)"
    by (simp add: mem_view_put)
  from mem_reconcile_meta [OF this, of e ctx] obtain w' st where
    run: "reconcile ?r ctx (ObjAutoMQ b) (mem_put (ObjAutoMQ b) w) = (Val None, w')"
    and v: "mem_view w' (okey (ObjAutoMQ b)) = Some (ObjAutoMQ (b\<lparr>mq_Status := st\<rparr>))" by blast
  have "Reconcile ?r ctx req w = (Val (None, True), w')"
    using upd run live by (simp add: Reconcile_live [OF get] time_IsZero_def flip: b_def)
  with v b show ?thesis by auto
qed

theorem reconcile_records_witness:
  "\<exists>w' n b. reconcile (memOperator None allow) Map.empty (ObjAutoMQ (sample ''mq''))
      (cluster [ObjAutoMQ (sample ''mq'')]) = (Val None, w')
    \<and> mem_view w' (KAutoMQ, ''prod'', ''mq'') = Some (ObjAutoMQ b)
    \<and> reconciledStatus (sample ''mq'') n b"
proof -
  have "mem_view (cluster [ObjAutoMQ (sample ''mq'')]) (okey (ObjAutoMQ (sample ''mq''))) \<noteq> None"
    by simp
  from mem_reconcile_ok [OF this, of None Map.empty] obtain w' where
    run: "reconcile (memOperator None allow) Map.empty (ObjAutoMQ (sample ''mq''))
      (cluster [ObjAutoMQ (sample ''mq'')]) = (Val None, w')" by blast
  from reconcile_records [OF mem_env_laws run] run show ?thesis by auto
qed


lemma mem_s3_refused:
  "\<exists>a1. s3Service (memOperator (Some (ErrorsNew ''AccessDenied'')) allow) ctx a w =
    (Val (False, a1), w)"
  by (auto simp: s3Service_def NewBucket_def newS3BucketService_def awsConfig_def memS3_def
      MkBucket_def contains_iff Let_def hasPrefix_def)



text \<open>
  C10: the finalizer comes first. On a live custom resource either the update that adds the
  finalizer fails, the error is returned and nothing else has changed, or the reconciliation
  starts from a cluster where the stored custom resource carries the finalizer and nothing else
  has changed yet: no resource is ever created for a custom resource without it.
\<close>

theorem finalizer_first:
  assumes laws: "kube_laws (r_Client r) view"
    and get: "k_Get (r_Client r) req (ObjAutoMQ zero_automq) w = (None, ObjAutoMQ a, w1)"
    and live: "om_DeletionTimestamp (mq_meta a) = None"
  shows "\<exists>w2. (\<forall>k. k \<noteq> (KAutoMQ, req) \<longrightarrow> view w2 k = view w k)
    \<and> ((\<exists>e. Reconcile r ctx req w = (Val (Some e, True), w2))
       \<or> (\<exists>b. view w2 (KAutoMQ, req) = Some (ObjAutoMQ b)
            \<and> r_Finalizer r \<in> set (om_Finalizers (mq_meta b))
            \<and> Reconcile r ctx req w =
                go_bind (reconcile r ctx (ObjAutoMQ b) w2) (\<lambda>err w. (Val (err, True), w))))"
proof -
  note gl = kube_lawsD(2) [OF laws]
  from get_law_found [OF gl get] have "view w (KAutoMQ, req) = Some (ObjAutoMQ a)" by simp
  from view_lawD [OF kube_lawsD(1) [OF laws] this] have key: "okey (ObjAutoMQ a) = (KAutoMQ, req)" .
  obtain e b w2 where u: "retryUpdate (r_Client r) (withFinalizer r a) w1 = (e, b, w2)"
    by (metis prod_cases3)
  have f: "\<forall>k. k \<noteq> (KAutoMQ, req) \<longrightarrow> view w2 k = view w k"
    using retryUpdate_frame [OF laws, of _ "withFinalizer r a" w1] u key get_law_view [OF gl get]
    by auto
  have "time_IsZero (om_DeletionTimestamp (mq_meta a))" by (simp add: live time_IsZero_def)
  note eq = Reconcile_live [OF get this]
  show ?thesis
  proof (cases e)
    case (Some err)
    then show ?thesis using f eq u by (intro exI [of _ w2]) simp
  next
    case None
    note fin = retryUpdate_finalizers [OF laws u [unfolded None]]
    have "r_Finalizer r \<in> set (om_Finalizers (mq_meta b))"
      using fin(1) kube_lawsD(9) [OF laws] by (simp add: withFinalizer_def finalizer_law_def)
    moreover have "view w2 (KAutoMQ, req) = Some (ObjAutoMQ b)"
      using fin(2) live key by simp
    ultimately show ?thesis using f eq u None by (intro exI [of _ w2]) auto
  qed
qed

theorem finalizer_first_witness:
  "\<exists>w' w2 b. Reconcile (memOperator None allow) Map.empty (''prod'', ''mq'')
      (cluster [ObjAutoMQ (sample ''mq'')]) = (Val (None, True), w')
    \<and> mem_view w2 (KAutoMQ, ''prod'', ''mq'') = Some (ObjAutoMQ b)
    \<and> ''automq/finalizer'' \<in> set (om_Finalizers (mq_meta b))
    \<and> (Val (None, True), w') = go_bind (reconcile (memOperator None allow) Map.empty (ObjAutoMQ b) w2)
        (\<lambda>err w. (Val (err, True), w))"
proof -
  let ?r = "memOperator None allow" and ?w = "cluster [ObjAutoMQ (sample ''mq'')]"
  have get: "k_Get (r_Client ?r) (''prod'', ''mq'') (ObjAutoMQ zero_automq) ?w
      = (None, ObjAutoMQ (sample ''mq''), ?w)"
    by (simp add: mem_get_def)
  obtain w' where run: "Reconcile ?r Map.empty (''prod'', ''mq'') ?w = (Val (None, True), w')"
    using mem_Reconcile_live [of ?w "(''prod'', ''mq'')" "sample ''mq''"] by auto
  have live: "om_DeletionTimestamp (mq_meta (sample ''mq'')) = None" by simp
  from finalizer_first [OF mem_laws get live, of Map.empty] obtain w2 b where
    "mem_view w2 (KAutoMQ, ''prod'', ''mq'') = Some (ObjAutoMQ b)"
    "''automq/finalizer'' \<in> set (om_Finalizers (mq_meta b))"
    "(Val (None, True), w') = go_bind (reconcile ?r Map.empty (ObjAutoMQ b) w2)
      (\<lambda>err w. (Val (err, True), w))"
    unfolding run memOperator_sel by (elim exE conjE disjE) auto
  with run show ?thesis by blast
qed

text \<open>
  When the custom resource is not found, \<open>Reconcile\<close> returns nil and starts no ticker; any
  other error of the read is returned unchanged. Either way the cluster stays as it is.
\<close>

theorem Reconcile_missing:
  assumes "kube_laws (r_Client r) view"
    and "k_Get (r_Client r) req (ObjAutoMQ zero_automq) w = (Some e, x, w1)"
  shows "Reconcile r ctx req w =
      (Val (if k_IsNotFound (r_Client r) e then None else Some e, False), w1)
    \<and> view w1 = view w"
  using Reconcile_failed_get [OF assms(2)] get_law_view [OF kube_lawsD(2) [OF assms(1)] assms(2)]
    kube_lawsD(10) [OF assms(1)] by (simp add: notfound_law_def)

theorem Reconcile_missing_witness:
  "Reconcile (memOperator None allow) Map.empty (''prod'', ''gone'') (cluster []) =
    (Val (None, False), cluster [])"
proof -
  have "k_Get (r_Client (memOperator None allow)) (''prod'', ''gone'') (ObjAutoMQ zero_automq)
      (cluster []) = (Some not_found, ObjAutoMQ zero_automq, cluster [])"
    by (simp add: mem_get_def)
  from Reconcile_missing [OF mem_laws this, of Map.empty] show ?thesis
    by (simp add: mem_is_not_found_def not_found_def)
qed

end
