(* ===== verification/NodeApi.thy ===== *)
theory NodeApi
  imports Kube
begin

text \<open>
  The HTTP endpoint brokers ask for the address of their node
  (\<open>internal/controller/automq_apis.go\<close>). The router and the client are not modelled beyond the
  answer of \<open>Get\<close>; a response is a status code with a text or a JSON message.
\<close>

datatype response = TextResponse int string | JsonMessage int string

definition filled_node :: "node \<Rightarrow> object \<Rightarrow> node" where
  "filled_node n x = (case x of ObjNode m \<Rightarrow> m | _ \<Rightarrow> n)"

text \<open>The loop over the addresses stops at the first internal one.\<close>

fun firstInternalIP :: "(string \<times> string) list \<Rightarrow> string" where
  "firstInternalIP [] = ''''"
| "firstInternalIP ((type, address) # addrs) =
     (if type = ''InternalIP'' then address else firstInternalIP addrs)"

definition nodesHandler :: "'w kube \<Rightarrow> string \<Rightarrow> 'w \<Rightarrow> response \<times> 'w" where
  "nodesHandler K name w =
     (let node = \<lparr>node_meta = empty_meta '''' name, node_Addresses = []\<rparr> in
      case k_Get K (ObjectKeyFromObject (ObjNode node)) (ObjNode node) w of
        (Some noe, x, w) \<Rightarrow> (JsonMessage 500 (err_text noe), w)
      | (None, x, w) \<Rightarrow>
          (let nodeIP = firstInternalIP (node_Addresses (filled_node node x)) in
           if nodeIP = '''' then (JsonMessage 500 ''node ip not found'', w)
           else (TextResponse 200 nodeIP, w)))"

text \<open>
  The address the handler serves, declaratively: that of the first entry of type \<open>InternalIP\<close>.
\<close>

lemma firstInternalIP_find:
  "firstInternalIP addrs =
     (case find (\<lambda>a. fst a = ''InternalIP'') addrs of None \<Rightarrow> '''' | Some a \<Rightarrow> snd a)"
  by (induction addrs rule: firstInternalIP.induct) auto

end
