(* ===== verification/Observation.thy ===== *)
theory Observation
  imports Lifecycle NodeApi
begin

text \<open>
  Properties of what the operator reads and reports: the phase of a cluster, the count of running
  pods, the answer of the node endpoint, and the object-storage client.
\<close>

section \<open>The phase\<close>

definition podReady :: "pod \<Rightarrow> bool" where
  "podReady p \<longleftrightarrow> pod_Phase p = ''Running''
     \<and> (\<forall>(t, s) \<in> set (pod_Conditions p). t = ''Ready'' \<longrightarrow> s = ConditionTrue)"

definition readyCount :: "pod list \<Rightarrow> int" where
  "readyCount ps = int (length (filter podReady ps))"

lemma countRunning_readyCount: "countRunning 0 ps = readyCount ps"
  by (simp add: countRunning_eq readyCount_def podReady_def [abs_def] allContainersReady_iff)

text \<open>
  The number of running pods of a role is the number of listed pods in phase \<open>Running\<close> whose
  every condition of type \<open>Ready\<close> is True; an error of the listing is wrapped and returned.
\<close>

theorem running_pods_counted:
  "getPodRunningNum K ns l w =
    (map_sum (\<lambda>e. ErrorsNew (''error listing pods: '' @ err_text e)) readyCount
       (fst (k_ListPods K ns l w)), snd (k_ListPods K ns l w))"
  by (simp add: getPodRunningNum_def countRunning_readyCount split: prod.split sum.split)

definition expectedPhase :: "AutoMQ \<Rightarrow> pod list \<Rightarrow> pod list \<Rightarrow> AutoMQPhase" where
  "expectedPhase a cps bps =
     (if \<exists>c \<in> set (st_Conditions (mq_Status a)). co_Status c \<noteq> ConditionTrue then AutoMQError
      else if word_of_int (readyCount cps) = cs_Replicas (controllerSpec a)
              \<and> word_of_int (readyCount bps) = bs_Replicas (brokerSpec a) then AutoMQReady
      else AutoMQInProcess)"

text \<open>The custom resource a pass of the ticker is about to write: phase and count are new.\<close>

definition observed :: "AutoMQ \<Rightarrow> AutoMQPhase \<Rightarrow> int32 \<Rightarrow> AutoMQ" where
  "observed a p n = a\<lparr>mq_Status := (mq_Status a)\<lparr>st_Phase := p, st_ReadyPods := n\<rparr>\<rparr>"

lemma observed_sel [simp]:
  "mq_meta (observed a p n) = mq_meta a" "mq_Spec (observed a p n) = mq_Spec a"
  "st_Phase (mq_Status (observed a p n)) = p" "st_ReadyPods (mq_Status (observed a p n)) = n"
  "st_Conditions (mq_Status (observed a p n)) = st_Conditions (mq_Status a)"
  "st_ControllerReplicas (mq_Status (observed a p n)) = st_ControllerReplicas (mq_Status a)"
  "st_BrokerReplicas (mq_Status (observed a p n)) = st_BrokerReplicas (mq_Status a)"
  by (simp_all add: observed_def)

lemma setPhase_observed:
  "setPhase p a = observed a p (st_ReadyPods (mq_Status a))"
  "observed (observed a q n) p m = observed a p m"
  "(observed a q n)\<lparr>mq_Status := (mq_Status (observed a q n))\<lparr>st_ReadyPods := m\<rparr>\<rparr> = observed a q m"
  by (simp_all add: setPhase_def observed_def)

text \<open>The number of ready pods a pass stores.\<close>

definition expectedPods :: "AutoMQ \<Rightarrow> pod list \<Rightarrow> pod list \<Rightarrow> int32" where
  "expectedPods a cps bps =
     (if expectedPhase a cps bps = AutoMQError then st_ReadyPods (mq_Status a)
      else word_of_int (readyCount cps) + word_of_int (readyCount bps))"

lemma statusObserve_writes:
  assumes get: "k_Get (r_Client r) (ObjectKeyFromObject (ObjAutoMQ obj)) (ObjAutoMQ zero_automq) w
      = (None, ObjAutoMQ a, w1)"
    and lc: "k_ListPods (r_Client r) (mq_Namespace a) (getAutoMQLabelMap (mq_Name obj) controllerRole) w1
      = (Inr cps, w2)"
    and lb: "k_ListPods (r_Client r) (mq_Namespace a) (getAutoMQLabelMap (mq_Name obj) brokerRole) w2
      = (Inr bps, w3)"
  shows "\<exists>w4. statusObserve r obj w =
      (Inr (observed a (expectedPhase a cps bps) (expectedPods a cps bps)), w4) \<and> (w4 = w1 \<or> w4 = w3)"
proof (cases "conditionsTrue (st_Conditions (mq_Status a))")
  case True
  then have e: "\<not> (\<exists>c \<in> set (st_Conditions (mq_Status a)). co_Status c \<noteq> ConditionTrue)"
    by (simp add: conditionsTrue_iff)
  have "expectedPhase a cps bps \<noteq> AutoMQError" using e by (simp add: expectedPhase_def phase_defs)
  then show ?thesis
    using True e by (simp add: statusObserve_def get filled_automq_def getPodRunningNum_def lc lb
        Let_def countRunning_readyCount setPhase_observed expectedPods_def expectedPhase_def)
next
  case False
  then have e: "expectedPhase a cps bps = AutoMQError"
    by (simp add: expectedPhase_def conditionsTrue_iff)
  show ?thesis
    using False by (simp add: statusObserve_def get filled_automq_def Let_def setPhase_observed
        expectedPods_def e) (simp add: phase_defs)
qed

text \<open>Observing reads the stored custom resource, and changes nothing.\<close>

lemma getPodRunningNum_view:
  "list_law K view \<Longrightarrow> view (snd (getPodRunningNum K ns l w)) = view w"
  unfolding list_law_def by (simp add: getPodRunningNum_def split: prod.splits sum.splits) (metis snd_conv)

lemma statusObserve_view:
  assumes laws: "kube_laws (r_Client r) view" and run: "statusObserve r obj w = (res, w')"
  shows "view w' = view w \<and> (\<forall>c. res = Inr c \<longrightarrow>
    (\<exists>a p n. view w (okey (ObjAutoMQ obj)) = Some (ObjAutoMQ a) \<and> c = observed a p n))"
proof -
  let ?K = "r_Client r"
  obtain e x w1 where g: "k_Get ?K (ObjectKeyFromObject (ObjAutoMQ obj)) (ObjAutoMQ zero_automq) w
      = (e, x, w1)" by (metis prod_cases3)
  note v1 = get_law_view [OF kube_lawsD(2) [OF laws] g]
  show ?thesis
  proof (cases e)
    case (Some err)
    then show ?thesis using run v1 by (auto simp: statusObserve_def g)
  next
    case None
    from get_law_found [OF kube_lawsD(2) [OF laws] g [unfolded None]]
    have x: "view w (okey (ObjAutoMQ obj)) = Some x" by (simp add: ObjectKeyFromObject_def)
    from view_lawD [OF kube_lawsD(1) [OF laws] this] okey_kindE(5) [of x] obtain a where
      a: "x = ObjAutoMQ a" by auto
    obtain c w2 where c: "getPodRunningNum ?K (mq_Namespace a)
        (getAutoMQLabelMap (mq_Name obj) controllerRole) w1 = (c, w2)" by fastforce
    obtain b w3 where b: "getPodRunningNum ?K (mq_Namespace a)
        (getAutoMQLabelMap (mq_Name obj) brokerRole) w2 = (b, w3)" by fastforce
    have v: "view w2 = view w" "view w3 = view w"
      using getPodRunningNum_view [OF kube_lawsD(3) [OF laws]] c b v1 by (metis snd_conv)+
    show ?thesis
      using run x a v v1 by (auto simp: statusObserve_def g None filled_automq_def Let_def c b
          setPhase_observed split: sum.splits if_splits)
  qed
qed


text \<open>A cluster with one ready pod of each role.\<close>

definition samplePod :: "string \<Rightarrow> pod" where
  "samplePod role = \<lparr>pod_meta = (empty_meta ''prod'' role)
       \<lparr>om_Labels := getAutoMQLabelMap ''mq'' role\<rparr>,
     pod_Phase = ''Running'', pod_Conditions = [(''Ready'', ''True'')]\<rparr>"

definition runningCluster :: mem where
  "runningCluster = (cluster [ObjAutoMQ (sample ''mq'')])
     \<lparr>mem_pods := [samplePod controllerRole, samplePod brokerRole]\<rparr>"

lemma running_view [simp]:
  "mem_view runningCluster (KAutoMQ, ''prod'', ''mq'') = Some (ObjAutoMQ (sample ''mq''))"
proof -
  have "mem_view runningCluster k = mem_view (cluster [ObjAutoMQ (sample ''mq'')]) k" for k
    by (simp add: mem_view_def runningCluster_def)
  then show ?thesis by simp
qed

lemma mem_syncStatus_ok:
  assumes "mem_view w (okey (ObjAutoMQ a)) = Some (ObjAutoMQ c)"
  shows "\<exists>w'. syncStatus (mem_kube allow) a w = (None, w')"
proof -
  from mem_view_okey [OF assms] have "okey (ObjAutoMQ c) = okey (ObjAutoMQ a)" .
  with assms have "fst (syncStatus (mem_kube allow) a w) = None"
    by (simp add: syncStatus_def numeral_eq_Suc syncStatus_attempt_def mem_get_def
        ObjectKeyFromObject_def mem_status_update_def filled_automq_def Let_def)
  then show ?thesis by (cases "syncStatus (mem_kube allow) a w") simp
qed

lemma listed_pods:
  "mem_list_pods ''prod'' (getAutoMQLabelMap ''mq'' controllerRole)
     (w\<lparr>mem_pods := [samplePod controllerRole, samplePod brokerRole]\<rparr>) =
    (Inr [samplePod controllerRole], w\<lparr>mem_pods := [samplePod controllerRole, samplePod brokerRole]\<rparr>)"
  "mem_list_pods ''prod'' (getAutoMQLabelMap ''mq'' brokerRole)
     (w\<lparr>mem_pods := [samplePod controllerRole, samplePod brokerRole]\<rparr>) =
    (Inr [samplePod brokerRole], w\<lparr>mem_pods := [samplePod controllerRole, samplePod brokerRole]\<rparr>)"
proof -
  have "\<not> getAutoMQLabelMap ''mq'' brokerRole \<subseteq>\<^sub>m getAutoMQLabelMap ''mq'' controllerRole"
    "\<not> getAutoMQLabelMap ''mq'' controllerRole \<subseteq>\<^sub>m getAutoMQLabelMap ''mq'' brokerRole"
    by (auto simp: getAutoMQLabelMap_def map_le_def controllerRole_def brokerRole_def
        intro!: exI [of _ "''app.kubernetes.io/role''"] bexI [of _ "''app.kubernetes.io/role''"])
  then show "mem_list_pods ''prod'' (getAutoMQLabelMap ''mq'' controllerRole)
     (w\<lparr>mem_pods := [samplePod controllerRole, samplePod brokerRole]\<rparr>) =
    (Inr [samplePod controllerRole], w\<lparr>mem_pods := [samplePod controllerRole, samplePod brokerRole]\<rparr>)"
    "mem_list_pods ''prod'' (getAutoMQLabelMap ''mq'' brokerRole)
     (w\<lparr>mem_pods := [samplePod controllerRole, samplePod brokerRole]\<rparr>) =
    (Inr [samplePod brokerRole], w\<lparr>mem_pods := [samplePod controllerRole, samplePod brokerRole]\<rparr>)"
    by (simp_all add: mem_list_pods_def samplePod_def empty_meta_def)
qed

lemmas running_pods = listed_pods [of "cluster [ObjAutoMQ (sample ''mq'')]", folded runningCluster_def]



section \<open>The node endpoint\<close>

lemma firstInternalIP_split:
  "firstInternalIP addrs = ip \<Longrightarrow> ip \<noteq> '''' \<Longrightarrow>
    \<exists>pre post. addrs = pre @ (''InternalIP'', ip) # post \<and> (\<forall>a \<in> set pre. fst a \<noteq> ''InternalIP'')"
proof (induction addrs rule: firstInternalIP.induct)
  case (2 t a addrs)
  show ?case
  proof (cases "t = ''InternalIP''")
    case True
    show ?thesis
      by (rule exI [of _ "[]"], rule exI [of _ addrs]) (use "2.prems" True in simp)
  next
    case False
    with "2.IH" "2.prems" obtain pre post where
      ih: "addrs = pre @ (''InternalIP'', ip) # post" "\<forall>a \<in> set pre. fst a \<noteq> ''InternalIP''" by auto
    show ?thesis
      by (rule exI [of _ "(t, a) # pre"], rule exI [of _ post]) (use ih False in simp)
  qed
qed simp

text \<open>
  C35: when the node endpoint answers with an address, the status is 200, and the address is the
  non-empty address of the first entry of type \<open>InternalIP\<close> of the stored node of that name.
\<close>

theorem node_endpoint_sound:
  assumes laws: "kube_laws K view" and res: "nodesHandler K name w = (TextResponse code ip, w')"
  shows "code = 200 \<and> ip \<noteq> ''''
    \<and> (\<exists>n pre post. view w (KNode, '''', name) = Some (ObjNode n)
         \<and> node_Addresses n = pre @ (''InternalIP'', ip) # post
         \<and> (\<forall>a \<in> set pre. fst a \<noteq> ''InternalIP''))"
proof -
  let ?n = "\<lparr>node_meta = empty_meta '''' name, node_Addresses = []\<rparr>"
  obtain e x w1 where g: "k_Get K (ObjectKeyFromObject (ObjNode ?n)) (ObjNode ?n) w = (e, x, w1)"
    by (metis prod_cases3)
  with res have e: "e = None" and ip: "firstInternalIP (node_Addresses (filled_node ?n x)) = ip"
    and "ip \<noteq> ''''" "code = 200"
    by (auto simp: nodesHandler_def Let_def split: option.splits if_splits)
  from get_law_found [OF kube_lawsD(2) [OF laws] g [unfolded e]]
  have v: "view w (KNode, '''', name) = Some x"
    by (simp add: ObjectKeyFromObject_def empty_meta_def)
  with view_lawD [OF kube_lawsD(1) [OF laws] v] obtain n where "x = ObjNode n" by (cases x) auto
  with ip firstInternalIP_split [OF _ \<open>ip \<noteq> ''''\<close>] v \<open>ip \<noteq> ''''\<close> \<open>code = 200\<close> show ?thesis
    by (simp add: filled_node_def)
qed

definition sampleNode :: node where
  "sampleNode = \<lparr>node_meta = empty_meta '''' ''n1'',
     node_Addresses = [(''Hostname'', ''n1''), (''InternalIP'', ''10.0.0.7'')]\<rparr>"

theorem node_endpoint_sound_witness:
  "fst (nodesHandler (mem_kube allow) ''n1'' (cluster [ObjNode sampleNode])) =
     TextResponse 200 ''10.0.0.7''
    \<and> mem_view (cluster [ObjNode sampleNode]) (KNode, '''', ''n1'') = Some (ObjNode sampleNode)"
proof -
  have "nodesHandler (mem_kube allow) ''n1'' (cluster [ObjNode sampleNode]) =
      (TextResponse 200 ''10.0.0.7'', cluster [ObjNode sampleNode])"
    by (simp add: nodesHandler_def mem_get_def ObjectKeyFromObject_def sampleNode_def
        empty_meta_def filled_node_def)
  with node_endpoint_sound [OF mem_kube_laws this] show ?thesis
    by (simp add: sampleNode_def empty_meta_def)
qed

section \<open>The object store\<close>

text \<open>
  C36: the maximal backoff given to the SDK is the configured number of milliseconds as long as it
  is at most 2147; the default is 20 milliseconds and 10 attempts, where the comments of
  \<open>Config\<close> promise 20 seconds and 5; and 20 seconds, written as 20000 milliseconds, wraps to a
  negative duration.
\<close>

theorem backoff_of_config:
  "(cfg_MaxBackoffDelay cfg = None \<longrightarrow> sint (awsMaxBackoff cfg) = 20 * 1000000)
    \<and> (cfg_MaxRetryAttempts cfg = None \<longrightarrow> awsMaxAttempts cfg = 10)
    \<and> (\<forall>m. cfg_MaxBackoffDelay cfg = Some m \<and> - 2147 \<le> sint m \<and> sint m \<le> 2147 \<longrightarrow>
         sint (awsMaxBackoff cfg) = sint m * 1000000)
    \<and> (cfg_MaxBackoffDelay cfg = Some 20000 \<longrightarrow> sint (awsMaxBackoff cfg) < 0)"
proof (intro conjI allI impI)
  fix m
  assume "cfg_MaxBackoffDelay cfg = Some m \<and> - 2147 \<le> sint m \<and> sint m \<le> 2147"
  then show "sint (awsMaxBackoff cfg) = sint m * 1000000" using awsMaxBackoff_small by blast
qed (simp_all add: awsMaxBackoff_def awsMaxAttempts_def sint_scast_int64 Let_def)

definition sampleConfig :: "int32 option \<Rightarrow> Config" where
  "sampleConfig m = \<lparr>cfg_Type = ''s3'', cfg_Key = ''k'', cfg_Secret = ''s'', cfg_Region = ''us'',
     cfg_Endpoint = ''minio:9000'', cfg_MaxBackoffDelay = m, cfg_MaxRetryAttempts = None\<rparr>"

theorem backoff_of_config_witness:
  "sint (awsMaxBackoff (sampleConfig None)) = 20000000
    \<and> sint (awsMaxBackoff (sampleConfig (Some 500))) = 500000000
    \<and> sint (awsMaxBackoff (sampleConfig (Some 20000))) < 0"
  using backoff_of_config [of "sampleConfig None"] backoff_of_config [of "sampleConfig (Some 500)"]
    backoff_of_config [of "sampleConfig (Some 20000)"]
  by (simp add: sampleConfig_def)

definition s3Config :: "AutoMQ \<Rightarrow> Config" where
  "s3Config obj = \<lparr>cfg_Type = ''s3'', cfg_Key = s3_AccessKeyID (spec_S3 (mq_Spec obj)),
     cfg_Secret = s3_SecretAccessKey (spec_S3 (mq_Spec obj)),
     cfg_Region = s3_Region (spec_S3 (mq_Spec obj)), cfg_Endpoint = s3_Endpoint (spec_S3 (mq_Spec obj)),
     cfg_MaxBackoffDelay = None, cfg_MaxRetryAttempts = None\<rparr>"

definition httpEndpoint :: "string \<Rightarrow> string" where
  "httpEndpoint e = (if hasPrefix e ''http'' then e else ''http://'' @ e)"

lemma NewBucket_client:
  assumes "NewBucket S cfg w = (Inr s, w')"
  shows "ao_EndpointURL (cl_Options (s3s_client s)) = httpEndpoint (cfg_Endpoint cfg)"
    and "ao_Region (cl_Options (s3s_client s)) = cfg_Region cfg"
    and "cl_UsePathStyle (s3s_client s)"
proof -
  define cfg' where "cfg' = (if \<not> hasPrefix (cfg_Endpoint cfg) ''http''
    then cfg\<lparr>cfg_Endpoint := ''http://'' @ cfg_Endpoint cfg\<rparr> else cfg)"
  have c: "cfg_Endpoint cfg' = httpEndpoint (cfg_Endpoint cfg)" "cfg_Region cfg' = cfg_Region cfg"
    by (simp_all add: cfg'_def httpEndpoint_def)
  from assms have "newS3BucketService S cfg' w = (Inr s, w')"
    unfolding NewBucket_def Let_def cfg'_def [symmetric] by (simp split: if_splits)
  then have "ao_EndpointURL (cl_Options (s3s_client s)) = cfg_Endpoint cfg'"
    "ao_Region (cl_Options (s3s_client s)) = cfg_Region cfg'" "cl_UsePathStyle (s3s_client s)"
    by (auto simp: newS3BucketService_def awsConfig_def Let_def split: prod.splits option.splits)
  with c show "ao_EndpointURL (cl_Options (s3s_client s)) = httpEndpoint (cfg_Endpoint cfg)"
    and "ao_Region (cl_Options (s3s_client s)) = cfg_Region cfg"
    and "cl_UsePathStyle (s3s_client s)" by simp_all
qed




definition page :: "(goerror + string option list) \<times> 'w \<Rightarrow> (goerror + string list) go \<times> 'w" where
  "page p = (case fst p of
     Inl e \<Rightarrow> Val (Inl e)
   | Inr names \<Rightarrow> if None \<in> set names then Panic ''nil pointer dereference''
                  else Val (Inr (map the names)), snd p)"

lemma list_keys_page: "list_keys p = page p"
  by (cases p) (simp add: list_keys_eq page_def split: sum.split)

text \<open>
  The three listings return the names of the single page the SDK answers with, in its order,
  pass its error on, and panic exactly if an entry of the page has a nil name; nothing asks for
  the pages after the first.
\<close>

theorem listings_one_page:
  "ListObjects S s b p w = page (apfst (map_sum id lr_Contents)
      (sdk_ListObjects S (s3s_client s) b (if p = '''' then None else Some p) None w))
    \<and> ListPrefix S s b p w = page (apfst (map_sum id lr_CommonPrefixes)
      (sdk_ListObjects S (s3s_client s) b (if p = '''' then None else Some p) (Some ''/'') w))
    \<and> ListBuckets S s w = page (sdk_ListBuckets S (s3s_client s) w)"
  by (simp add: ListObjects_def ListPrefix_def ListBuckets_def list_keys_page ptr_prefix_def
      apfst_def map_prod_def split: prod.split)

end
