(* ===== verification/Operator.thy ===== *)
theory Operator
  imports Observation
begin

text \<open>
  The running operator as a state machine. Its state is the world, the status tickers that run,
  the passes of tickers in flight, and the reconciliations in flight, at most one per custom
  resource (the work queue never hands out a key that is being worked on). A step begins a call
  of \<open>Reconcile\<close>, runs one stage of its pipeline, or ends it by writing the status; begins a
  pass of a ticker (reads the resource and counts its pods) or ends it (writes the status it
  computed); or is a change made by somebody else. The steps interleave in any order.
\<close>

section \<open>States and steps\<close>

record 'w operator =
  op_world :: 'w
  op_tickers :: "nsname list"
  op_pending :: "(nsname \<times> AutoMQ) list"
  op_workers :: "nsname \<Rightarrow> (nat \<times> AutoMQ) option"

text \<open>
  The goroutine that \<open>Reconcile\<close> starts keeps the object it fetched; \<open>statusReconcile\<close> reads
  nothing of it but its name and namespace.
\<close>

definition keyObject :: "nsname \<Rightarrow> AutoMQ" where
  "keyObject req = zero_automq\<lparr>mq_meta := empty_meta (fst req) (snd req)\<rparr>"

lemma keyObject_sel [simp]:
  "mq_Namespace (keyObject req) = fst req" "mq_Name (keyObject req) = snd req"
  by (simp_all add: keyObject_def empty_meta_def)

lemma statusReconcile_key:
  assumes "mq_Namespace a = mq_Namespace b" and "mq_Name a = mq_Name b"
  shows "statusReconcile r a w = statusReconcile r b w"
proof -
  have "ObjectKeyFromObject (ObjAutoMQ a) = ObjectKeyFromObject (ObjAutoMQ b)"
    using assms by (simp add: ObjectKeyFromObject_def)
  then show ?thesis unfolding statusReconcile_def statusObserve_def assms(2) by (simp only:)
qed

text \<open>
  \<open>Returned\<close> is a call of \<open>Reconcile\<close> that ends before its pipeline, with the error it returns
  and whether it started a ticker; \<open>Started\<close> one that goes on. \<open>StageRun\<close> carries the index of the
  stage and what it returned, \<open>Finished\<close> and \<open>TickWrite\<close> what \<open>syncStatus\<close> returned.
\<close>

datatype label =
    Started nsname
  | Returned nsname "goerror option" bool
  | StageRun nsname nat bool
  | Finished nsname "goerror option"
  | TickRead nsname
  | TickWrite nsname "goerror option"
  | Other

definition inFlight :: "nsname \<Rightarrow> goerror option + AutoMQ \<Rightarrow> (nsname \<times> AutoMQ) list" where
  "inFlight req res = (case res of Inl _ \<Rightarrow> [] | Inr a \<Rightarrow> [(req, a)])"

text \<open>A stage that returns false ends the loop over the pipeline.\<close>

definition nextStage :: "bool \<Rightarrow> nat \<Rightarrow> nat" where
  "nextStage ifRunning n = (if ifRunning then Suc n else 7)"

inductive op_step :: "'w reconciler \<Rightarrow> ctx \<Rightarrow> ('w \<Rightarrow> 'w \<Rightarrow> bool) \<Rightarrow>
    'w operator \<Rightarrow> label \<Rightarrow> 'w operator \<Rightarrow> bool"
  for r :: "'w reconciler" and ctx :: ctx and env :: "'w \<Rightarrow> 'w \<Rightarrow> bool" where
  started: "op_workers s req = None \<Longrightarrow> startReconcile r req (op_world s) = (Inr a, w') \<Longrightarrow>
    op_step r ctx env s (Started req)
      (s\<lparr>op_world := w', op_tickers := req # op_tickers s,
         op_workers := (op_workers s)(req \<mapsto> (0, setAddresses a))\<rparr>)"
| returned: "op_workers s req = None \<Longrightarrow>
    startReconcile r req (op_world s) = (Inl (e, ticker), w') \<Longrightarrow>
    op_step r ctx env s (Returned req e ticker)
      (s\<lparr>op_world := w', op_tickers := (if ticker then [req] else []) @ op_tickers s\<rparr>)"
| stage_run: "op_workers s req = Some (n, a) \<Longrightarrow> n < 7 \<Longrightarrow>
    (pipelines r ctx ! n) a (op_world s) = (Val (ifRunning, a'), w') \<Longrightarrow>
    op_step r ctx env s (StageRun req n ifRunning)
      (s\<lparr>op_world := w', op_workers := (op_workers s)(req \<mapsto> (nextStage ifRunning n, a'))\<rparr>)"
| finished: "op_workers s req = Some (n, a) \<Longrightarrow> 7 \<le> n \<Longrightarrow>
    syncStatus (r_Client r) (recordReplicas a) (op_world s) = (e, w') \<Longrightarrow>
    op_step r ctx env s (Finished req e)
      (s\<lparr>op_world := w', op_workers := (op_workers s)(req := None)\<rparr>)"
| tick_read: "req \<in> set (op_tickers s) \<Longrightarrow>
    statusObserve r (keyObject req) (op_world s) = (res, w') \<Longrightarrow>
    op_step r ctx env s (TickRead req)
      (s\<lparr>op_world := w', op_pending := inFlight req res @ op_pending s\<rparr>)"
| tick_write: "(req, a) \<in> set (op_pending s) \<Longrightarrow>
    syncStatus (r_Client r) a (op_world s) = (e, w') \<Longrightarrow>
    op_step r ctx env s (TickWrite req e)
      (s\<lparr>op_world := w', op_pending := remove1 (req, a) (op_pending s)\<rparr>)"
| other: "env (op_world s) w' \<Longrightarrow> op_step r ctx env s Other (s\<lparr>op_world := w'\<rparr>)"

inductive_cases startedE: "op_step r ctx env s (Started req) s'"
inductive_cases returnedE: "op_step r ctx env s (Returned req e ticker) s'"
inductive_cases stage_runE: "op_step r ctx env s (StageRun req n ifRunning) s'"
inductive_cases finishedE: "op_step r ctx env s (Finished req e) s'"
inductive_cases tick_writeE: "op_step r ctx env s (TickWrite req e) s'"

inductive op_run :: "'w reconciler \<Rightarrow> ctx \<Rightarrow> ('w \<Rightarrow> 'w \<Rightarrow> bool) \<Rightarrow>
    'w operator \<Rightarrow> label list \<Rightarrow> 'w operator \<Rightarrow> bool"
  for r :: "'w reconciler" and ctx :: ctx and env :: "'w \<Rightarrow> 'w \<Rightarrow> bool" where
  start: "op_run r ctx env s [] s"
| step: "op_run r ctx env s ls s1 \<Longrightarrow> op_step r ctx env s1 l s2 \<Longrightarrow>
    op_run r ctx env s (ls @ [l]) s2"

lemma op_run_single: "op_step r ctx env s l s' \<Longrightarrow> op_run r ctx env s [l] s'"
  using op_run.step [OF op_run.start] by fastforce

lemma op_run_append:
  assumes "op_run r ctx env s1 ls2 s2" and "op_run r ctx env s ls1 s1"
  shows "op_run r ctx env s (ls1 @ ls2) s2"
  using assms
proof (induction rule: op_run.induct)
  case (step s1 ls sa l sb)
  from op_run.step [OF step.IH [OF step.prems] step.hyps(2)] show ?case by simp
qed simp

lemma op_run_ConsE:
  assumes "op_run r ctx env s (l # ls) s'"
  obtains s1 where "op_step r ctx env s l s1" and "op_run r ctx env s1 ls s'"
proof -
  have "\<exists>s1. op_step r ctx env s l s1 \<and> op_run r ctx env s1 ls s'"
    if "op_run r ctx env s ks s'" "ks = l # ls" for ks
    using that
  proof (induction arbitrary: ls rule: op_run.induct)
    case (step s ks s1 k s2)
    show ?case
    proof (cases ks)
      case Nil
      with step.hyps(1) have "s1 = s" by (auto elim: op_run.cases)
      with Nil step.hyps(2) step.prems show ?thesis using op_run.start by fastforce
    next
      case (Cons k' ks')
      with step.IH step.prems step.hyps(2) show ?thesis by (auto intro: op_run.step)
    qed
  qed simp
  with assms that show thesis by blast
qed

lemma op_run_snocE:
  assumes "op_run r ctx env s (ls @ [l]) s'"
  obtains s1 where "op_run r ctx env s ls s1" and "op_step r ctx env s1 l s'"
  using assms by (auto elim: op_run.cases)

text \<open>The custom resource whose reconciliation or ticker makes the step.\<close>

fun label_key :: "label \<Rightarrow> nsname option" where
  "label_key (Started req) = Some req"
| "label_key (Returned req e ticker) = Some req"
| "label_key (StageRun req n ifRunning) = Some req"
| "label_key (Finished req e) = Some req"
| "label_key (TickRead req) = Some req"
| "label_key (TickWrite req e) = Some req"
| "label_key Other = None"

lemma op_step_workers:
  assumes "op_step r ctx env s l s'" and "label_key l \<noteq> Some req"
  shows "op_workers s' req = op_workers s req"
  using assms by (cases rule: op_step.cases) auto

text \<open>An operator that starts on a cluster.\<close>

abbreviation startOn :: "'w \<Rightarrow> 'w operator" where
  "startOn w \<equiv> \<lparr>op_world = w, op_tickers = [], op_pending = [], op_workers = Map.empty\<rparr>"

section \<open>A call that is not interrupted\<close>

text \<open>
  The steps of one call of \<open>Reconcile\<close> that returns the error \<open>e\<close>: it returns before its
  pipeline, or it starts, runs stages and finishes.
\<close>

definition stageLabel :: "nsname \<Rightarrow> label \<Rightarrow> bool" where
  "stageLabel req l \<longleftrightarrow> (\<exists>n b. l = StageRun req n b)"

definition callTrace :: "nsname \<Rightarrow> label list \<Rightarrow> goerror option \<Rightarrow> bool \<Rightarrow> bool" where
  "callTrace req ls e ticker \<longleftrightarrow> ls = [Returned req e ticker]
     \<or> ticker \<and> (\<exists>stages. ls = Started req # stages @ [Finished req e]
          \<and> list_all (stageLabel req) stages)"

text \<open>The state after a call has moved on to stage \<open>n\<close>, and after it has returned.\<close>

abbreviation working :: "'w operator \<Rightarrow> nsname \<Rightarrow> 'w \<Rightarrow> nat \<Rightarrow> AutoMQ \<Rightarrow> 'w operator" where
  "working s req w n a \<equiv> s\<lparr>op_world := w, op_workers := (op_workers s)(req \<mapsto> (n, a))\<rparr>"

lemma stages_run:
  assumes "runPipeline (drop n (pipelines r ctx)) a w = (Val b, w')"
    and "op_workers s req = Some (n, a)" and "op_world s = w"
  shows "\<exists>ls m. list_all (stageLabel req) ls \<and> 7 \<le> m \<and> length ls \<le> 7 - n
    \<and> op_run r ctx env s ls (working s req w' m b)"
  using assms
proof (induction "7 - n" arbitrary: n a w s)
  case 0
  then have "working s req w' n b = s" by (cases s) (auto simp: fun_upd_idem_iff)
  then have "op_run r ctx env s [] (working s req w' n b)" by (simp only: op_run.start)
  with 0 show ?case by (intro exI [of _ "[]"] exI [of _ n]) (simp del: fun_upd_apply)
next
  case (Suc k)
  then have n: "n < 7" by simp
  then have "drop n (pipelines r ctx) = pipelines r ctx ! n # drop (Suc n) (pipelines r ctx)"
    by (simp add: Cons_nth_drop_Suc)
  with Suc.prems(1) obtain ifRunning a1 w1 where
    st: "(pipelines r ctx ! n) a w = (Val (ifRunning, a1), w1)"
    and rest: "(if \<not> ifRunning then (Val a1, w1)
      else runPipeline (drop (Suc n) (pipelines r ctx)) a1 w1) = (Val b, w')"
    by (auto simp: go_bind_Val_iff)
  let ?s1 = "working s req w1 (nextStage ifRunning n) a1"
  from op_step.stage_run [OF Suc.prems(2) n] st Suc.prems(3)
  have "op_step r ctx env s (StageRun req n ifRunning) ?s1" by simp
  then have 1: "op_run r ctx env s [StageRun req n ifRunning] ?s1" by (rule op_run_single)
  show ?case
  proof (cases ifRunning)
    case False
    with 1 rest n show ?thesis
      by (intro exI [of _ "[StageRun req n ifRunning]"] exI [of _ 7])
        (auto simp: stageLabel_def nextStage_def)
  next
    case True
    moreover have "k = 7 - Suc n" using Suc.hyps(2) by simp
    ultimately obtain ls m where
      "list_all (stageLabel req) ls" "7 \<le> m" "length ls \<le> 7 - Suc n"
      "op_run r ctx env ?s1 ls (working ?s1 req w' m b)"
      using Suc.hyps(1) [of "Suc n" a1 w1 ?s1] rest by (auto simp: nextStage_def)
    with op_run_append [OF this(4) 1] n show ?thesis
      by (intro exI [of _ "StageRun req n ifRunning # ls"] exI [of _ m])
        (auto simp: stageLabel_def)
  qed
qed

lemma run_stages:
  assumes "op_run r ctx env s ls s'" and "list_all (stageLabel req) ls"
    and "op_workers s req = Some (n, a)"
  shows "\<exists>m b. op_workers s' req = Some (m, b)
    \<and> runPipeline (drop n (pipelines r ctx)) a (op_world s) =
        runPipeline (drop m (pipelines r ctx)) b (op_world s')"
  using assms
proof (induction rule: op_run.induct)
  case (step s ls s1 l s2)
  then obtain m b where w: "op_workers s1 req = Some (m, b)"
    and run: "runPipeline (drop n (pipelines r ctx)) a (op_world s) =
        runPipeline (drop m (pipelines r ctx)) b (op_world s1)" by auto
  from step.prems(1) obtain i ifRunning where "l = StageRun req i ifRunning"
    by (auto simp: stageLabel_def)
  with step.hyps(2) have "op_step r ctx env s1 (StageRun req i ifRunning) s2" by simp
  from this w obtain b' w' where m: "m < 7"
    and st: "(pipelines r ctx ! m) b (op_world s1) = (Val (ifRunning, b'), w')"
    and s2: "s2 = working s1 req w' (nextStage ifRunning m) b'"
    by (auto elim!: stage_runE)
  have "drop m (pipelines r ctx) = pipelines r ctx ! m # drop (Suc m) (pipelines r ctx)"
    using m by (simp add: Cons_nth_drop_Suc)
  then have "runPipeline (drop m (pipelines r ctx)) b (op_world s1) =
      runPipeline (drop (nextStage ifRunning m) (pipelines r ctx)) b' w'"
    using st by (simp add: nextStage_def)
  with run s2 show ?case by simp
qed simp

text \<open>What a call leaves of the state: the world it made, and perhaps one more ticker.\<close>

definition called :: "nsname \<Rightarrow> bool \<Rightarrow> 'w \<Rightarrow> 'w operator \<Rightarrow> 'w operator" where
  "called req ticker w s =
     s\<lparr>op_world := w, op_tickers := (if ticker then [req] else []) @ op_tickers s\<rparr>"

lemma called_sel [simp]:
  "op_world (called req ticker w s) = w"
  "op_tickers (called req ticker w s) = (if ticker then [req] else []) @ op_tickers s"
  "op_pending (called req ticker w s) = op_pending s"
  "op_workers (called req ticker w s) = op_workers s"
  by (simp_all add: called_def)

lemma Reconcile_run:
  assumes free: "op_workers s req = None"
    and big: "Reconcile r ctx req (op_world s) = (Val (e, ticker), w')"
  shows "\<exists>ls. callTrace req ls e ticker \<and> op_run r ctx env s ls (called req ticker w' s)"
proof -
  obtain res w1 where st: "startReconcile r req (op_world s) = (res, w1)" by fastforce
  show ?thesis
  proof (cases res)
    case (Inl p)
    with big st have "res = Inl (e, ticker)" "w1 = w'" by (simp_all add: Reconcile_def)
    with op_run_single [OF op_step.returned [OF free]] st show ?thesis
      unfolding called_def by (fastforce simp: callTrace_def)
  next
    case (Inr a)
    with big st obtain b w2 where
      run: "runPipeline (pipelines r ctx) (setAddresses a) w1 = (Val b, w2)"
      and fin: "syncStatus (r_Client r) (recordReplicas b) w2 = (e, w')" and t: ticker
      by (auto simp: Reconcile_def go_bind_Val_iff reconcile_Val_iff)
    let ?s1 = "s\<lparr>op_world := w1, op_tickers := req # op_tickers s,
         op_workers := (op_workers s)(req \<mapsto> (0, setAddresses a))\<rparr>"
    have 1: "op_run r ctx env s [Started req] ?s1"
      using st Inr by (intro op_run_single op_step.started [OF free]) simp
    from stages_run [of 0 r ctx "setAddresses a" w1 b w2 ?s1 req env] run obtain ls m where
      ls: "list_all (stageLabel req) ls" and m: "7 \<le> m"
      and 2: "op_run r ctx env ?s1 ls (working ?s1 req w2 m b)" by auto
    let ?s2 = "working ?s1 req w2 m b"
    have "op_step r ctx env ?s2 (Finished req e)
        (?s2\<lparr>op_world := w', op_workers := (op_workers ?s2)(req := None)\<rparr>)"
      using op_step.finished [of ?s2 req m b r e w' ctx env] m fin by simp
    moreover have "?s2\<lparr>op_world := w', op_workers := (op_workers ?s2)(req := None)\<rparr>
        = called req ticker w' s"
      using free t by (cases s) (simp add: called_def fun_upd_idem)
    ultimately have "op_step r ctx env ?s2 (Finished req e) (called req ticker w' s)" by simp
    from op_run.step [OF op_run_append [OF 2 1] this] ls t show ?thesis
      by (intro exI [of _ "Started req # ls @ [Finished req e]"] conjI)
        (auto simp: callTrace_def)
  qed
qed

lemma run_Reconcile:
  assumes t: "callTrace req ls e ticker" and run: "op_run r ctx env s ls s'"
  shows "Reconcile r ctx req (op_world s) = (Val (e, ticker), op_world s')"
proof -
  from t consider (ret) "ls = [Returned req e ticker]"
    | (full) stages where "ls = Started req # stages @ [Finished req e]"
      "list_all (stageLabel req) stages" ticker by (auto simp: callTrace_def)
  then show ?thesis
  proof cases
    case ret
    with run have "op_step r ctx env s (Returned req e ticker) s'"
      by (cases rule: op_run.cases) (auto elim: op_run.cases)
    then show ?thesis by (auto elim!: returnedE simp: Reconcile_def)
  next
    case full
    from run [unfolded full(1)] obtain s1 s2 where
      1: "op_step r ctx env s (Started req) s1" and 2: "op_run r ctx env s1 stages s2"
      and 3: "op_step r ctx env s2 (Finished req e) s'"
      by (auto elim!: op_run_ConsE op_run_snocE)
    from 1 obtain a w1 where st: "startReconcile r req (op_world s) = (Inr a, w1)"
      and s1: "op_workers s1 req = Some (0, setAddresses a)" "op_world s1 = w1"
      by (auto elim!: startedE)
    from run_stages [OF 2 full(2) s1(1)] s1(2) obtain m b where
      m: "op_workers s2 req = Some (m, b)"
      and p: "runPipeline (pipelines r ctx) (setAddresses a) w1 =
        runPipeline (drop m (pipelines r ctx)) b (op_world s2)" by auto
    from 3 m have "7 \<le> m"
      "syncStatus (r_Client r) (recordReplicas b) (op_world s2) = (e, op_world s')"
      by (auto elim!: finishedE)
    with st p full(3) show ?thesis by (simp add: Reconcile_def reconcile_def)
  qed
qed



end
