(* ===== verification/Interleavings.thy ===== *)
theory Interleavings
  imports Operator
begin

text \<open>
  What holds over every interleaving of the operator's steps: what no step touches, that tickers
  only accumulate, that every reconciliation ends, and that what is deleted stays deleted.
\<close>

section \<open>What is in flight\<close>

text \<open>A pass in flight writes to the resource it was started for, and so does a reconciliation.\<close>

definition isFor :: "nsname \<Rightarrow> AutoMQ \<Rightarrow> bool" where
  "isFor req a \<longleftrightarrow> okey (ObjAutoMQ a) = (KAutoMQ, req)"

lemma isForD: "isFor req a \<Longrightarrow> (mq_Namespace a, mq_Name a) = req"
  by (simp add: isFor_def)

lemma isFor_keeps: "isFor req a \<Longrightarrow> keeps a a' \<Longrightarrow> isFor req a'"
  by (simp add: isFor_def keeps_def)

lemma isFor_set [simp]:
  "isFor req (setAddresses a) = isFor req a" "isFor req (recordReplicas a) = isFor req a"
  by (simp_all add: isFor_def)

definition op_wf :: "'w operator \<Rightarrow> bool" where
  "op_wf s \<longleftrightarrow> (\<forall>(req, a) \<in> set (op_pending s). isFor req a)
     \<and> (\<forall>req. \<forall>(n, a) \<in> set_option (op_workers s req). isFor req a)"

lemma startOn_wf [simp]: "op_wf (startOn w)"
  by (simp add: op_wf_def)

lemma op_wfD:
  assumes "op_wf s"
  shows "(req, a) \<in> set (op_pending s) \<Longrightarrow> isFor req a"
    and "op_workers s req = Some (n, a) \<Longrightarrow> isFor req a"
  using assms unfolding op_wf_def by (blast, metis (no_types) case_prodD option.set_intros)

lemma statusObserve_key:
  assumes "kube_laws (r_Client r) view" and "statusObserve r (keyObject req) w = (Inr c, w')"
  shows "isFor req c
    \<and> (\<exists>a p n. view w (KAutoMQ, req) = Some (ObjAutoMQ a) \<and> c = observed a p n)"
proof -
  from statusObserve_view [OF assms] obtain a p n where
    "view w (okey (ObjAutoMQ (keyObject req))) = Some (ObjAutoMQ a)" and c: "c = observed a p n"
    by blast
  then have v: "view w (KAutoMQ, req) = Some (ObjAutoMQ a)" by simp
  with view_lawD [OF kube_lawsD(1) [OF assms(1)] v] c show ?thesis by (auto simp: isFor_def)
qed

lemma op_step_wf:
  assumes "op_step r ctx env s l s'" and laws: "env_laws r view" and wf: "op_wf s"
  shows "op_wf s'"
  using assms(1)
proof (cases rule: op_step.cases)
  case (started req a w')
  from startReconcile_key [OF env_lawsD(1) [OF laws] started(4)]
  have "isFor req (setAddresses a)" by (simp add: isFor_def)
  with wf started(2) show ?thesis by (simp add: op_wf_def)
next
  case (stage_run req n a ifRunning a' w')
  have "keeps a a'" by (rule stage_at [OF laws stage_run(4), of ctx a "op_world s"])
      (use stage_run(5) in simp)
  with op_wfD(2) [OF wf stage_run(3)] have "isFor req a'" by (rule isFor_keeps)
  with wf stage_run(2) show ?thesis by (simp add: op_wf_def)
next
  case (tick_read req res w')
  with wf show ?thesis
    using statusObserve_key [OF env_lawsD(1) [OF laws], of req "op_world s"]
    by (auto simp: op_wf_def inFlight_def split: sum.splits)
next
  case (tick_write req a e w')
  have "set (remove1 (req, a) (op_pending s)) \<subseteq> set (op_pending s)" by (rule set_remove1_subset)
  with wf tick_write show ?thesis by (auto simp: op_wf_def)
qed (use wf in \<open>simp_all add: op_wf_def\<close>)

lemma op_run_wf:
  "op_run r ctx env s ls s' \<Longrightarrow> env_laws r view \<Longrightarrow> op_wf s \<Longrightarrow> op_wf s'"
  by (induction rule: op_run.induct) (auto dest: op_step_wf)

section \<open>Safety over all interleavings\<close>

definition domain_of :: "nsname \<Rightarrow> okey set" where
  "domain_of req = insert (KAutoMQ, req) (ownedKeys (fst req) (snd req))"

lemma domain_ofD:
  "k \<notin> domain_of req \<Longrightarrow> k \<noteq> (KAutoMQ, req)"
  "k \<notin> domain_of req \<Longrightarrow> k \<notin> ownedKeys (fst req) (snd req)"
  by (simp_all add: domain_of_def)

lemma startReconcile_frame:
  assumes laws: "env_laws r view" and k: "k \<notin> domain_of req"
  shows "view (snd (startReconcile r req w)) k = view w k"
proof -
  obtain res w' where st: "startReconcile r req w = (res, w')" by fastforce
  show ?thesis
  proof (cases res)
    case (Inl p)
    then have "Reconcile r Map.empty req w = (Val p, w')" by (simp add: Reconcile_def st)
    with Reconcile_outcome [OF laws, of Map.empty req w] domain_ofD [OF k] st show ?thesis
      by (metis snd_conv)
  next
    case (Inr b)
    from startReconcile_started [OF env_lawsD(1) [OF laws] st [unfolded Inr]] obtain a w1 where
      "(mq_Namespace a, mq_Name a) = req" "view w1 = view w"
      "retryUpdate (r_Client r) (withFinalizer r a) w1 = (None, b, w')" by blast
    moreover from this(1) have "k \<noteq> okey (ObjAutoMQ (withFinalizer r a))"
      using domain_ofD(1) [OF k] by auto
    ultimately show ?thesis
      using retryUpdate_frame [OF env_lawsD(1) [OF laws], of k "withFinalizer r a" w1] st by simp
  qed
qed

lemma op_step_frame:
  assumes "op_step r ctx env s l s'" and laws: "env_laws r view" and wf: "op_wf s"
    and env: "\<And>w w'. l = Other \<Longrightarrow> env w w' \<Longrightarrow> view w' k = view w k"
    and k: "\<And>req. label_key l = Some req \<Longrightarrow> k \<notin> domain_of req"
  shows "view (op_world s') k = view (op_world s) k"
  using assms(1)
proof (cases rule: op_step.cases)
  case (started req a w')
  with startReconcile_frame [OF laws k, of req "op_world s"] show ?thesis by simp
next
  case (returned req e ticker w')
  with startReconcile_frame [OF laws k, of req "op_world s"] show ?thesis by simp
next
  case (stage_run req n a ifRunning a' w')
  then have "k \<notin> domain_of req" using k by simp
  with domain_ofD(2) [of k req] isForD [OF op_wfD(2) [OF wf stage_run(3)]]
  have k': "k \<notin> ownedKeys (mq_Namespace a) (mq_Name a)" by auto
  show ?thesis
    by (rule stage_at [OF laws stage_run(4), of ctx a "op_world s"])
      (use stage_run k' in simp)
next
  case (finished req n a e w')
  then have "k \<notin> domain_of req" using k by simp
  with op_wfD(2) [OF wf finished(3)] have "k \<noteq> okey (ObjAutoMQ (recordReplicas a))"
    by (auto simp: domain_of_def isFor_def)
  from syncStatus_frame [OF env_lawsD(1) [OF laws] this, of "op_world s"] finished
  show ?thesis by simp
next
  case (tick_read req res w')
  with statusObserve_view [OF env_lawsD(1) [OF laws]] show ?thesis by simp
next
  case (tick_write req a e w')
  then have "k \<notin> domain_of req" using k by simp
  with op_wfD(1) [OF wf tick_write(3)] have "k \<noteq> okey (ObjAutoMQ a)"
    by (auto simp: domain_of_def isFor_def)
  from syncStatus_frame [OF env_lawsD(1) [OF laws] this, of "op_world s"] tick_write
  show ?thesis by simp
next
  case (other w')
  then show ?thesis using env by simp
qed

text \<open>
  C9: over any interleaving of the steps of reconciliations and tickers of any custom resources
  with foreign steps, an object that none of these custom resources owns, and that the foreign
  steps leave alone, stays as it is.
\<close>

theorem operator_frame:
  assumes "op_run r ctx env s ls s'" and "env_laws r view" and "op_wf s"
    and "\<And>w w'. env w w' \<Longrightarrow> view w' k = view w k"
    and "\<And>l req. l \<in> set ls \<Longrightarrow> label_key l = Some req \<Longrightarrow> k \<notin> domain_of req"
  shows "view (op_world s') k = view (op_world s) k"
  using assms(1,3,5)
proof (induction rule: op_run.induct)
  case (step s ls s1 l s2)
  have "op_wf s1" by (rule op_run_wf [OF step.hyps(1) assms(2) step.prems(1)])
  then have "view (op_world s2) k = view (op_world s1) k"
    by (rule op_step_frame [OF step.hyps(2) assms(2) _ assms(4)]) (use step.prems in auto)
  moreover have "view (op_world s1) k = view (op_world s) k"
    by (rule step.IH) (use step.prems in auto)
  ultimately show ?case by simp
qed simp


lemma callTrace_key: "callTrace req ls e ticker \<Longrightarrow> l \<in> set ls \<Longrightarrow> label_key l = Some req"
  by (force simp: callTrace_def stageLabel_def list_all_iff)

lemma callTrace_reads: "callTrace req ls e ticker \<Longrightarrow> TickRead q \<notin> set ls"
  by (auto simp: callTrace_def stageLabel_def list_all_iff)

text \<open>On the in-memory cluster a call on a stored resource that is not deleted goes through.\<close>

lemma mem_call:
  assumes "mem_view (op_world s) (KAutoMQ, req) = Some (ObjAutoMQ a)"
    and "om_DeletionTimestamp (mq_meta a) = None" and "op_workers s req = None"
  shows "\<exists>ls w' a'. callTrace req ls None True
    \<and> op_run (memOperator e allow) ctx env s ls (called req True w' s)
    \<and> mem_view w' (KAutoMQ, req) = Some (ObjAutoMQ a')
    \<and> om_DeletionTimestamp (mq_meta a') = None"
proof -
  from mem_Reconcile_live [OF assms(1,2), of e ctx] obtain w' a' where
    "Reconcile (memOperator e allow) ctx req (op_world s) = (Val (None, True), w')"
    and "mem_view w' (KAutoMQ, req) = Some (ObjAutoMQ a')" "om_DeletionTimestamp (mq_meta a') = None"
    by blast
  with Reconcile_run [OF assms(3) this(1), of env] show ?thesis by blast
qed

theorem operator_frame_witness:
  "\<exists>ls s'. callTrace (''prod'', ''mq'') ls None True
    \<and> op_run (memOperator None allow) Map.empty (\<lambda>w w'. w' = w)
      (startOn (cluster [ObjAutoMQ (sample ''mq''), ObjConfigMap (new_configmap ''prod'' ''other'')]))
      (ls @ [Other]) s'
    \<and> mem_view (op_world s') (KConfigMap, ''prod'', ''other'') =
        Some (ObjConfigMap (new_configmap ''prod'' ''other''))"
proof -
  let ?r = "memOperator None allow" and ?env = "\<lambda>w w' :: mem. w' = w"
  let ?req = "(''prod'', ''mq'')"
  let ?cm = "ObjConfigMap (new_configmap ''prod'' ''other'')"
  let ?k = "(KConfigMap, ''prod'', ''other'')"
  let ?s = "startOn (cluster ([ObjAutoMQ (sample ''mq'')] @ [?cm]))"
  have v: "mem_view (op_world ?s) (KAutoMQ, ?req) = Some (ObjAutoMQ (sample ''mq''))"
    "mem_view (op_world ?s) ?k = Some ?cm"
    by (simp_all only: operator.simps cluster_view) (simp_all add: new_configmap_def empty_meta_def)
  from mem_call [OF v(1), of None Map.empty ?env] obtain ls w' where
    t: "callTrace ?req ls None True"
    and run: "op_run ?r Map.empty ?env ?s ls (called ?req True w' ?s)" by auto
  from op_run.step [OF run op_step.other [where env = ?env, OF refl]] obtain s' where
    r: "op_run ?r Map.empty ?env ?s (ls @ [Other]) s'" by blast
  have "?k \<notin> domain_of ?req"
    by (auto simp: domain_of_def ownedKeys_def controllerKeys_def brokerKeys_def)
  then have "mem_view (op_world s') ?k = mem_view (op_world ?s) ?k"
    by (intro operator_frame [OF r mem_env_laws]) (auto dest: callTrace_key [OF t])
  with t r v(2) show ?thesis by auto
qed

section \<open>Tickers\<close>

definition started_by :: "label \<Rightarrow> nsname list" where
  "started_by l = (case l of Started req \<Rightarrow> [req]
     | Returned req e ticker \<Rightarrow> (if ticker then [req] else []) | _ \<Rightarrow> [])"


lemma callTrace_started:
  assumes "callTrace req ls e ticker"
  shows "concat (map started_by (rev ls)) = (if ticker then [req] else [])"
proof -
  have "concat (map started_by (rev stages)) = []" if "list_all (stageLabel req) stages" for stages
    using that by (induction stages) (auto simp: started_by_def stageLabel_def)
  with assms show ?thesis by (auto simp: callTrace_def started_by_def)
qed



section \<open>Every reconciliation ends\<close>

lemma stages_counted:
  assumes "op_run r ctx env s ls s'" and "op_workers s req = Some (n, a)" and "n \<le> 7"
    and "\<forall>e. Finished req e \<notin> set ls"
  shows "\<exists>m b. op_workers s' req = Some (m, b) \<and> m \<le> 7
    \<and> n + length (filter (stageLabel req) ls) \<le> m"
  using assms
proof (induction rule: op_run.induct)
  case (step s ls s1 l s2)
  then obtain m b where w: "op_workers s1 req = Some (m, b)" "m \<le> 7"
    and c: "n + length (filter (stageLabel req) ls) \<le> m" by auto
  have "\<exists>m' b'. op_workers s2 req = Some (m', b') \<and> m' \<le> 7
      \<and> m + (if stageLabel req l then 1 else 0) \<le> m'"
    using step.hyps(2)
  proof (cases rule: op_step.cases)
    case (stage_run q i a' ifRunning a'' w')
    show ?thesis
    proof (cases "q = req")
      case True
      with w(1) stage_run(3,4) have i: "i = m" "m < 7" by simp_all
      have "op_workers s2 req = Some (nextStage ifRunning m, a'')"
        unfolding stage_run(2) i(1) True by simp
      moreover have "m + 1 \<le> nextStage ifRunning m" "nextStage ifRunning m \<le> 7"
        using i(2) by (simp_all add: nextStage_def)
      ultimately show ?thesis by auto
    next
      case False
      then show ?thesis using stage_run(1,2) w by (simp add: stageLabel_def)
    qed
  next
    case (started q a' w')
    with w have "q \<noteq> req" by auto
    then show ?thesis using started(1,2) w by (simp add: stageLabel_def)
  next
    case (finished q i a' e w')
    with step.prems(3) have "q \<noteq> req" by auto
    then show ?thesis using finished(1,2) w by (simp add: stageLabel_def)
  qed (use w in \<open>simp_all add: stageLabel_def\<close>)
  with c show ?case by (cases "stageLabel req l") auto
qed simp

lemma pipeline_rest:
  assumes "env_laws r view"
  shows "\<exists>b w'. runPipeline (drop n (pipelines r ctx)) a w = (Val b, w')"
proof -
  have 1: "list_all2 (stage_ok view) (drop n stageTypes) (drop n (pipelines r ctx))"
    using pipelines_ok [OF assms] by (rule list_all2_dropI)
  have 2: "distinct (drop n stageTypes)" using distinct_stageTypes by (rule distinct_drop)
  from runPipeline_ok [OF 1 2, of a w] show ?thesis by (elim exE conjE) (intro exI)
qed

lemma working_finishes:
  assumes "env_laws r view" and "op_workers s req = Some (n, a)"
  shows "\<exists>ks e s'. op_run r ctx env s (ks @ [Finished req e]) s' \<and> list_all (stageLabel req) ks
    \<and> length ks \<le> 7 - n \<and> op_workers s' req = None"
proof -
  from pipeline_rest [OF assms(1)] obtain b w' where
    "runPipeline (drop n (pipelines r ctx)) a (op_world s) = (Val b, w')" by blast
  from stages_run [OF this assms(2) refl, of env] obtain ks m where
    ks: "list_all (stageLabel req) ks" "length ks \<le> 7 - n" and m: "7 \<le> m"
    and run: "op_run r ctx env s ks (working s req w' m b)" by blast
  obtain e w2 where "syncStatus (r_Client r) (recordReplicas b) w' = (e, w2)" by fastforce
  with op_step.finished [of "working s req w' m b" req m b r e w2 ctx env] m obtain s' where
    "op_step r ctx env (working s req w' m b) (Finished req e) s'" "op_workers s' req = None"
    by simp
  with op_run.step [OF run this(1)] ks show ?thesis by blast
qed


lemma mem_started_call:
  assumes "mem_view (op_world s) (KAutoMQ, req) = Some (ObjAutoMQ a)"
    and "om_DeletionTimestamp (mq_meta a) = None" and "op_workers s req = None"
  shows "\<exists>ls w'. op_run (memOperator e allow) ctx env s (Started req # ls) (called req True w' s)"
proof -
  from mem_call [OF assms] obtain ls w' where t: "callTrace req ls None True"
    and run: "op_run (memOperator e allow) ctx env s ls (called req True w' s)" by blast
  have "ls \<noteq> [Returned req None True]"
  proof
    assume "ls = [Returned req None True]"
    with run obtain s' where "op_step (memOperator e allow) ctx env s (Returned req None True) s'"
      by (auto elim!: op_run_ConsE)
    then obtain w where "startReconcile (memOperator e allow) req (op_world s) = (Inl (None, True), w)"
      by (auto elim!: returnedE)
    then show False
      by (auto simp: startReconcile_def Let_def split: prod.splits option.splits if_splits)
  qed
  with t run show ?thesis by (auto simp: callTrace_def)
qed


section \<open>What is deleted stays deleted\<close>

lemma syncStatus_gone:
  assumes laws: "kube_laws K view" and gone: "view w (okey (ObjAutoMQ a)) = None"
  shows "view (snd (syncStatus K a w)) = view w"
proof -
  have attempt: "view (snd (snd (syncStatus_attempt K a s))) = view (snd s)"
    if "view (snd s) (okey (ObjAutoMQ a)) = None" for s
  proof -
    obtain x w0 where s: "s = (x, w0)" by (cases s)
    obtain e y w1 where g: "k_Get K (ObjectKeyFromObject (ObjAutoMQ a)) (ObjAutoMQ zero_automq) w0
        = (e, y, w1)" by (metis prod_cases3)
    note v = get_law_view [OF kube_lawsD(2) [OF laws] g]
    have "e \<noteq> None"
    proof
      assume "e = None"
      from get_law_found [OF kube_lawsD(2) [OF laws] g [unfolded this]] that show False
        by (simp add: s ObjectKeyFromObject_def)
    qed
    then show ?thesis using g v s by (auto simp: syncStatus_attempt_def)
  qed
  have "view (snd (snd r)) = view w"
    if "retry_run (k_IsConflict K) (syncStatus_attempt K a) s r" "view (snd s) = view w" for s r
    using that
  proof (induction rule: retry_run.induct)
    case (last s r)
    then show ?case using attempt [of s] gone by auto
  next
    case (again s e s' r)
    then show ?case using attempt [of s] gone by auto
  qed
  from this [of "(ObjAutoMQ zero_automq, w)"] kube_lawsD(7) [OF laws] show ?thesis
    by (simp add: syncStatus_def retry_law_def case_prod_beta)
qed

lemma domain_of_namespace: "k \<in> domain_of req \<Longrightarrow> fst (snd k) = fst req"
  by (auto simp: domain_of_def ownedKeys_def controllerKeys_def brokerKeys_def)

text \<open>The custom resource is gone, and so is what was in its domain.\<close>

definition goneIn :: "'w view \<Rightarrow> nsname \<Rightarrow> okey set \<Rightarrow> 'w operator \<Rightarrow> bool" where
  "goneIn view req D s \<longleftrightarrow> op_wf s \<and> op_workers s req = None
     \<and> view (op_world s) (KAutoMQ, req) = None \<and> (\<forall>k \<in> D. view (op_world s) k = None)"

lemma op_step_gone:
  assumes step: "op_step r ctx env s l s'" and laws: "env_laws r view" and g: "goneIn view req D s"
    and D: "D \<subseteq> domain_of req"
    and env: "\<And>w w' k. env w w' \<Longrightarrow> k \<in> domain_of req \<Longrightarrow> view w k = None \<Longrightarrow> view w' k = None"
    and others: "\<And>q. label_key l = Some q \<Longrightarrow> q \<noteq> req \<Longrightarrow> fst q \<noteq> fst req"
  shows "goneIn view req D s'"
proof -
  note K = env_lawsD(1) [OF laws]
  have wf: "op_wf s" "op_wf s'" using g op_step_wf [OF step laws] by (auto simp: goneIn_def)
  have self: "(KAutoMQ, req) \<in> domain_of req" by (simp add: domain_of_def)
  have gone: "view (op_world s) k = None" if "k \<in> insert (KAutoMQ, req) D" for k
    using g that by (auto simp: goneIn_def)
  have "op_workers s' req = None \<and> (\<forall>k \<in> insert (KAutoMQ, req) D. view (op_world s') k = None)"
  proof (cases "label_key l = Some req \<or> l = Other")
    case False
    then obtain q where q: "label_key l = Some q" "q \<noteq> req" by (cases l) auto
    have "view (op_world s') k = view (op_world s) k" if "k \<in> domain_of req" for k
    proof (rule op_step_frame [OF step laws wf(1)])
      show "k \<notin> domain_of q'" if "label_key l = Some q'" for q'
        using that q others [OF q] domain_of_namespace [OF \<open>k \<in> domain_of req\<close>]
          domain_of_namespace [of k q'] by auto
      show "view w' k = view w k" if "l = Other" for w w'
        using that q by simp
    qed
    moreover have "op_workers s' req = op_workers s req"
      using step q by (cases rule: op_step.cases) auto
    ultimately show ?thesis using g gone D self by (auto simp: goneIn_def)
  next
    case True
    from step have "op_workers s' req = None
      \<and> (view (op_world s') = view (op_world s) \<or> env (op_world s) (op_world s'))"
    proof (cases rule: op_step.cases)
      case (started q a w')
      with True have "q = req" by simp
      with startReconcile_gone [OF K, of "op_world s" req] gone started show ?thesis by auto
    next
      case (returned q e ticker w')
      with True have "q = req" by simp
      with startReconcile_gone [OF K, of "op_world s" req] gone returned show ?thesis by auto
    next
      case (tick_read q res w')
      with g statusObserve_view [OF K] show ?thesis by (auto simp: goneIn_def)
    next
      case (tick_write q a e w')
      with True have "q = req" by simp
      with op_wfD(1) [OF wf(1)] tick_write have "okey (ObjAutoMQ a) = (KAutoMQ, req)"
        by (auto simp: isFor_def)
      with syncStatus_gone [OF K, of "op_world s" a] gone tick_write g show ?thesis
        by (auto simp: goneIn_def)
    qed (use True g in \<open>auto simp: goneIn_def\<close>)
    with env gone D self show ?thesis by (metis insert_iff subsetD)
  qed
  with wf(2) show ?thesis by (simp add: goneIn_def)
qed

text \<open>
  C12: what is deleted stays deleted. Once a custom resource is gone and no reconciliation of it
  is in flight, neither it nor any of its resources that is gone comes back, whatever the
  tickers that still run for it, the passes still in flight and the reconciliations in other
  namespaces do, as long as other clients do not bring it back.
\<close>

theorem deleted_stays_deleted:
  assumes "op_run r ctx env s ls s'" and "env_laws r view" and "op_wf s"
    and "op_workers s req = None" and "view (op_world s) (KAutoMQ, req) = None"
    and "\<And>w w' k. env w w' \<Longrightarrow> k \<in> domain_of req \<Longrightarrow> view w k = None \<Longrightarrow> view w' k = None"
    and "\<And>l q. l \<in> set ls \<Longrightarrow> label_key l = Some q \<Longrightarrow> q \<noteq> req \<Longrightarrow> fst q \<noteq> fst req"
    and "k \<in> domain_of req" and "view (op_world s) k = None"
  shows "view (op_world s') k = None \<and> view (op_world s') (KAutoMQ, req) = None"
proof -
  have "goneIn view req {k} s" using assms(3-5,9) by (simp add: goneIn_def)
  with assms(1,7) have "goneIn view req {k} s'"
  proof (induction rule: op_run.induct)
    case (step s ls s1 l s2)
    have "goneIn view req {k} s1" by (rule step.IH) (use step.prems in auto)
    then show ?case
    proof (rule op_step_gone [OF step.hyps(2) assms(2)])
      show "{k} \<subseteq> domain_of req" using assms(8) by simp
      show "view w' j = None" if "env w w'" "j \<in> domain_of req" "view w j = None" for w w' j
        using that by (rule assms(6))
      show "fst q \<noteq> fst req" if "label_key l = Some q" "q \<noteq> req" for q
        by (rule step.prems(1) [OF _ that]) simp
    qed
  qed simp
  then show ?thesis by (simp add: goneIn_def)
qed


theorem deleted_stays_deleted_witness:
  "\<exists>e f s'. op_run (memOperator None allow) Map.empty (\<lambda>_ _. False)
      (startOn (cluster []) \<lparr>op_tickers := [(''prod'', ''mq'')],
         op_pending := [((''prod'', ''mq''), sample ''mq'')]\<rparr>)
      [TickWrite (''prod'', ''mq'') e, TickRead (''prod'', ''mq''),
       Returned (''prod'', ''mq'') f False] s'
    \<and> mem_view (op_world s') (KConfigMap, ''prod'', ''mq'') = None"
proof -
  let ?r = "memOperator None allow" and ?env = "\<lambda>_ _ :: mem. False" and ?req = "(''prod'', ''mq'')"
  let ?s = "startOn (cluster []) \<lparr>op_tickers := [?req], op_pending := [(?req, sample ''mq'')]\<rparr>"
  obtain e w1 where 1: "syncStatus (r_Client ?r) (sample ''mq'') (op_world ?s) = (e, w1)"
    by fastforce
  with syncStatus_gone [OF mem_laws, of "op_world ?s" "sample ''mq''" None allow]
  have v1: "mem_view w1 = mem_view (cluster [])" by simp
  let ?s1 = "?s\<lparr>op_world := w1, op_pending := []\<rparr>"
  have s1: "op_step ?r Map.empty ?env ?s (TickWrite ?req e) ?s1"
    using op_step.tick_write [OF _ 1, of ?req] by simp
  obtain res w2 where 2: "statusObserve ?r (keyObject ?req) (op_world ?s1) = (res, w2)" by fastforce
  from statusObserve_view [OF mem_laws 2] v1 have v2: "mem_view w2 = mem_view (cluster [])" by simp
  let ?s2 = "?s1\<lparr>op_world := w2, op_pending := inFlight ?req res\<rparr>"
  have s2: "op_step ?r Map.empty ?env ?s1 (TickRead ?req) ?s2"
    using op_step.tick_read [OF _ 2] by simp
  from v2 have "mem_view w2 (KAutoMQ, ?req) = None" by simp
  with startReconcile_gone [of ?r mem_view w2 ?req] mem_laws obtain f w3 where
    "startReconcile ?r ?req w2 = (Inl (f, False), w3)" by blast
  then have 3: "startReconcile ?r ?req (op_world ?s2) = (Inl (f, False), w3)" by simp
  obtain s3 where s3: "op_step ?r Map.empty ?env ?s2 (Returned ?req f False) s3"
    using op_step.returned [OF _ 3] by auto
  have run: "op_run ?r Map.empty ?env ?s
      [TickWrite ?req e, TickRead ?req, Returned ?req f False] s3"
    using op_run.step [OF op_run.step [OF op_run_single [OF s1] s2] s3] by simp
  have "isFor ?req (sample ''mq'')" by (simp add: isFor_def)
  then have "op_wf ?s" by (simp add: op_wf_def)
  moreover have "(KConfigMap, ''prod'', ''mq'') \<in> domain_of ?req"
    by (simp add: domain_of_def ownedKeys_def)
  moreover have "fst q \<noteq> fst ?req"
    if "l \<in> set [TickWrite ?req e, TickRead ?req, Returned ?req f False]"
      "label_key l = Some q" "q \<noteq> ?req" for l q
    using that by auto
  ultimately have "mem_view (op_world s3) (KConfigMap, ''prod'', ''mq'') = None"
    using deleted_stays_deleted [OF run mem_env_laws, of ?req "(KConfigMap, ''prod'', ''mq'')"] by simp
  with run show ?thesis by blast
qed

end
