(* ===== verification/Progress.thy ===== *)
theory Progress
  imports Interleavings Healthy
begin

text \<open>
  What the interleaving of tickers and served requests means for the status of a cluster: a pass
  of a ticker brings a cluster whose stages succeeded and whose pods run to phase Ready, and a
  pass that read the status before it was written again puts the old status back.
\<close>

section \<open>A stale pass\<close>

lemma tick_readD:
  assumes "op_step r ctx env s (TickRead req) s'" and "kube_laws (r_Client r) view"
    and "op_pending s = []"
  shows "\<forall>(q, c) \<in> set (op_pending s'). q = req \<and>
    (\<exists>a p n. view (op_world s) (KAutoMQ, req) = Some (ObjAutoMQ a) \<and> c = observed a p n)"
  using assms(1)
proof (cases rule: op_step.cases)
  case (tick_read res w')
  with assms(3) show ?thesis
    using statusObserve_key [OF assms(2), of req "op_world s"]
    by (auto simp: inFlight_def split: sum.splits)
qed

lemma pending_kept:
  assumes "op_run r ctx env s ls s'" and "\<And>q. TickRead q \<in> set ls \<Longrightarrow> q \<noteq> req"
    and "\<forall>(q, c) \<in> set (op_pending s). q = req \<longrightarrow> P c"
  shows "\<forall>(q, c) \<in> set (op_pending s'). q = req \<longrightarrow> P c"
  using assms
proof (induction rule: op_run.induct)
  case (step s ls s1 l s2)
  from step.hyps(2) have "set (op_pending s2) \<subseteq> set (op_pending s1)
      \<union> {(q, c). q \<noteq> req}"
  proof (cases rule: op_step.cases)
    case (tick_read q res w')
    with step.prems(1) have "q \<noteq> req" by auto
    with tick_read show ?thesis by (auto simp: inFlight_def split: sum.splits)
  next
    case (tick_write q a e w')
    have "set (remove1 (q, a) (op_pending s1)) \<subseteq> set (op_pending s1)" by (rule set_remove1_subset)
    with tick_write show ?thesis by auto
  qed auto
  moreover have "\<forall>(q, c) \<in> set (op_pending s1). q = req \<longrightarrow> P c"
    using step.IH step.prems by simp
  ultimately show ?case by blast
qed simp

text \<open>
  C23: the status a pass of a ticker writes is the one it read, but for phase and pod count. What
  was written to the status between its read and its write, the conditions and replica counts
  of a whole reconciliation included, is lost.
\<close>

theorem stale_status_wins:
  assumes "env_laws r view" and "op_pending s = []"
    and "op_step r ctx env s (TickRead req) s1"
    and "op_run r ctx env s1 ls s2" and "\<And>q. TickRead q \<in> set ls \<Longrightarrow> q \<noteq> req"
    and "op_step r ctx env s2 (TickWrite req None) s3"
  shows "\<exists>a b p n. view (op_world s) (KAutoMQ, req) = Some (ObjAutoMQ a)
    \<and> view (op_world s3) (KAutoMQ, req) = Some (ObjAutoMQ b)
    \<and> mq_Status b = mq_Status (observed a p n)"
proof -
  note laws = env_lawsD(1) [OF assms(1)]
  let ?P = "\<lambda>c. \<exists>a p n. view (op_world s) (KAutoMQ, req) = Some (ObjAutoMQ a) \<and> c = observed a p n"
  from tick_readD [OF assms(3) laws assms(2)]
  have "\<forall>(q, c) \<in> set (op_pending s1). q = req \<longrightarrow> ?P c" by blast
  from pending_kept [OF assms(4,5) this]
  have pend: "\<forall>(q, c) \<in> set (op_pending s2). q = req \<longrightarrow> ?P c" .
  from assms(6) obtain c w' where c: "(req, c) \<in> set (op_pending s2)"
    and run: "syncStatus (r_Client r) c (op_world s2) = (None, w')" and w: "op_world s3 = w'"
    by (auto elim: tick_writeE)
  from pend c obtain a p n where a: "view (op_world s) (KAutoMQ, req) = Some (ObjAutoMQ a)"
    and c': "c = observed a p n" by blast
  from view_lawD [OF kube_lawsD(1) [OF laws] a] have "okey (ObjAutoMQ c) = (KAutoMQ, req)"
    by (simp add: c')
  with syncStatus_stored [OF laws run] w obtain b where
    "view (op_world s3) (KAutoMQ, req) = Some (ObjAutoMQ b)" "mq_Status b = mq_Status c" by auto
  with a c' show ?thesis by blast
qed

lemma mem_observe:
  assumes "mem_view w (KAutoMQ, req) = Some (ObjAutoMQ a)"
  shows "\<exists>c. statusObserve (memOperator e allow) (keyObject req) w = (Inr c, w)
    \<and> okey (ObjAutoMQ c) = (KAutoMQ, req)"
proof -
  let ?r = "memOperator e allow"
  obtain cps where lc: "k_ListPods (r_Client ?r) (mq_Namespace a)
      (getAutoMQLabelMap (mq_Name (keyObject req)) controllerRole) w = (Inr cps, w)"
    by (simp add: mem_list_pods_def)
  obtain bps where lb: "k_ListPods (r_Client ?r) (mq_Namespace a)
      (getAutoMQLabelMap (mq_Name (keyObject req)) brokerRole) w = (Inr bps, w)"
    by (simp add: mem_list_pods_def)
  have get: "k_Get (r_Client ?r) (ObjectKeyFromObject (ObjAutoMQ (keyObject req)))
      (ObjAutoMQ zero_automq) w = (None, ObjAutoMQ a, w)"
    using assms by (simp add: mem_get_def ObjectKeyFromObject_def)
  from statusObserve_writes [OF get lc lb] mem_view_okey [OF assms] show ?thesis by auto
qed

theorem stale_status_wins_witness:
  "\<exists>s1 ls s2 s3 b. callTrace (''prod'', ''mq'') ls None True
    \<and> op_step (memOperator None allow) Map.empty (\<lambda>_ _. False)
      (startOn (cluster [ObjAutoMQ (sample ''mq'')]) \<lparr>op_tickers := [(''prod'', ''mq'')]\<rparr>)
      (TickRead (''prod'', ''mq'')) s1
    \<and> op_run (memOperator None allow) Map.empty (\<lambda>_ _. False) s1 ls s2
    \<and> op_step (memOperator None allow) Map.empty (\<lambda>_ _. False) s2 (TickWrite (''prod'', ''mq'') None) s3
    \<and> mem_view (op_world s3) (KAutoMQ, ''prod'', ''mq'') = Some (ObjAutoMQ b)
    \<and> st_Conditions (mq_Status b) = [] \<and> st_ControllerReplicas (mq_Status b) = 0"
proof -
  let ?r = "memOperator None allow" and ?env = "\<lambda>_ _ :: mem. False"
  let ?req = "(''prod'', ''mq'')" and ?w = "cluster [ObjAutoMQ (sample ''mq'')]"
  let ?s = "startOn ?w \<lparr>op_tickers := [?req]\<rparr>"
  have v: "mem_view ?w (KAutoMQ, ?req) = Some (ObjAutoMQ (sample ''mq''))" by simp
  from mem_observe [OF v] obtain c where o1: "statusObserve ?r (keyObject ?req) ?w = (Inr c, ?w)"
    and key: "okey (ObjAutoMQ c) = (KAutoMQ, ?req)" by blast
  let ?s1 = "\<lparr>op_world = ?w, op_tickers = [?req], op_pending = [(?req, c)], op_workers = Map.empty\<rparr>"
  have 1: "op_step ?r Map.empty ?env ?s (TickRead ?req) ?s1"
    using op_step.tick_read [of ?req ?s ?r _ ?w Map.empty ?env] o1 by (simp add: inFlight_def)
  from mem_call [of ?s1 ?req "sample ''mq''" None Map.empty ?env] v obtain ls w' a' where
    t: "callTrace ?req ls None True"
    and 2: "op_run ?r Map.empty ?env ?s1 ls (called ?req True w' ?s1)"
    and v': "mem_view w' (KAutoMQ, ?req) = Some (ObjAutoMQ a')" by auto
  let ?s2 = "called ?req True w' ?s1"
  from mem_syncStatus_ok [of w' c a'] v' key obtain w3 where
    wr: "syncStatus (r_Client ?r) c (op_world ?s2) = (None, w3)" by auto
  let ?s3 = "?s2\<lparr>op_world := w3, op_pending := []\<rparr>"
  have 3: "op_step ?r Map.empty ?env ?s2 (TickWrite ?req None) ?s3"
    using op_step.tick_write [where s = ?s2 and req = ?req and a = c, OF _ wr] by simp
  from callTrace_reads [OF t] have no: "q \<noteq> ?req" if "TickRead q \<in> set ls" for q using that by blast
  from stale_status_wins [OF mem_env_laws _ 1 2 no 3] v obtain b p n where
    b: "mem_view (op_world ?s3) (KAutoMQ, ?req) = Some (ObjAutoMQ b)"
    "mq_Status b = mq_Status (observed (sample ''mq'') p n)" by auto
  from b(2) have "st_Conditions (mq_Status b) = []" "st_ControllerReplicas (mq_Status b) = 0"
    by (simp_all add: zero_status_def)
  with 1 2 3 t b(1) show ?thesis by blast
qed

section \<open>Getting ready\<close>

lemma ticker_started:
  "op_run r ctx env s ls s' \<Longrightarrow> Started req \<in> set ls \<Longrightarrow> req \<in> set (op_tickers s')"
proof (induction rule: op_run.induct)
  case (step s ls s1 l s2)
  from step.hyps(2) have "set (op_tickers s1) \<subseteq> set (op_tickers s2)
      \<and> (l = Started req \<longrightarrow> req \<in> set (op_tickers s2))"
    by (cases rule: op_step.cases) auto
  with step show ?case by auto
qed simp

text \<open>
  A cluster gets ready. Once a live custom resource has been served, from any state reached
  later in which all its conditions are True and its pods run in the numbers specified, the next
  pass of its ticker stores phase Ready and the number of pods, if the server answers.
\<close>

theorem cluster_becomes_ready:
  assumes laws: "env_laws r view" and resp: "responsive (r_Client r) view"
    and "op_run r ctx env s0 ls s" and "Started req \<in> set ls"
    and get: "k_Get (r_Client r) req (ObjAutoMQ zero_automq) (op_world s) = (None, ObjAutoMQ a, w1)"
    and lc: "k_ListPods (r_Client r) (fst req) (getAutoMQLabelMap (snd req) controllerRole) w1
      = (Inr cps, w2)"
    and lb: "k_ListPods (r_Client r) (fst req) (getAutoMQLabelMap (snd req) brokerRole) w2
      = (Inr bps, w3)"
    and "\<forall>c \<in> set (st_Conditions (mq_Status a)). co_Status c = ConditionTrue"
    and "readyCount cps = sint (cs_Replicas (controllerSpec a))"
    and "readyCount bps = sint (bs_Replicas (brokerSpec a))"
  shows "\<exists>s1 s2 b. op_step r ctx env s (TickRead req) s1 \<and> op_step r ctx env s1 (TickWrite req None) s2
    \<and> view (op_world s2) (KAutoMQ, req) = Some (ObjAutoMQ b)
    \<and> st_Phase (mq_Status b) = AutoMQReady
    \<and> st_ReadyPods (mq_Status b) = cs_Replicas (controllerSpec a) + bs_Replicas (brokerSpec a)"
proof -
  note K = env_lawsD(1) [OF laws]
  have t: "req \<in> set (op_tickers s)" by (rule ticker_started [OF assms(3,4)])
  have v: "view (op_world s) (KAutoMQ, req) = Some (ObjAutoMQ a)"
    using get_law_found [OF kube_lawsD(2) [OF K] get] by simp
  have key: "okey (ObjAutoMQ a) = (KAutoMQ, req)" by (rule view_lawD [OF kube_lawsD(1) [OF K] v])
  have ready: "expectedPhase a cps bps = AutoMQReady"
    using assms(8-10) by (auto simp: expectedPhase_def)
  have pods: "expectedPods a cps bps = cs_Replicas (controllerSpec a) + bs_Replicas (brokerSpec a)"
    using assms(9,10) by (simp add: expectedPods_def ready phase_defs)
  let ?c = "observed a AutoMQReady (cs_Replicas (controllerSpec a) + bs_Replicas (brokerSpec a))"
  have "k_Get (r_Client r) (ObjectKeyFromObject (ObjAutoMQ (keyObject req)))
      (ObjAutoMQ zero_automq) (op_world s) = (None, ObjAutoMQ a, w1)"
    using get by (simp add: ObjectKeyFromObject_def)
  moreover have "mq_Namespace a = fst req" using key by auto
  ultimately obtain w4 where o: "statusObserve r (keyObject req) (op_world s) = (Inr ?c, w4)"
    using statusObserve_writes [of r "keyObject req" "op_world s" a w1 cps w2 bps w3] lc lb
    by (auto simp: ready pods)
  let ?s1 = "s\<lparr>op_world := w4, op_pending := inFlight req (Inr ?c) @ op_pending s\<rparr>"
  have 1: "op_step r ctx env s (TickRead req) ?s1" by (rule op_step.tick_read [OF t o])
  have "view w4 = view (op_world s)" using statusObserve_view [OF K o] by blast
  then have "view w4 (okey (ObjAutoMQ ?c)) = Some (ObjAutoMQ a)" using v key by simp
  from syncStatus_responsive [OF K resp this] obtain w5 where
    wr: "syncStatus (r_Client r) ?c (op_world ?s1) = (None, w5)" by auto
  let ?s2 = "?s1\<lparr>op_world := w5, op_pending := remove1 (req, ?c) (op_pending ?s1)\<rparr>"
  have 2: "op_step r ctx env ?s1 (TickWrite req None) ?s2"
    by (rule op_step.tick_write [OF _ wr]) (simp add: inFlight_def)
  from syncStatus_stored [OF K wr] key obtain b where
    "view (op_world ?s2) (KAutoMQ, req) = Some (ObjAutoMQ b)" "mq_Status b = mq_Status ?c" by auto
  with 1 2 show ?thesis
    by (intro exI [of _ ?s1] exI [of _ ?s2] exI [of _ b]) simp
qed

end
