(* ===== verification/Desired.thy ===== *)
theory Desired
  imports Lifecycle
begin

text \<open>
  The desired state of a cluster as one specification of the stored objects, and the theorem that
  a reconciliation whose seven stages report success reaches it: what each stage brings about
  survives the stages after it.
\<close>

section \<open>The specification\<close>

definition scriptStored :: "'w reconciler \<Rightarrow> AutoMQ \<Rightarrow> (okey \<Rightarrow> object option) \<Rightarrow> bool" where
  "scriptStored r a v \<longleftrightarrow> (\<exists>c. v (KConfigMap, mq_Namespace a, mq_Name a) = Some (ObjConfigMap c)
     \<and> cm_Data c = [''up.sh'' \<mapsto> r_UpSh r])"

definition bootstrapStored :: "AutoMQ \<Rightarrow> (okey \<Rightarrow> object option) \<Rightarrow> bool" where
  "bootstrapStored a v \<longleftrightarrow> (\<exists>s p. v (KService, mq_Namespace a, bootstrapName) = Some (ObjService s)
     \<and> svc_Type s = ''NodePort'' \<and> svc_Ports s = [p] \<and> sp_Port p = 9092
     \<and> (spec_NodePort (mq_Spec a) \<noteq> 0 \<longrightarrow> sp_NodePort p = spec_NodePort (mq_Spec a)))"

definition bootstrapAddress :: "AutoMQ \<Rightarrow> string" where
  "bootstrapAddress a = bootstrapName @ ''.'' @ mq_Namespace a @ ''.svc:'' @ itoa 9092"

definition desired :: "'w reconciler \<Rightarrow> ctx \<Rightarrow> AutoMQ \<Rightarrow> (okey \<Rightarrow> object option) \<Rightarrow> bool" where
  "desired r ctx a v \<longleftrightarrow> scriptStored r a v \<and> bootstrapStored a v
     \<and> (\<forall>j. 0 \<le> j \<and> j < sint (cs_Replicas (controllerSpec a)) \<longrightarrow>
          (\<forall>k \<in> controllerKeys (mq_Namespace a) (word_of_int j).
             \<exists>x. v k = Some x \<and> controllerGood r ctx a (word_of_int j) x))
     \<and> (\<forall>j. 0 \<le> j \<and> j < sint (bs_Replicas (brokerSpec a)) \<longrightarrow>
          (\<forall>k \<in> brokerKeys (mq_Namespace a) (word_of_int j).
             \<exists>x. v k = Some x \<and> brokerGood r ctx a (word_of_int j) x)
          \<and> portAgrees r ctx a (word_of_int j) v)"

text \<open>The controllers beyond the specified count that the status still records are gone.\<close>

definition surplusGone :: "AutoMQ \<Rightarrow> (okey \<Rightarrow> object option) \<Rightarrow> bool" where
  "surplusGone a v \<longleftrightarrow> (\<forall>j. sint (cs_Replicas (controllerSpec a)) \<le> j
      \<and> j < sint (st_ControllerReplicas (mq_Status a)) \<longrightarrow>
    (\<forall>k \<in> controllerKeys (mq_Namespace a) (word_of_int j). v k = None))"

text \<open>It depends on the identity and the specification of the custom resource only.\<close>

lemma same_template:
  assumes e: "mq_Name b = mq_Name a" "mq_Namespace b = mq_Namespace a" "mq_Spec b = mq_Spec a"
  shows "controllerTemplate r ctx b i n t = controllerTemplate r ctx a i n t"
    and "brokerTemplate r ctx b i port n t = brokerTemplate r ctx a i port n t"
proof -
  have voters: "controllerVoters b = controllerVoters a"
    by (simp add: controllerVoters_eq voter_def [abs_def] e)
  show "controllerTemplate r ctx b i n t = controllerTemplate r ctx a i n t"
    by (simp add: controllerTemplate_def controllerIndexLabels_def controllerEnvs_def
        controllerCmds_def addMetrics_def e voters)
  show "brokerTemplate r ctx b i port n t = brokerTemplate r ctx a i port n t"
    by (simp add: brokerTemplate_def brokerIndexLabels_def brokerEnvs_def
        brokerCmds_def addMetrics_def e voters)
qed

lemma same_spec:
  assumes e: "mq_Name b = mq_Name a" "mq_Namespace b = mq_Namespace a" "mq_Spec b = mq_Spec a"
  shows "controllerGood r ctx b i x = controllerGood r ctx a i x"
    and "brokerGood r ctx b i x = brokerGood r ctx a i x"
    and "portAgrees r ctx b i v = portAgrees r ctx a i v"
    and "scriptStored r b v = scriptStored r a v"
    and "bootstrapStored b v = bootstrapStored a v"
proof -
  note t = same_template [OF e]
  show "controllerGood r ctx b i x = controllerGood r ctx a i x"
    "brokerGood r ctx b i x = brokerGood r ctx a i x"
    by (cases x; simp add: controllerGood_def brokerGood_def brokerServiceGood_def
        controllerIndexLabels_def brokerIndexLabels_def t e)+
  show "portAgrees r ctx b i v = portAgrees r ctx a i v"
    "scriptStored r b v = scriptStored r a v" "bootstrapStored b v = bootstrapStored a v"
    by (simp_all add: portAgrees_def scriptStored_def bootstrapStored_def t e)
qed

lemma desired_same:
  assumes "mq_Name b = mq_Name a" and "mq_Namespace b = mq_Namespace a" and "mq_Spec b = mq_Spec a"
  shows "desired r ctx b v = desired r ctx a v"
  using assms by (simp add: desired_def same_spec [OF assms])

lemma keeps_same:
  assumes "keeps (setAddresses a) b"
  shows "mq_Name b = mq_Name a" and "mq_Namespace b = mq_Namespace a" and "mq_Spec b = mq_Spec a"
  using assms by (simp_all add: keeps_def)

section \<open>A pipeline in which every stage reports True\<close>

text \<open>
  Between two stages the world may change, but not the objects of the namespace: other than
  custom resources, which the tickers write.
\<close>

definition untouched :: "'w view \<Rightarrow> string \<Rightarrow> 'w \<Rightarrow> 'w \<Rightarrow> bool" where
  "untouched view ns w w' \<longleftrightarrow>
     (\<forall>k. fst k \<noteq> KAutoMQ \<and> fst (snd k) = ns \<longrightarrow> view w' k = view w k)"

lemma untouched_refl [simp]: "untouched view ns w w"
  by (simp add: untouched_def)

lemma untouched_trans: "untouched view ns w w1 \<Longrightarrow> untouched view ns w1 w2 \<Longrightarrow> untouched view ns w w2"
  by (simp add: untouched_def)

lemma untouchedD: "untouched view ns w w' \<Longrightarrow> fst k \<noteq> KAutoMQ \<Longrightarrow> fst (snd k) = ns \<Longrightarrow>
    view w' k = view w k"
  unfolding untouched_def by blast

text \<open>The first \<open>n\<close> stages have run, from the custom resource \<open>a0\<close>, and none has stopped the pipeline.\<close>

inductive stagesRan :: "'w view \<Rightarrow> 'w reconciler \<Rightarrow> ctx \<Rightarrow> AutoMQ \<Rightarrow> nat \<Rightarrow> AutoMQ \<Rightarrow> 'w \<Rightarrow> bool"
  for view r ctx a0 where
  none: "stagesRan view r ctx a0 0 a0 w"
| more: "stagesRan view r ctx a0 n a w \<Longrightarrow> n < 7 \<Longrightarrow>
    (pipelines r ctx ! n) a w = (Val (True, a1), w1) \<Longrightarrow>
    untouched view (mq_Namespace a0) w1 w2 \<Longrightarrow>
    stagesRan view r ctx a0 (Suc n) a1 w2"

inductive_cases stagesRan_SucE: "stagesRan view r ctx a0 (Suc n) a w"

lemma stagesRan_untouched:
  assumes "stagesRan view r ctx a0 n a w" and "untouched view (mq_Namespace a0) w w'"
  shows "stagesRan view r ctx a0 n a w'"
  using assms
proof (cases rule: stagesRan.cases)
  case none
  then show ?thesis by (simp add: stagesRan.none)
next
  case (more n a w w1)
  then show ?thesis using assms(2) by (blast intro: stagesRan.more untouched_trans)
qed

lemma stagesRan_keeps: "stagesRan view r ctx a0 n a w \<Longrightarrow> env_laws r view \<Longrightarrow> keeps a0 a"
proof (induction rule: stagesRan.induct)
  case (more n a w a1 w1 w2)
  have "keeps a a1"
    by (rule stage_at [OF more.prems more.hyps(2), of ctx a w]) (use more.hyps(3) in simp)
  with more show ?case using keeps_trans by blast
qed simp

text \<open>The conditions of the first \<open>n\<close> stages are True.\<close>

definition trueUpto :: "nat \<Rightarrow> AutoMQ \<Rightarrow> bool" where
  "trueUpto n a \<longleftrightarrow> (\<forall>i < n. conditionStatus a (stageTypes ! i) = Some ConditionTrue)"

lemma length_stageTypes [simp]: "length stageTypes = 7"
  by (simp add: stageTypes_def)

lemma trueUpto_all: "trueUpto 7 a \<longleftrightarrow> (\<forall>t \<in> set stageTypes. conditionStatus a t = Some ConditionTrue)"
  by (simp add: trueUpto_def all_set_conv_all_nth)

text \<open>A stage sets its own condition and leaves those of the others.\<close>

lemma stage_condition:
  assumes laws: "env_laws r view" and n: "n < 7"
    and run: "(pipelines r ctx ! n) a w = (Val (ok, a1), w1)"
  shows "i < 7 \<Longrightarrow> i \<noteq> n \<Longrightarrow> conditionStatus a1 (stageTypes ! i) = conditionStatus a (stageTypes ! i)"
    and "\<not> ok \<Longrightarrow> conditionStatus a1 (stageTypes ! n) = Some ConditionFalse"
proof -
  have c: "setsCondition (stageTypes ! n) ok a a1"
    by (rule stage_at [OF laws n, of ctx a w]) (use run in simp)
  have "stageTypes ! i \<noteq> stageTypes ! n" if "i < 7" "i \<noteq> n"
    using that n nth_eq_iff_index_eq [OF distinct_stageTypes, of i n] by simp
  with c show "i < 7 \<Longrightarrow> i \<noteq> n \<Longrightarrow>
      conditionStatus a1 (stageTypes ! i) = conditionStatus a (stageTypes ! i)"
    by (simp add: setsCondition_def conditionStatus_def)
  show "\<not> ok \<Longrightarrow> conditionStatus a1 (stageTypes ! n) = Some ConditionFalse"
    using c by (auto simp: setsCondition_def conditionStatus_def)
qed

lemma stagesRan_last:
  assumes laws: "env_laws r view" and ran: "stagesRan view r ctx a0 (Suc n) a1 w2"
    and true: "trueUpto (Suc n) a1"
  obtains a w w1 where "stagesRan view r ctx a0 n a w" and "trueUpto n a" and "keeps a0 a"
    and "(pipelines r ctx ! n) a w = (Val (True, a1), w1)"
    and "untouched view (mq_Namespace a0) w1 w2"
    and "conditionStatus a1 (stageTypes ! n) = Some ConditionTrue"
proof -
  from ran obtain a w w1 where 1: "stagesRan view r ctx a0 n a w" and n: "n < 7"
    and st: "(pipelines r ctx ! n) a w = (Val (True, a1), w1)"
    and u: "untouched view (mq_Namespace a0) w1 w2" by (rule stagesRan_SucE)
  have "trueUpto n a"
    unfolding trueUpto_def
  proof (intro allI impI)
    fix i assume "i < n"
    then show "conditionStatus a (stageTypes ! i) = Some ConditionTrue"
      using true [unfolded trueUpto_def, rule_format, of i] stage_condition(1) [OF laws n st, of i] n
      by simp
  qed
  with that 1 st u stagesRan_keeps [OF 1 laws] true show thesis by (simp add: trueUpto_def)
qed

text \<open>A run of the pipeline in one go, at the end of which all conditions are True, is such a run.\<close>

lemma runPipeline_ran:
  assumes laws: "env_laws r view" and "runPipeline (drop n (pipelines r ctx)) a w = (Val b, w')"
    and "stagesRan view r ctx a0 n a w" and "trueUpto 7 b" and "n \<le> 7"
  shows "stagesRan view r ctx a0 7 b w'"
  using assms(2-)
proof (induction "7 - n" arbitrary: n a w)
  case 0
  then show ?case by simp
next
  case (Suc k)
  then have n: "n < 7" by simp
  then have "drop n (pipelines r ctx) = pipelines r ctx ! n # drop (Suc n) (pipelines r ctx)"
    by (simp add: Cons_nth_drop_Suc)
  with Suc.prems(1) obtain ok a1 w1 where st: "(pipelines r ctx ! n) a w = (Val (ok, a1), w1)"
    and rest: "(if \<not> ok then (Val a1, w1) else runPipeline (drop (Suc n) (pipelines r ctx)) a1 w1)
      = (Val b, w')"
    by (auto simp: go_bind_Val_iff)
  have ok
  proof (rule ccontr)
    assume "\<not> ok"
    with rest have "a1 = b" by simp
    with stage_condition(2) [OF laws n st] \<open>\<not> ok\<close> Suc.prems(3) [unfolded trueUpto_def, rule_format, OF n]
    show False by simp
  qed
  then have "stagesRan view r ctx a0 (Suc n) a1 w1"
    using stagesRan.more [OF Suc.prems(2) n] st by simp
  moreover have "k = 7 - Suc n" using Suc.hyps(2) by simp
  ultimately show ?case using Suc.hyps(1) [of "Suc n" a1 w1] rest \<open>ok\<close> Suc.prems(3) n by simp
qed

section \<open>What single stages leave\<close>

lemma scriptConfigmap_made:
  assumes "okey b = (KConfigMap, ns, n)"
    and "admitted (on_configmap (scriptConfigmap_mutate data) b) y"
  shows "\<exists>c. y = ObjConfigMap c \<and> cm_Data c = [''up.sh'' \<mapsto> data]"
proof -
  from assms(1) obtain c where "b = ObjConfigMap c" using okey_kindE(4) [of b] by auto
  with assms(2) show ?thesis by (cases y) (auto simp: on_configmap_def scriptConfigmap_mutate_def)
qed

lemma scriptConfigmap_stored:
  assumes laws: "kube_laws (r_Client r) view"
    and run: "scriptConfigmap r ctx obj w = (Val (b, obj'), w')"
    and cond: "conditionStatus obj' ''SyncConfigmapReady'' = Some ConditionTrue"
  shows "scriptStored r obj (view w')"
proof -
  let ?cm = "ObjConfigMap (new_configmap (mq_Namespace obj) (mq_Name obj))"
  let ?f = "on_configmap (scriptConfigmap_mutate (r_UpSh r))"
  obtain e y w1 where call: "retry_fresh_create_or_update (r_Client r) ?f ?cm w = (e, y, w1)"
    by (metis prod_cases3)
  have e: "e = None" and w1: "w1 = w'"
    using run cond call
    by (auto simp: scriptConfigmap_def Let_def
        conditionStatus_set [OF kube_lawsD(8) [OF laws]] split: option.splits)
  have key: "okey (?f x) = okey x" for x
    by (cases x) (simp_all add: on_configmap_def scriptConfigmap_mutate_def)
  from retry_fresh_stored [OF laws call [unfolded e] key] obtain x where
    y: "view w1 (okey ?cm) = Some y" and x: "okey x = okey ?cm" "admitted (?f x) y" by blast
  from x(1) have "okey x = (KConfigMap, mq_Namespace obj, mq_Name obj)"
    by (simp add: new_configmap_def empty_meta_def)
  from scriptConfigmap_made [OF this x(2)] y w1 show ?thesis
    by (auto simp: scriptStored_def new_configmap_def empty_meta_def)
qed


lemma bootstrap_frame:
  assumes "kube_laws (r_Client r) view" and "k \<noteq> (KService, mq_Namespace obj, bootstrapName)"
  shows "view (snd (syncKafkaBootstrapService r ctx obj w)) k = view w k"
  using assms(2)
  by (simp add: syncKafkaBootstrapService_def Let_def case_prod_beta bootstrapName_def
      retry_cou_frame [OF assms(1)] split: option.splits)

lemma scale_removes:
  assumes laws: "kube_laws (r_Client r) view" and ds: "deletes_succeed (r_Client r) view"
    and j: "sint (cs_Replicas (controllerSpec obj)) \<le> j" "j < sint (st_ControllerReplicas (mq_Status obj))"
    and k: "k \<in> controllerKeys (mq_Namespace obj) (word_of_int j)"
  shows "view (snd (syncControllersScale r ctx obj w)) k = None"
proof -
  from k obtain x where "k = okey x" "x \<in> set (controllerObjects (mq_Namespace obj) (word_of_int j))"
    by (metis controllerObjects_keys(1) imageE)
  with controller_scale.loop_removes [OF kube_lawsD(4) [OF laws] ds] j show ?thesis
    by (simp add: syncControllersScale_def Let_def for_int32_for_int)
qed

text \<open>Replicas that are not asked for are not created by the loop over those that are.\<close>

lemma sync_leaves_others:
  assumes laws: "kube_laws (r_Client r) view" and j: "sint (cs_Replicas (controllerSpec obj)) \<le> j" "j < 2 ^ 31"
    and k: "k \<in> controllerKeys (mq_Namespace obj) (word_of_int j)"
  shows "view (snd (syncControllers r ctx obj w)) k = view w k"
proof -
  have "snd (syncControllers r ctx obj w) =
      snd (for_ret 0 (sint (cs_Replicas (controllerSpec obj)))
        (\<lambda>i. syncControllers_body r ctx obj (word_of_int i)) w)"
    unfolding syncControllers_def by (rule go_bind_sync_snd) (auto split: option.splits)
  moreover have "k \<notin> controllerKeys (mq_Namespace obj) (word_of_int i)"
    if "0 \<le> i" "i < sint (cs_Replicas (controllerSpec obj))" for i
  proof -
    have "(word_of_int i :: int32) \<noteq> word_of_int j"
      using that j by (subst int32_index_inject) auto
    with k controller_sync.keys_disjoint show ?thesis by blast
  qed
  ultimately show ?thesis using controller_sync.loop_frame [OF laws] by simp
qed

section \<open>The whole reconciliation\<close>

text \<open>The objects a stage may touch; it leaves the others.\<close>

definition stageKeys :: "string \<Rightarrow> string \<Rightarrow> nat \<Rightarrow> okey set" where
  "stageKeys ns name n = [
     {},
     {(KConfigMap, ns, name)},
     \<Union>(range (controllerKeys ns)),
     \<Union>(range (controllerKeys ns)),
     \<Union>(range (brokerKeys ns)) \<union> range (\<lambda>i. (KStatefulSet, ns, brokerName i)),
     \<Union>(range (brokerKeys ns)),
     {(KService, ns, bootstrapName)}] ! n"

lemma less_seven: "n < 7 \<Longrightarrow> n \<in> {0, 1, 2, 3, 4, 5, 6 :: nat}"
  by auto

lemma stage_frame:
  assumes laws: "env_laws r view" and n: "n < 7"
    and k: "k \<notin> stageKeys (mq_Namespace a) (mq_Name a) n"
  shows "view (snd ((pipelines r ctx ! n) a w)) k = view w k"
  using less_seven [OF n] k env_lawsD(1,2) [OF laws] kube_lawsD(4) [OF env_lawsD(1) [OF laws]]
  by (auto simp: pipelines_def stageKeys_def s3Service_view scriptConfigmap_frame
      syncControllersScale_frame syncControllers_frame syncBrokers_frame bootstrap_frame
      intro!: syncBrokerScale_frame)

text \<open>The objects that no stage after \<open>m\<close> and before \<open>n\<close> may touch have stayed.\<close>

definition leftAlone :: "'w view \<Rightarrow> AutoMQ \<Rightarrow> nat \<Rightarrow> nat \<Rightarrow> 'w \<Rightarrow> 'w \<Rightarrow> bool" where
  "leftAlone view a m n w w' \<longleftrightarrow> (\<forall>k. fst k \<noteq> KAutoMQ \<longrightarrow> fst (snd k) = mq_Namespace a \<longrightarrow>
     (\<forall>i. m < i \<and> i < n \<longrightarrow> k \<notin> stageKeys (mq_Namespace a) (mq_Name a) i) \<longrightarrow> view w' k = view w k)"

lemma leftAloneD:
  assumes "leftAlone view a m n w w'" and "fst k \<noteq> KAutoMQ" and "fst (snd k) = mq_Namespace a"
    and "\<And>i. m < i \<Longrightarrow> i < n \<Longrightarrow> k \<notin> stageKeys (mq_Namespace a) (mq_Name a) i"
  shows "view w' k = view w k"
  using assms unfolding leftAlone_def by blast

text \<open>What each stage has brought about is still there, unless a later stage may have touched it.\<close>

lemma stage_ran:
  assumes laws: "env_laws r view" and "stagesRan view r ctx a0 n c w'" and "trueUpto n c"
    and "m < n" and "n \<le> 7"
  obtains a w a1 w1 where "stagesRan view r ctx a0 m a w" and "trueUpto m a" and "keeps a0 a"
    and "(pipelines r ctx ! m) a w = (Val (True, a1), w1)"
    and "conditionStatus a1 (stageTypes ! m) = Some ConditionTrue"
    and "leftAlone view a0 m n w1 w'"
  using assms(2-)
proof (induction n arbitrary: c w' thesis)
  case 0
  then show ?case by simp
next
  case (Suc n)
  obtain a w w1 where a: "stagesRan view r ctx a0 n a w" "trueUpto n a" "keeps a0 a"
    and st: "(pipelines r ctx ! n) a w = (Val (True, c), w1)"
    and u: "untouched view (mq_Namespace a0) w1 w'"
    and true: "conditionStatus c (stageTypes ! n) = Some ConditionTrue"
    by (rule stagesRan_last [OF laws Suc.prems(2,3)])
  show ?case
  proof (cases "m = n")
    case True
    have "leftAlone view a0 m (Suc n) w1 w'" using untouchedD [OF u] by (simp add: leftAlone_def)
    with Suc.prems(1) a st true True show ?thesis by blast
  next
    case False
    with Suc.prems(4,5) have mn: "m < n" "n \<le> 7" "n < 7" by simp_all
    have "view w' k = view w k" if "fst k \<noteq> KAutoMQ" "fst (snd k) = mq_Namespace a0"
      "k \<notin> stageKeys (mq_Namespace a0) (mq_Name a0) n" for k
      using stage_frame [OF laws mn(3), of k a ctx w] st untouchedD [OF u that(1,2)] that(3)
        keeps_key [OF a(3)] by simp
    then have "leftAlone view a0 m n v w \<Longrightarrow> leftAlone view a0 m (Suc n) v w'" for v
      using mn(1) unfolding leftAlone_def by (metis less_Suc_eq)
    with Suc.prems(1) show ?thesis
      by (rule_tac Suc.IH [OF _ a(1,2) mn(1,2)]) blast
  qed
qed

lemma last_run:
  assumes "env_laws r view" and "stagesRan view r ctx a0 7 c w'" and "trueUpto 7 c" and "m < 7"
  obtains a w a1 w1 where "stagesRan view r ctx a0 m a w" and "trueUpto m a" and "keeps a0 a"
    and "(pipelines r ctx ! m) a w = (Val (True, a1), w1)"
    and "conditionStatus a1 (stageTypes ! m) = Some ConditionTrue" and "leftAlone view a0 m 7 w1 w'"
  by (rule stage_ran [OF assms order_refl])

text \<open>
  The parts of the desired state, each from the stage that brings it about, for a pipeline that
  has started from \<open>a0\<close>.
\<close>

lemma ran_script:
  assumes laws: "env_laws r view" and "stagesRan view r ctx a0 7 c w'" and "trueUpto 7 c"
  shows "scriptStored r a0 (view w')"
proof -
  obtain b w b1 w1 where b: "keeps a0 b" "(pipelines r ctx ! 1) b w = (Val (True, b1), w1)"
    "conditionStatus b1 (stageTypes ! 1) = Some ConditionTrue" "leftAlone view a0 1 7 w1 w'"
    by (rule last_run [OF assms, of 1]) simp_all
  have "scriptStored r b (view w1)"
    using scriptConfigmap_stored [OF env_lawsD(1) [OF laws]] b(2,3)
    by (simp add: pipelines_def stageTypes_def)
  moreover have "view w' (KConfigMap, mq_Namespace a0, mq_Name a0) =
      view w1 (KConfigMap, mq_Namespace a0, mq_Name a0)"
    by (rule leftAloneD [OF b(4)])
      (auto dest!: less_seven simp: stageKeys_def controllerKeys_def brokerKeys_def)
  ultimately show ?thesis using b(1) by (simp add: scriptStored_def keeps_def)
qed

lemma ran_bootstrap:
  assumes laws: "env_laws r view" and ran: "stagesRan view r ctx a0 7 c w'" and true: "trueUpto 7 c"
  shows "bootstrapStored a0 (view w')"
    and "st_BootstrapInternalAddress (mq_Status c) = bootstrapAddress a0"
proof -
  have 7: "Suc 6 = (7 :: nat)" by simp
  obtain b w w1 where k: "keeps a0 b" and st: "(pipelines r ctx ! 6) b w = (Val (True, c), w1)"
    and t: "conditionStatus c (stageTypes ! 6) = Some ConditionTrue"
    and u: "untouched view (mq_Namespace a0) w1 w'"
    by (rule stagesRan_last [OF laws ran [folded 7] true [folded 7]])
  from bootstrap_service_ready [OF env_lawsD(1) [OF laws], of ctx b w True c w1] st t
  have "bootstrapStored b (view w1)"
    and a: "st_BootstrapInternalAddress (mq_Status c) = bootstrapAddress b"
    by (auto simp: pipelines_def stageTypes_def bootstrapStored_def bootstrapAddress_def)
  then show "bootstrapStored a0 (view w')"
    and "st_BootstrapInternalAddress (mq_Status c) = bootstrapAddress a0"
    using k untouchedD [OF u, of "(KService, mq_Namespace a0, bootstrapName)"]
    by (simp_all add: bootstrapStored_def bootstrapAddress_def keeps_def)
qed

lemma ran_controllers:
  assumes laws: "env_laws r view" and "stagesRan view r ctx a0 7 c w'" and "trueUpto 7 c"
  shows "0 \<le> j \<Longrightarrow> j < sint (cs_Replicas (controllerSpec a0)) \<Longrightarrow>
      k \<in> controllerKeys (mq_Namespace a0) (word_of_int j) \<Longrightarrow>
      \<exists>x. view w' k = Some x \<and> controllerGood r ctx a0 (word_of_int j) x"
    and "deletes_succeed (r_Client r) view \<Longrightarrow> surplusGone a0 (view w')"
proof -
  note K = env_lawsD(1) [OF laws]
  let ?ns = "mq_Namespace a0"
  obtain b w b1 w1 where b: "stagesRan view r ctx a0 3 b w" "trueUpto 3 b" "keeps a0 b"
    "(pipelines r ctx ! 3) b w = (Val (True, b1), w1)"
    "conditionStatus b1 (stageTypes ! 3) = Some ConditionTrue" "leftAlone view a0 3 7 w1 w'"
    by (rule last_run [OF assms, of 3]) simp_all
  have st: "syncControllers r ctx b w = (Val (True, b1), w1)" using b(4) by (simp add: pipelines_def)
  have later: "view w' k = view w1 k" if "k \<in> controllerKeys ?ns i" for k i
    by (rule leftAloneD [OF b(6)]) (use that in
      \<open>auto dest!: less_seven simp: stageKeys_def controllerKeys_def brokerKeys_def\<close>)
  note same = keeps_key [OF b(3)] same_spec(1) [of b a0 r]
  show "\<exists>x. view w' k = Some x \<and> controllerGood r ctx a0 (word_of_int j) x"
    if "0 \<le> j" "j < sint (cs_Replicas (controllerSpec a0))" "k \<in> controllerKeys ?ns (word_of_int j)"
    using controllers_converge [OF K st _ that(1), of k] b(3,5) that later [OF that(3)] same
    by (simp add: keeps_def stageTypes_def)
  show "surplusGone a0 (view w')" if ds: "deletes_succeed (r_Client r) view"
    unfolding surplusGone_def
  proof (intro allI impI ballI, elim conjE)
    fix j k
    assume j: "sint (cs_Replicas (controllerSpec a0)) \<le> j" "j < sint (st_ControllerReplicas (mq_Status a0))"
      and k: "k \<in> controllerKeys ?ns (word_of_int j)"
    obtain d v d1 v1 where d: "keeps a0 d" "(pipelines r ctx ! 2) d v = (Val (True, d1), v1)"
      "leftAlone view a0 2 3 v1 w"
      by (rule stage_ran [OF laws b(1,2), of 2]) simp_all
    have "view v1 k = None"
      using scale_removes [OF K ds, of d j k ctx v] j k d(1,2) by (simp add: keeps_def pipelines_def)
    moreover have "view w k = view v1 k"
      by (rule leftAloneD [OF d(3)]) (use k in \<open>auto simp: controllerKeys_def\<close>)
    moreover have "view w1 k = view w k"
      using sync_leaves_others [OF K, of b j k ctx w] st j k b(3)
        sint_int32_bounds(2) [of "st_ControllerReplicas (mq_Status a0)"] by (simp add: keeps_def)
    ultimately show "view w' k = None" using later [OF k] by simp
  qed
qed

lemma ran_brokers:
  assumes laws: "env_laws r view" and "stagesRan view r ctx a0 7 c w'" and "trueUpto 7 c"
    and j: "0 \<le> j" "j < sint (bs_Replicas (brokerSpec a0))"
  shows "k \<in> brokerKeys (mq_Namespace a0) (word_of_int j) \<Longrightarrow>
      \<exists>x. view w' k = Some x \<and> brokerGood r ctx a0 (word_of_int j) x"
    and "portAgrees r ctx a0 (word_of_int j) (view w')"
proof -
  note K = env_lawsD(1) [OF laws]
  let ?ns = "mq_Namespace a0"
  obtain b w b1 w1 where b: "keeps a0 b" "(pipelines r ctx ! 5) b w = (Val (True, b1), w1)"
    "conditionStatus b1 (stageTypes ! 5) = Some ConditionTrue" "leftAlone view a0 5 7 w1 w'"
    by (rule last_run [OF assms(1-3), of 5]) simp_all
  have st: "syncBrokers r ctx b w = (Val (True, b1), w1)"
    and true: "conditionStatus b1 ''SyncBrokerReady'' = Some ConditionTrue"
    using b(2,3) by (simp_all add: pipelines_def stageTypes_def)
  have j': "j < sint (bs_Replicas (brokerSpec b))" and ns: "mq_Namespace b = ?ns"
    using j b(1) by (simp_all add: keeps_def)
  have later: "view w' k = view w1 k" if "k \<in> brokerKeys ?ns i" for k i
    by (rule leftAloneD [OF b(4)]) (use that in
      \<open>auto dest!: less_seven simp: stageKeys_def controllerKeys_def brokerKeys_def\<close>)
  have same: "mq_Name b = mq_Name a0" "mq_Namespace b = ?ns" "mq_Spec b = mq_Spec a0"
    using b(1) by (simp_all add: keeps_def)
  show "\<exists>x. view w' k = Some x \<and> brokerGood r ctx a0 (word_of_int j) x"
    if "k \<in> brokerKeys ?ns (word_of_int j)"
    using brokers_converge [OF K st true j(1) j', of k] that later [OF that]
      same_spec(2) [OF same, where r = r] by (simp add: ns)
  have "portAgrees r ctx b (word_of_int j) (view w1)"
    by (rule brokers_advertise_own_port [OF K st true j(1) j'])
  then show "portAgrees r ctx a0 (word_of_int j) (view w')"
    using later same_spec(3) [OF same, where r = r] by (simp add: portAgrees_def brokerKeys_def ns)
qed

lemma pipeline_desired:
  assumes laws: "env_laws r view" and keeps_a: "keeps (setAddresses a) a0"
    and ran: "stagesRan view r ctx a0 7 c w'" and true: "trueUpto 7 c"
  shows "desired r ctx a (view w')"
    and "deletes_succeed (r_Client r) view \<Longrightarrow> surplusGone a (view w')"
    and "st_BootstrapInternalAddress (mq_Status c) = bootstrapAddress a"
proof -
  have "desired r ctx a0 (view w')"
    unfolding desired_def
    using ran_script [OF laws ran true] ran_bootstrap(1) [OF laws ran true]
      ran_controllers(1) [OF laws ran true] ran_brokers [OF laws ran true] by blast
  then show "desired r ctx a (view w')"
    unfolding desired_same [OF keeps_same [OF keeps_a]] .
  show "surplusGone a (view w')" if "deletes_succeed (r_Client r) view"
    using ran_controllers(2) [OF laws ran true that] keeps_a
    by (simp add: surplusGone_def keeps_def setAddresses_def)
  show "st_BootstrapInternalAddress (mq_Status c) = bootstrapAddress a"
    using ran_bootstrap(2) [OF laws ran true] keeps_a by (simp add: bootstrapAddress_def keeps_def)
qed

text \<open>The write of the status at the end touches none of it.\<close>

lemma desired_frame:
  assumes "\<And>k. fst k \<noteq> KAutoMQ \<Longrightarrow> fst (snd k) = mq_Namespace a \<Longrightarrow> v' k = v k"
  shows "desired r ctx a v' = desired r ctx a v" and "surplusGone a v' = surplusGone a v"
proof -
  let ?ns = "mq_Namespace a"
  have c: "v' k = v k" if "k \<in> controllerKeys ?ns i" for k i
    using assms that by (auto simp: controllerKeys_def)
  have b: "v' k = v k" if "k \<in> brokerKeys ?ns i" for k i
    using assms that by (auto simp: brokerKeys_def)
  have "portAgrees r ctx a i v' = portAgrees r ctx a i v" for i
    using b by (simp add: portAgrees_def brokerKeys_def)
  moreover have "scriptStored r a v' = scriptStored r a v" "bootstrapStored a v' = bootstrapStored a v"
    by (simp_all add: scriptStored_def bootstrapStored_def assms)
  moreover have "(\<forall>k \<in> controllerKeys ?ns i. \<exists>x. v' k = Some x \<and> P x) =
      (\<forall>k \<in> controllerKeys ?ns i. \<exists>x. v k = Some x \<and> P x)" for i P
    by (rule ball_cong) (simp_all add: c)
  moreover have "(\<forall>k \<in> controllerKeys ?ns i. v' k = None) =
      (\<forall>k \<in> controllerKeys ?ns i. v k = None)" for i
    by (rule ball_cong) (simp_all add: c)
  moreover have "(\<forall>k \<in> brokerKeys ?ns i. \<exists>x. v' k = Some x \<and> P x) =
      (\<forall>k \<in> brokerKeys ?ns i. \<exists>x. v k = Some x \<and> P x)" for i P
    by (rule ball_cong) (simp_all add: b)
  ultimately show "desired r ctx a v' = desired r ctx a v" "surplusGone a v' = surplusGone a v"
    unfolding desired_def surplusGone_def by (simp_all only:)
qed

lemma desired_untouched:
  assumes "untouched view (mq_Namespace a) w w'"
  shows "desired r ctx a (view w') = desired r ctx a (view w)"
  by (rule desired_frame(1)) (rule untouchedD [OF assms])

lemma syncStatus_keeps_desired:
  assumes laws: "kube_laws K view" and "syncStatus K b w = (e, w')"
  shows "desired r ctx a (view w') = desired r ctx a (view w)"
    and "surplusGone a (view w') = surplusGone a (view w)"
proof -
  have f: "view w' k = view w k" if "fst k \<noteq> KAutoMQ" for k
    using syncStatus_frame [OF laws, of k b w] that assms(2) by (cases k) auto
  show "desired r ctx a (view w') = desired r ctx a (view w)" by (rule desired_frame(1) [OF f])
  show "surplusGone a (view w') = surplusGone a (view w)" by (rule desired_frame(2) [OF f])
qed

text \<open>
  C1: a reconciliation that returns nil and leaves all seven conditions True has brought the
  cluster into the desired state: the config map holds the start script, the claim, deployment
  and service of every controller and broker replica are as specified, every broker is told the
  node port of its own service, the bootstrap service is there and its address is recorded. If existing objects can be
  deleted, the controllers from the specified count up to the recorded one are gone.
\<close>

theorem reconcile_converges:
  assumes laws: "env_laws r view"
    and run: "reconcile r ctx (ObjAutoMQ a) w = (Val None, w')"
    and stored: "view w' (okey (ObjAutoMQ a)) = Some (ObjAutoMQ b)"
    and ok: "\<forall>t \<in> set stageTypes. conditionStatus b t = Some ConditionTrue"
  shows "desired r ctx a (view w') \<and> st_BootstrapInternalAddress (mq_Status b) = bootstrapAddress a
    \<and> (deletes_succeed (r_Client r) view \<longrightarrow> surplusGone a (view w'))"
proof -
  note K = env_lawsD(1) [OF laws]
  from run obtain c w7 where pl: "runPipeline (pipelines r ctx) (setAddresses a) w = (Val c, w7)"
    and sy: "syncStatus (r_Client r) (recordReplicas c) w7 = (None, w')"
    unfolding reconcile_Val_iff by blast
  from run_pipelines [OF laws, of ctx "setAddresses a" w] pl have "keeps (setAddresses a) c" by auto
  then have "okey (ObjAutoMQ (recordReplicas c)) = okey (ObjAutoMQ a)" by (simp add: keeps_def)
  with syncStatus_stored [OF K sy] stored have b: "mq_Status b = mq_Status (recordReplicas c)" by auto
  with ok have "\<forall>t \<in> set stageTypes. conditionStatus c t = Some ConditionTrue"
    by (simp add: conditionStatus_def)
  then have true: "trueUpto 7 c" by (simp add: trueUpto_all)
  from runPipeline_ran [OF laws, of 0, simplified, OF pl stagesRan.none true]
  have "stagesRan view r ctx (setAddresses a) 7 c w7" .
  with pipeline_desired [OF laws keeps_refl _ true] show ?thesis
    using syncStatus_keeps_desired(1) [OF K sy, where r = r] syncStatus_keeps_desired(2) [OF K sy] b
    by (simp add: recordReplicas_def)
qed

text \<open>
  C2: where no call fails, one reconciliation of a stored custom resource is enough: it returns
  nil, all seven conditions are True in the status it stores, and the cluster is in the desired
  state, the surplus controllers included.
\<close>

theorem healthy_reconciliation:
  assumes laws: "env_laws r view" and h: "healthy r view"
    and ds: "deletes_succeed (r_Client r) view"
    and stored: "view w (okey (ObjAutoMQ a)) = Some (ObjAutoMQ c)"
  shows "\<exists>w' b. reconcile r ctx (ObjAutoMQ a) w = (Val None, w')
    \<and> view w' (okey (ObjAutoMQ a)) = Some (ObjAutoMQ b)
    \<and> (\<forall>t \<in> set stageTypes. conditionStatus b t = Some ConditionTrue)
    \<and> desired r ctx a (view w') \<and> surplusGone a (view w')"
proof -
  note K = env_lawsD(1) [OF laws]
  from runPipeline_True [OF pipelines_ok [OF laws] healthy_stages [OF laws h] distinct_stageTypes,
      of ctx "setAddresses a" w]
  obtain b w1 where pl: "runPipeline (pipelines r ctx) (setAddresses a) w = (Val b, w1)"
    and ok: "\<forall>t \<in> set stageTypes. conditionStatus b t = Some ConditionTrue" by blast
  from run_pipelines [OF laws, of ctx "setAddresses a" w] pl have k: "keeps (setAddresses a) b"
    and f: "\<And>k. k \<notin> ownedKeys (mq_Namespace a) (mq_Name a) \<Longrightarrow> view w1 k = view w k"
    by (auto simp del: split_paired_All)
  then have key: "okey (ObjAutoMQ (recordReplicas b)) = okey (ObjAutoMQ a)" by (simp add: keeps_def)
  have "view w1 (okey (ObjAutoMQ (recordReplicas b))) = Some (ObjAutoMQ c)"
    unfolding key using f [of "okey (ObjAutoMQ a)"] stored ownedKeys_not_AutoMQ by simp
  from syncStatus_responsive [OF K _ this] h obtain w' where
    sy: "syncStatus (r_Client r) (recordReplicas b) w1 = (None, w')" by (auto simp: healthy_def)
  from syncStatus_stored [OF K sy] key obtain d where
    d: "view w' (okey (ObjAutoMQ a)) = Some (ObjAutoMQ d)" "mq_Status d = mq_Status (recordReplicas b)"
    by auto
  have "reconcile r ctx (ObjAutoMQ a) w = (Val None, w')"
    unfolding reconcile_Val_iff using pl sy by blast
  moreover have "\<forall>t \<in> set stageTypes. conditionStatus d t = Some ConditionTrue"
    using ok d(2) by (simp add: conditionStatus_def)
  moreover have "desired r ctx a (view w')" "surplusGone a (view w')"
    using pipeline_desired(1,2) [OF laws keeps_refl runPipeline_ran [OF laws, of 0, simplified, OF pl
        stagesRan.none] ] ok [folded trueUpto_all] ds
      syncStatus_keeps_desired(1) [OF K sy, where r = r] syncStatus_keeps_desired(2) [OF K sy] by simp_all
  ultimately show ?thesis using d(1) by blast
qed

lemma reconcile_True:
  assumes laws: "env_laws r view" and h: "healthy r view"
    and run: "reconcile r ctx (ObjAutoMQ a) w = (Val None, w')"
    and stored: "view w' (okey (ObjAutoMQ a)) = Some (ObjAutoMQ d)"
  shows "\<forall>t \<in> set stageTypes. conditionStatus d t = Some ConditionTrue"
proof -
  note K = env_lawsD(1) [OF laws]
  from run obtain b w1 where pl: "runPipeline (pipelines r ctx) (setAddresses a) w = (Val b, w1)"
    and sy: "syncStatus (r_Client r) (recordReplicas b) w1 = (None, w')"
    unfolding reconcile_Val_iff by blast
  from run_pipelines [OF laws, of ctx "setAddresses a" w] pl have "keeps (setAddresses a) b" by auto
  then have "okey (ObjAutoMQ (recordReplicas b)) = okey (ObjAutoMQ a)" by (simp add: keeps_def)
  with syncStatus_stored [OF K sy] stored have "mq_Status d = mq_Status (recordReplicas b)" by auto
  moreover from runPipeline_True [OF pipelines_ok [OF laws] healthy_stages [OF laws h]
      distinct_stageTypes, of ctx "setAddresses a" w] pl
  have "\<forall>t \<in> set stageTypes. conditionStatus b t = Some ConditionTrue" by auto
  ultimately show ?thesis by (simp add: conditionStatus_def)
qed

section \<open>A run\<close>

theorem reconcile_converges_witness:
  "\<exists>w'. reconcile (memOperator None allow) Map.empty (ObjAutoMQ (withReplicas 3 0 (sample ''mq'')))
      (cluster [ObjAutoMQ (sample ''mq'')]) = (Val None, w')
    \<and> desired (memOperator None allow) Map.empty (withReplicas 3 0 (sample ''mq'')) (mem_view w')
    \<and> mem_view w' (KDeployment, ''prod'', controllerName 2) = None"
proof -
  let ?r = "memOperator None allow" and ?a = "withReplicas 3 0 (sample ''mq'')"
  let ?w = "cluster [ObjAutoMQ (sample ''mq'')]"
  have "mem_view ?w (okey (ObjAutoMQ ?a)) = Some (ObjAutoMQ (sample ''mq''))" by simp
  from mem_reconcile_meta [OF this, of None Map.empty] obtain w' b where
    run: "reconcile ?r Map.empty (ObjAutoMQ ?a) ?w = (Val None, w')"
    and stored: "mem_view w' (okey (ObjAutoMQ ?a)) = Some (ObjAutoMQ b)" by blast
  from reconcile_True [OF mem_env_laws mem_healthy run stored]
  have ok: "\<forall>t \<in> set stageTypes. conditionStatus b t = Some ConditionTrue" .
  have k: "(KDeployment, ''prod'', controllerName 2) \<in> controllerKeys ''prod'' (word_of_int 2)"
    by (simp add: controllerKeys_def)
  from reconcile_converges [OF mem_env_laws run stored ok]
  have d: "desired ?r Map.empty ?a (mem_view w')" and gone: "surplusGone ?a (mem_view w')"
    by (simp_all add: mem_deletes_succeed)
  have "mem_view w' (KDeployment, ''prod'', controllerName 2) = None"
    using gone [unfolded surplusGone_def, THEN spec, of 2] k by (elim impE bspec) simp_all
  with d run show ?thesis by blast
qed

theorem healthy_reconciliation_witness:
  "\<exists>w'. reconcile (memOperator None allow) Map.empty (ObjAutoMQ (withReplicas 2 0 (sample ''mq'')))
      (cluster [ObjAutoMQ (sample ''mq'')]) = (Val None, w')
    \<and> desired (memOperator None allow) Map.empty (withReplicas 2 0 (sample ''mq'')) (mem_view w')"
proof -
  let ?a = "withReplicas 2 0 (sample ''mq'')"
  have "mem_view (cluster [ObjAutoMQ (sample ''mq'')]) (okey (ObjAutoMQ ?a))
    = Some (ObjAutoMQ (sample ''mq''))" by simp
  from healthy_reconciliation [OF mem_env_laws mem_healthy _ this, of Map.empty] show ?thesis
    by (simp add: mem_deletes_succeed) blast
qed

end
