(* ===== verification/Concurrent.thy ===== *)
theory Concurrent
  imports Interleavings Desired
begin

text \<open>
  Convergence under interference: a reconciliation reaches the desired state although the steps
  of tickers, of reconciliations in other namespaces and of other clients fall between its
  stages.
\<close>

text \<open>The steps of tickers, of which only custom resources are written.\<close>

fun isTick :: "label \<Rightarrow> bool" where
  "isTick (TickRead req) = True"
| "isTick (TickWrite req e) = True"
| "isTick _ = False"

lemma op_step_untouched:
  assumes step: "op_step r ctx env s l s'" and laws: "env_laws r view" and wf: "op_wf s"
    and env: "\<And>w w'. l = Other \<Longrightarrow> env w w' \<Longrightarrow> untouched view ns w w'"
    and others: "\<And>q. label_key l = Some q \<Longrightarrow> isTick l \<or> fst q \<noteq> ns"
  shows "untouched view ns (op_world s) (op_world s')"
  unfolding untouched_def
proof (intro allI impI, elim conjE)
  fix k :: okey
  assume k: "fst k \<noteq> KAutoMQ" "fst (snd k) = ns"
  note K = env_lawsD(1) [OF laws]
  show "view (op_world s') k = view (op_world s) k"
  proof (cases "isTick l")
    case True
    with step show ?thesis
    proof (cases rule: op_step.cases)
      case (tick_read q res w')
      with statusObserve_view [OF K] show ?thesis by simp
    next
      case (tick_write q a e w')
      from k(1) have "k \<noteq> okey (ObjAutoMQ a)" by auto
      from syncStatus_frame [OF K this, of "op_world s"] tick_write show ?thesis by simp
    qed simp_all
  next
    case False
    show ?thesis
    proof (rule op_step_frame [OF step laws wf])
      show "view w' k = view w k" if "l = Other" "env w w'" for w w'
        using env [OF that] k by (rule untouchedD)
      show "k \<notin> domain_of q" if "label_key l = Some q" for q
        using others [OF that] False k domain_of_namespace [of k q] by auto
    qed
  qed
qed

text \<open>A reconciliation in flight has run its first stages, or one of them has failed.\<close>

definition underWay :: "'w view \<Rightarrow> 'w reconciler \<Rightarrow> ctx \<Rightarrow> AutoMQ \<Rightarrow> nsname \<Rightarrow> 'w operator \<Rightarrow> bool" where
  "underWay view r ctx a0 req s \<longleftrightarrow> (\<exists>n a. op_workers s req = Some (n, a)
     \<and> (stagesRan view r ctx a0 n a (op_world s)
        \<or> 7 \<le> n \<and> (\<exists>i < 7. conditionStatus a (stageTypes ! i) = Some ConditionFalse)))"

text \<open>What a step does to a reconciliation in flight that is not its own.\<close>

lemma op_step_bystander:
  assumes step: "op_step r ctx env s l s'" and w: "op_workers s req = Some x"
    and stage: "\<And>n ok. l \<noteq> StageRun req n ok" and fin: "\<And>e. l \<noteq> Finished req e"
  shows "op_workers s' req = op_workers s req" and "label_key l = Some req \<Longrightarrow> isTick l"
  using step w stage fin by (cases rule: op_step.cases; auto)+

lemma underWay_step:
  assumes step: "op_step r ctx env s l s'" and laws: "env_laws r view" and wf: "op_wf s"
    and way: "underWay view r ctx a0 req s" and ns: "mq_Namespace a0 = fst req"
    and env: "\<And>w w'. env w w' \<Longrightarrow> untouched view (fst req) w w'"
    and others: "\<And>q. label_key l = Some q \<Longrightarrow> q \<noteq> req \<Longrightarrow> isTick l \<or> fst q \<noteq> fst req"
    and fin: "\<And>e. l \<noteq> Finished req e"
  shows "underWay view r ctx a0 req s'"
proof -
  from way obtain n a where w: "op_workers s req = Some (n, a)"
    and ran: "stagesRan view r ctx a0 n a (op_world s)
      \<or> 7 \<le> n \<and> (\<exists>i < 7. conditionStatus a (stageTypes ! i) = Some ConditionFalse)"
    unfolding underWay_def by blast
  show ?thesis
  proof (cases "\<exists>m ok. l = StageRun req m ok")
    case True
    then obtain m ok where "l = StageRun req m ok" by blast
    with step w obtain a1 w1 where n: "n < 7"
      and st: "(pipelines r ctx ! n) a (op_world s) = (Val (ok, a1), w1)"
      and s': "s' = s\<lparr>op_world := w1, op_workers := (op_workers s)(req \<mapsto> (nextStage ok n, a1))\<rparr>"
      by (auto elim!: stage_runE)
    have "ok \<Longrightarrow> stagesRan view r ctx a0 (Suc n) a1 w1"
      using stagesRan.more [OF _ n, of view r ctx a0 a "op_world s" a1 w1 w1] ran st n by simp
    moreover have "\<not> ok \<Longrightarrow> conditionStatus a1 (stageTypes ! n) = Some ConditionFalse"
      by (rule stage_condition(2) [OF laws n st])
    ultimately show ?thesis
      using s' n by (cases ok) (auto simp: underWay_def nextStage_def)
  next
    case False
    note bystander = op_step_bystander [OF step w _ fin]
    have same: "op_workers s' req = op_workers s req" using bystander(1) False by blast
    have "untouched view (fst req) (op_world s) (op_world s')"
    proof (rule op_step_untouched [OF step laws wf env])
      fix q assume q: "label_key l = Some q"
      with others [OF q] bystander(2) False show "isTick l \<or> fst q \<noteq> fst req" by blast
    qed
    with ran same w show ?thesis
      using stagesRan_untouched [of view r ctx a0 n a "op_world s" "op_world s'"] ns
      by (auto simp: underWay_def)
  qed
qed

lemma underWay_run:
  assumes run: "op_run r ctx env s ls s'" and laws: "env_laws r view" and wf: "op_wf s"
    and way: "underWay view r ctx a0 req s" and ns: "mq_Namespace a0 = fst req"
    and env: "\<And>w w'. env w w' \<Longrightarrow> untouched view (fst req) w w'"
    and others: "\<And>l q. l \<in> set ls \<Longrightarrow> label_key l = Some q \<Longrightarrow> q \<noteq> req \<Longrightarrow>
      isTick l \<or> fst q \<noteq> fst req"
    and fin: "\<And>e. Finished req e \<notin> set ls"
  shows "underWay view r ctx a0 req s'"
  using run wf way others fin
proof (induction rule: op_run.induct)
  case (step s ls s1 l s2)
  have "op_wf s1" by (rule op_run_wf [OF step.hyps(1) laws step.prems(1)])
  moreover have "underWay view r ctx a0 req s1" by (rule step.IH) (use step.prems in auto)
  ultimately show ?case
  proof (rule underWay_step [OF step.hyps(2) laws _ _ ns env])
    show "isTick l \<or> fst q \<noteq> fst req" if "label_key l = Some q" "q \<noteq> req" for q
      by (rule step.prems(3) [OF _ that]) simp
    show "l \<noteq> Finished req e" for e using step.prems(4) [of e] by auto
  qed
qed

text \<open>
  C3: convergence holds under interference. Whatever steps of tickers, of reconciliations in other
  namespaces and of clients that leave the objects of this namespace alone come between the
  stages of a reconciliation: if its last step, the write of the status, succeeds and all seven
  conditions are True in what is stored, the cluster is in the desired state of the custom
  resource the reconciliation started from.
\<close>

theorem interleaved_converges:
  assumes laws: "env_laws r view" and wf: "op_wf s0"
    and start: "startReconcile r req (op_world s0) = (Inr a, w0)"
    and run: "op_run r ctx env s0 (Started req # ls @ [Finished req None]) s"
    and fin: "\<And>e. Finished req e \<notin> set ls"
    and others: "\<And>l q. l \<in> set ls \<Longrightarrow> label_key l = Some q \<Longrightarrow> q \<noteq> req \<Longrightarrow>
      isTick l \<or> fst q \<noteq> fst req"
    and env: "\<And>w w'. env w w' \<Longrightarrow> untouched view (fst req) w w'"
    and stored: "view (op_world s) (KAutoMQ, req) = Some (ObjAutoMQ b)"
    and ok: "\<forall>t \<in> set stageTypes. conditionStatus b t = Some ConditionTrue"
  shows "desired r ctx a (view (op_world s))
    \<and> st_BootstrapInternalAddress (mq_Status b) = bootstrapAddress a
    \<and> (deletes_succeed (r_Client r) view \<longrightarrow> surplusGone a (view (op_world s)))"
proof -
  note K = env_lawsD(1) [OF laws]
  let ?a = "setAddresses a"
  have req: "(mq_Namespace a, mq_Name a) = req" using startReconcile_key [OF K start] by simp
  from run obtain s1 s2 where 1: "op_step r ctx env s0 (Started req) s1"
    and 2: "op_run r ctx env s1 ls s2" and 3: "op_step r ctx env s2 (Finished req None) s"
    by (auto elim!: op_run_ConsE op_run_snocE)
  from 1 start have "op_workers s1 req = Some (0, ?a)" by (auto elim!: startedE)
  then have way: "underWay view r ctx ?a req s1" by (auto simp: underWay_def intro: stagesRan.none)
  have ns: "mq_Namespace ?a = fst req" using req by auto
  have wf1: "op_wf s1" by (rule op_step_wf [OF 1 laws wf])
  have way2: "underWay view r ctx ?a req s2" by (rule underWay_run [OF 2 laws wf1 way ns env others fin])
  from 3 obtain n c w' where w: "op_workers s2 req = Some (n, c)" "7 \<le> n"
    and sy: "syncStatus (r_Client r) (recordReplicas c) (op_world s2) = (None, w')"
    and s: "op_world s = w'" by (rule finishedE) simp
  from way2 w have ran: "stagesRan view r ctx ?a n c (op_world s2)
      \<or> (\<exists>i < 7. conditionStatus c (stageTypes ! i) = Some ConditionFalse)"
    unfolding underWay_def by auto
  have "isFor req c" by (rule op_wfD(2) [OF op_run_wf [OF 2 laws wf1] w(1)])
  then have "okey (ObjAutoMQ (recordReplicas c)) = (KAutoMQ, req)" by (simp add: isFor_def)
  with syncStatus_stored [OF K sy] stored s have b: "mq_Status b = mq_Status (recordReplicas c)" by auto
  with ok have true: "trueUpto 7 c" by (simp add: trueUpto_all conditionStatus_def)
  then have "stagesRan view r ctx ?a n c (op_world s2)" using ran by (auto simp: trueUpto_def)
  moreover from this have "n \<le> 7" by (cases rule: stagesRan.cases) simp_all
  ultimately have "stagesRan view r ctx ?a 7 c (op_world s2)" using w(2) by simp
  from pipeline_desired [OF laws keeps_refl this true] show ?thesis
    using syncStatus_keeps_desired(1) [OF K sy, where r = r] syncStatus_keeps_desired(2) [OF K sy] b s
    by (simp add: recordReplicas_def)
qed

section \<open>Where no call fails\<close>

text \<open>A reconciliation in flight can be brought to its end, and leaves all conditions True.\<close>

lemma healthy_finishes:
  assumes laws: "env_laws r view" and h: "healthy r view"
    and w: "op_workers s req = Some (0, setAddresses a)" and a: "isFor req a"
    and stored: "view (op_world s) (KAutoMQ, req) = Some (ObjAutoMQ c)"
  shows "\<exists>ls s' b w1 n. list_all (stageLabel req) ls
    \<and> op_run r ctx env s (ls @ [Finished req None]) s' \<and> ranStages stageTypes n a b
    \<and> (\<forall>t \<in> set stageTypes. conditionStatus b t = Some ConditionTrue)
    \<and> view w1 (KAutoMQ, req) = Some (ObjAutoMQ c) \<and> isFor req b
    \<and> syncStatus (r_Client r) (recordReplicas b) w1 = (None, op_world s')
    \<and> desired r ctx a (view (op_world s'))"
proof -
  note K = env_lawsD(1) [OF laws]
  let ?a = "setAddresses a"
  from runPipeline_True [OF pipelines_ok [OF laws] healthy_stages [OF laws h] distinct_stageTypes,
      of ctx ?a "op_world s"]
  obtain b w1 where pl: "runPipeline (pipelines r ctx) ?a (op_world s) = (Val b, w1)"
    and ok: "\<forall>t \<in> set stageTypes. conditionStatus b t = Some ConditionTrue" by blast
  from run_pipelines [OF laws, of ctx ?a "op_world s"] pl obtain n where k: "keeps ?a b"
    and ran: "ranStages stageTypes n a b"
    and f: "\<And>k. k \<notin> ownedKeys (mq_Namespace a) (mq_Name a) \<Longrightarrow> view w1 k = view (op_world s) k"
    by (auto simp del: split_paired_All)
  from stages_run [of 0 r ctx ?a "op_world s" b w1 s req env] pl w obtain ls m where
    ls: "list_all (stageLabel req) ls" and m: "7 \<le> m"
    and 1: "op_run r ctx env s ls (working s req w1 m b)" by auto
  have b: "isFor req b" using isFor_keeps [of req ?a b] a k by simp
  then have key: "okey (ObjAutoMQ (recordReplicas b)) = (KAutoMQ, req)" by (simp add: isFor_def)
  have v1: "view w1 (KAutoMQ, req) = Some (ObjAutoMQ c)"
    using f [of "(KAutoMQ, req)"] stored ownedKeys_not_AutoMQ by simp
  then have "view w1 (okey (ObjAutoMQ (recordReplicas b))) = Some (ObjAutoMQ c)" unfolding key .
  from syncStatus_first [OF K _ this] h obtain w2 where
    sy: "syncStatus (r_Client r) (recordReplicas b) w1 = (None, w2)" by (auto simp: healthy_def)
  let ?s1 = "working s req w1 m b"
  let ?s2 = "?s1\<lparr>op_world := w2, op_workers := (op_workers ?s1)(req := None)\<rparr>"
  have "op_step r ctx env ?s1 (Finished req None) ?s2"
    using op_step.finished [of ?s1 req m b r None w2 ctx env] m sy by simp
  from op_run.step [OF 1 this] have 2: "op_run r ctx env s (ls @ [Finished req None]) ?s2" .
  have true: "trueUpto 7 b" using ok by (simp add: trueUpto_all)
  from runPipeline_ran [OF laws, of 0, simplified, OF pl stagesRan.none true]
  have "stagesRan view r ctx ?a 7 b w1" .
  from pipeline_desired(1) [OF laws keeps_refl this true]
  have "desired r ctx a (view w2)" using syncStatus_keeps_desired(1) [OF K sy, where r = r] by simp
  with 2 ls ok ran v1 b sy show ?thesis
    by (intro exI [of _ ls] exI [of _ ?s2] exI [of _ b] exI [of _ w1] exI [of _ n]) simp
qed

text \<open>In particular, the conditions are True in the status that is stored.\<close>

lemma healthy_finishes_True:
  assumes laws: "env_laws r view" and h: "healthy r view"
    and w: "op_workers s req = Some (0, setAddresses a)" and a: "isFor req a"
    and stored: "view (op_world s) (KAutoMQ, req) = Some (ObjAutoMQ c)"
  shows "\<exists>ls s' b. list_all (stageLabel req) ls \<and> op_run r ctx env s (ls @ [Finished req None]) s'
    \<and> view (op_world s') (KAutoMQ, req) = Some (ObjAutoMQ b)
    \<and> (\<forall>t \<in> set stageTypes. conditionStatus b t = Some ConditionTrue)"
proof -
  from healthy_finishes [OF assms, of ctx env] obtain ls s' b w1 where
    run: "list_all (stageLabel req) ls" "op_run r ctx env s (ls @ [Finished req None]) s'"
    and ok: "\<forall>t \<in> set stageTypes. conditionStatus b t = Some ConditionTrue" and b: "isFor req b"
    and sy: "syncStatus (r_Client r) (recordReplicas b) w1 = (None, op_world s')"
    by (elim exE conjE) (rule that, assumption+)
  have "okey (ObjAutoMQ (recordReplicas b)) = (KAutoMQ, req)" using b by (simp add: isFor_def)
  with syncStatus_stored [OF env_lawsD(1) [OF laws] sy] obtain d where
    "view (op_world s') (KAutoMQ, req) = Some (ObjAutoMQ d)" "mq_Status d = mq_Status (recordReplicas b)"
    by auto
  moreover from this(2) ok have "\<forall>t \<in> set stageTypes. conditionStatus d t = Some ConditionTrue"
    by (simp add: conditionStatus_def)
  ultimately show ?thesis
    using run by (intro exI [of _ ls] exI [of _ s'] exI [of _ d] conjI)
qed

lemma mem_startReconcile:
  assumes "mem_view w (KAutoMQ, req) = Some (ObjAutoMQ a)" and "om_DeletionTimestamp (mq_meta a) = None"
  shows "startReconcile (memOperator e allow) req w =
    (Inr (withFinalizer (memOperator e allow) a), mem_put (ObjAutoMQ (withFinalizer (memOperator e allow) a)) w)"
  using assms mem_view_okey [OF assms(1)]
  by (simp add: startReconcile_def mem_get_def Let_def filled_automq_def time_IsZero_def
      retryUpdate_def mem_update_def numeral_eq_Suc withFinalizer_def)

text \<open>In the witness a pass of the ticker reads the status before the first stage runs.\<close>

theorem interleaved_converges_witness:
  "\<exists>ls s. op_run (memOperator None allow) Map.empty (\<lambda>_ _. False)
      (startOn (cluster [ObjAutoMQ (sample ''mq'')]))
      (Started (''prod'', ''mq'') # (TickRead (''prod'', ''mq'') # ls) @ [Finished (''prod'', ''mq'') None]) s
    \<and> desired (memOperator None allow) Map.empty
        (withFinalizer (memOperator None allow) (sample ''mq'')) (mem_view (op_world s))"
proof -
  let ?r = "memOperator None allow" and ?env = "\<lambda>_ _ :: mem. False" and ?req = "(''prod'', ''mq'')"
  let ?a = "withFinalizer ?r (sample ''mq'')" and ?s0 = "startOn (cluster [ObjAutoMQ (sample ''mq'')])"
  let ?w1 = "mem_put (ObjAutoMQ ?a) (op_world ?s0)"
  have start: "startReconcile ?r ?req (op_world ?s0) = (Inr ?a, ?w1)" by (rule mem_startReconcile) simp_all
  let ?s1 = "?s0\<lparr>op_world := ?w1, op_tickers := [?req],
      op_workers := [?req \<mapsto> (0, setAddresses ?a)]\<rparr>"
  have 1: "op_step ?r Map.empty ?env ?s0 (Started ?req) ?s1"
    using op_step.started [of ?s0 ?req ?r ?a ?w1 Map.empty ?env] start by simp
  obtain res w2 where o: "statusObserve ?r (keyObject ?req) (op_world ?s1) = (res, w2)" by fastforce
  have v: "mem_view w2 = mem_view ?w1" using statusObserve_view [OF mem_laws o] by simp
  let ?s2 = "?s1\<lparr>op_world := w2, op_pending := inFlight ?req res @ op_pending ?s1\<rparr>"
  have 2: "op_step ?r Map.empty ?env ?s1 (TickRead ?req) ?s2"
    by (rule op_step.tick_read [OF _ o]) simp
  have stored: "mem_view (op_world ?s2) (KAutoMQ, ?req) = Some (ObjAutoMQ ?a)"
    by (simp add: v mem_view_put)
  have mine: "isFor ?req ?a" by (simp add: isFor_def)
  have "op_workers ?s2 ?req = Some (0, setAddresses ?a)" by simp
  from healthy_finishes_True [OF mem_env_laws mem_healthy this mine stored, of Map.empty ?env]
  obtain ls s b where ls: "list_all (stageLabel ?req) ls"
    and 3: "op_run ?r Map.empty ?env ?s2 (ls @ [Finished ?req None]) s"
    and b: "mem_view (op_world s) (KAutoMQ, ?req) = Some (ObjAutoMQ b)"
      "\<forall>t \<in> set stageTypes. conditionStatus b t = Some ConditionTrue"
    by (elim exE conjE) (rule that, assumption+)
  from op_run_append [OF 3 op_run_append [OF op_run_single [OF 2] op_run_single [OF 1]]]
  have run: "op_run ?r Map.empty ?env ?s0
      (Started ?req # (TickRead ?req # ls) @ [Finished ?req None]) s" by simp
  have labels: "Finished ?req e \<notin> set (TickRead ?req # ls)"
    "l \<in> set (TickRead ?req # ls) \<Longrightarrow> label_key l = Some ?req" for e l
    using ls by (auto simp: list_all_iff stageLabel_def)
  from interleaved_converges [OF mem_env_laws _ start run labels(1) _ _ b] labels(2) run
  show ?thesis by auto
qed

section \<open>The phase\<close>

lemma worker_keeps:
  assumes "op_run r ctx env s ls s'" and laws: "env_laws r view"
    and "op_workers s req = Some (n, a)" and "\<And>e. Finished req e \<notin> set ls"
  shows "\<exists>m b. op_workers s' req = Some (m, b) \<and> keeps a b"
  using assms(1,3,4)
proof (induction rule: op_run.induct)
  case (step s ls s1 l s2)
  have "\<exists>m b. op_workers s1 req = Some (m, b) \<and> keeps a b" by (rule step.IH) (use step.prems in auto)
  then obtain m b where w: "op_workers s1 req = Some (m, b)" "keeps a b" by blast
  from step.hyps(2) show ?case
  proof (cases rule: op_step.cases)
    case (stage_run q i c ok c' w')
    have "keeps c c'" by (rule stage_at [OF laws stage_run(4), of ctx c "op_world s1"])
        (use stage_run(5) in simp)
    with stage_run w keeps_trans [of a b c'] show ?thesis by auto
  next
    case (finished q i c e w')
    with step.prems(2) [of e] have "q \<noteq> req" by auto
    with finished w show ?thesis by simp
  qed (use w in auto)
qed simp

text \<open>
  C24: a reconciliation writes back the phase and the pod count it started with. What the passes of
  the ticker, or anybody else, stored there while its stages ran is lost until the next pass.
\<close>

theorem reconciliation_restores_phase:
  assumes laws: "env_laws r view" and wf: "op_wf s0"
    and start: "startReconcile r req (op_world s0) = (Inr a, w0)"
    and run: "op_run r ctx env s0 (Started req # ls @ [Finished req None]) s"
    and fin: "\<And>e. Finished req e \<notin> set ls"
  shows "\<exists>b. view (op_world s) (KAutoMQ, req) = Some (ObjAutoMQ b)
    \<and> st_Phase (mq_Status b) = st_Phase (mq_Status a)
    \<and> st_ReadyPods (mq_Status b) = st_ReadyPods (mq_Status a)"
proof -
  note K = env_lawsD(1) [OF laws]
  from run obtain s1 s2 where 1: "op_step r ctx env s0 (Started req) s1"
    and 2: "op_run r ctx env s1 ls s2" and 3: "op_step r ctx env s2 (Finished req None) s"
    by (auto elim!: op_run_ConsE op_run_snocE)
  from 1 start have "op_workers s1 req = Some (0, setAddresses a)" by (auto elim!: startedE)
  from worker_keeps [OF 2 laws this fin] obtain m c where
    w: "op_workers s2 req = Some (m, c)" and k: "keeps (setAddresses a) c" by blast
  from 3 w obtain w' where sy: "syncStatus (r_Client r) (recordReplicas c) (op_world s2) = (None, w')"
    and s: "op_world s = w'" by (auto elim!: finishedE)
  have "isFor req c"
    by (rule op_wfD(2) [OF op_run_wf [OF 2 laws op_step_wf [OF 1 laws wf]] w])
  then have "okey (ObjAutoMQ (recordReplicas c)) = (KAutoMQ, req)" by (simp add: isFor_def)
  with syncStatus_stored [OF K sy] k s show ?thesis
    by (auto simp: keeps_def recordReplicas_def setAddresses_def)
qed

text \<open>In the witness a whole pass of the ticker falls between the start and the first stage.\<close>

theorem reconciliation_restores_phase_witness:
  "\<exists>ls s2 c s b. op_run (memOperator None allow) Map.empty (\<lambda>_ _. False)
      (startOn (cluster [ObjAutoMQ (sample ''mq'')]))
      [Started (''prod'', ''mq''), TickRead (''prod'', ''mq''), TickWrite (''prod'', ''mq'') None] s2
    \<and> mem_view (op_world s2) (KAutoMQ, ''prod'', ''mq'') = Some (ObjAutoMQ c)
    \<and> st_Phase (mq_Status c) = AutoMQInProcess
    \<and> op_run (memOperator None allow) Map.empty (\<lambda>_ _. False) s2
        (ls @ [Finished (''prod'', ''mq'') None]) s
    \<and> mem_view (op_world s) (KAutoMQ, ''prod'', ''mq'') = Some (ObjAutoMQ b)
    \<and> st_Phase (mq_Status b) = ''''"
proof -
  let ?r = "memOperator None allow" and ?env = "\<lambda>_ _ :: mem. False" and ?req = "(''prod'', ''mq'')"
  let ?a = "withFinalizer ?r (sample ''mq'')" and ?s0 = "startOn (cluster [ObjAutoMQ (sample ''mq'')])"
  let ?w1 = "mem_put (ObjAutoMQ ?a) (op_world ?s0)"
  have start: "startReconcile ?r ?req (op_world ?s0) = (Inr ?a, ?w1)" by (rule mem_startReconcile) simp_all
  let ?s1 = "?s0\<lparr>op_world := ?w1, op_tickers := [?req],
      op_workers := [?req \<mapsto> (0, setAddresses ?a)]\<rparr>"
  have 1: "op_step ?r Map.empty ?env ?s0 (Started ?req) ?s1"
    using op_step.started [of ?s0 ?req ?r ?a ?w1 Map.empty ?env] start by simp
  have a: "st_Conditions (mq_Status ?a) = []" "cs_Replicas (controllerSpec ?a) = 1"
    "st_Phase (mq_Status ?a) = ''''"
    by (simp_all add: withFinalizer_def zero_status_def)
  have get: "k_Get (r_Client ?r) (ObjectKeyFromObject (ObjAutoMQ (keyObject ?req)))
      (ObjAutoMQ zero_automq) ?w1 = (None, ObjAutoMQ ?a, ?w1)"
    by (simp add: mem_get_def ObjectKeyFromObject_def mem_view_put)
  have pods: "k_ListPods (r_Client ?r) (mq_Namespace ?a) l ?w1 = (Inr [], ?w1)" for l
    by (simp add: mem_list_pods_def mem_put_def cluster_def)
  let ?c = "observed ?a (expectedPhase ?a [] []) (expectedPods ?a [] [])"
  have o: "statusObserve ?r (keyObject ?req) ?w1 = (Inr ?c, ?w1)"
    using statusObserve_writes [OF get pods pods] by auto
  have phase: "expectedPhase ?a [] [] = AutoMQInProcess"
    using a by (simp add: expectedPhase_def readyCount_def)
  let ?s2 = "?s1\<lparr>op_pending := [(?req, ?c)]\<rparr>"
  have 2: "op_step ?r Map.empty ?env ?s1 (TickRead ?req) ?s2"
    using op_step.tick_read [of ?req ?s1 ?r "Inr ?c" ?w1 Map.empty ?env] o by (simp add: inFlight_def)
  have "mem_view ?w1 (okey (ObjAutoMQ ?c)) = Some (ObjAutoMQ ?a)" by (simp add: mem_view_put)
  from mem_syncStatus_ok [OF this] obtain w3 where
    wr: "syncStatus (r_Client ?r) ?c ?w1 = (None, w3)" by auto
  let ?s3 = "?s2\<lparr>op_world := w3, op_pending := []\<rparr>"
  have 3: "op_step ?r Map.empty ?env ?s2 (TickWrite ?req None) ?s3"
    using op_step.tick_write [of ?req ?c ?s2 ?r None w3 Map.empty ?env] wr by simp
  from syncStatus_stored [OF mem_laws wr] obtain c where
    c: "mem_view (op_world ?s3) (KAutoMQ, ?req) = Some (ObjAutoMQ c)" "mq_Status c = mq_Status ?c" by auto
  have mine: "isFor ?req ?a" by (simp add: isFor_def)
  have "op_workers ?s3 ?req = Some (0, setAddresses ?a)" by simp
  from healthy_finishes_True [OF mem_env_laws mem_healthy this mine c(1), of Map.empty ?env]
  obtain ls s where ls: "list_all (stageLabel ?req) ls"
    and 4: "op_run ?r Map.empty ?env ?s3 (ls @ [Finished ?req None]) s"
    by (elim exE conjE) (rule that, assumption+)
  from op_run.step [OF op_run.step [OF op_run_single [OF 1] 2] 3]
  have pre: "op_run ?r Map.empty ?env ?s0 [Started ?req, TickRead ?req, TickWrite ?req None] ?s3" by simp
  from op_run_append [OF 4 pre] have run: "op_run ?r Map.empty ?env ?s0
      (Started ?req # (TickRead ?req # TickWrite ?req None # ls) @ [Finished ?req None]) s" by simp
  have "Finished ?req e \<notin> set (TickRead ?req # TickWrite ?req None # ls)" for e
    using ls by (auto simp: list_all_iff stageLabel_def)
  from reconciliation_restores_phase [OF mem_env_laws _ start run this] a(3) obtain b where
    "mem_view (op_world s) (KAutoMQ, ?req) = Some (ObjAutoMQ b)" "st_Phase (mq_Status b) = ''''" by auto
  moreover have "st_Phase (mq_Status c) = AutoMQInProcess" using c(2) phase by simp
  ultimately show ?thesis using pre c(1) 4
    by (intro exI [of _ ls] exI [of _ ?s3] exI [of _ c] exI [of _ s] exI [of _ b] conjI)
qed

end
