(* ===== verification/Arrival.thy ===== *)
theory Arrival
  imports Progress Concurrent
begin

text \<open>
  From a new custom resource to a cluster that is ready: the reconciliation, the platform that
  runs the pods of the deployments, and the ticker together.
\<close>

section \<open>The surroundings\<close>

text \<open>
  A server that stores what it is sent: an update that changes only the finalizers of a live
  object goes through, and an update of the status leaves the specification alone.
\<close>

definition storing :: "'w kube \<Rightarrow> 'w view \<Rightarrow> bool" where
  "storing K view \<longleftrightarrow>
     (\<forall>c fs w. view w (okey (ObjAutoMQ c)) = Some (ObjAutoMQ c)
        \<and> om_DeletionTimestamp (mq_meta c) = None \<longrightarrow>
        (\<exists>a w'. k_Update K (ObjAutoMQ (setFinalizers fs c)) w = (None, ObjAutoMQ a, w')
           \<and> mq_Spec a = mq_Spec c \<and> mq_Status a = mq_Status c))
   \<and> (\<forall>a c w y w'. view w (okey (ObjAutoMQ a)) = Some (ObjAutoMQ c) \<and> mq_Spec a = mq_Spec c
        \<and> k_StatusUpdate K (ObjAutoMQ a) w = (None, ObjAutoMQ y, w') \<longrightarrow> mq_Spec y = mq_Spec c)"

text \<open>The lists of pods that a pass of the ticker gets show as many ready pods as are specified.\<close>

definition podsRun :: "'w kube \<Rightarrow> nsname \<Rightarrow> AutoMQ \<Rightarrow> 'w \<Rightarrow> bool" where
  "podsRun K req a w \<longleftrightarrow> (\<exists>cps w2 bps w3.
     k_ListPods K (fst req) (getAutoMQLabelMap (snd req) controllerRole)
       (snd (snd (k_Get K req (ObjAutoMQ zero_automq) w))) = (Inr cps, w2)
     \<and> k_ListPods K (fst req) (getAutoMQLabelMap (snd req) brokerRole) w2 = (Inr bps, w3)
     \<and> readyCount cps = sint (cs_Replicas (controllerSpec a))
     \<and> readyCount bps = sint (bs_Replicas (brokerSpec a)))"

section \<open>The start\<close>

lemma first_read:
  assumes laws: "kube_laws K view" and resp: "responsive K view"
    and v: "view w (KAutoMQ, req) = Some (ObjAutoMQ a)"
  obtains w1 where "k_Get K req (ObjAutoMQ zero_automq) w = (None, ObjAutoMQ a, w1)" and "view w1 = view w"
proof -
  obtain e x w1 where g: "k_Get K req (ObjAutoMQ zero_automq) w = (e, x, w1)" by (metis prod_cases3)
  then have e: "e = None"
    using resp [unfolded responsive_def, THEN conjunct1, rule_format, of w "ObjAutoMQ zero_automq" req] v
    by simp
  with get_law_found [OF kube_lawsD(2) [OF laws] g [unfolded e]] v have "x = ObjAutoMQ a" by simp
  with that g e get_law_view [OF kube_lawsD(2) [OF laws] g] show thesis by simp
qed

lemma storing_starts:
  assumes laws: "kube_laws (r_Client r) view" and resp: "responsive (r_Client r) view"
    and st: "storing (r_Client r) view"
    and v: "view w (KAutoMQ, req) = Some (ObjAutoMQ a)" and live: "om_DeletionTimestamp (mq_meta a) = None"
  shows "\<exists>b w'. startReconcile r req w = (Inr b, w') \<and> mq_Spec b = mq_Spec a \<and> mq_Status b = mq_Status a
    \<and> view w' (KAutoMQ, req) = Some (ObjAutoMQ b)"
proof -
  let ?K = "r_Client r" and ?f = "withFinalizer r a"
  from first_read [OF laws resp v] obtain w1 where
    g: "k_Get ?K req (ObjAutoMQ zero_automq) w = (None, ObjAutoMQ a, w1)" and v1: "view w1 = view w" .
  have key: "okey (ObjAutoMQ a) = (KAutoMQ, req)" by (rule view_lawD [OF kube_lawsD(1) [OF laws] v])
  then have "view w1 (okey (ObjAutoMQ a)) = Some (ObjAutoMQ a)" using v v1 by simp
  with st live obtain b w2 where u: "k_Update ?K (ObjAutoMQ ?f) w1 = (None, ObjAutoMQ b, w2)"
    and b: "mq_Spec b = mq_Spec a" "mq_Status b = mq_Status a"
    unfolding storing_def withFinalizer_def by blast
  have fl: "om_DeletionTimestamp (mq_meta ?f) = None" using live by simp
  from kube_lawsD(12) [OF laws] u fl have "view w2 (okey (ObjAutoMQ ?f)) = Some (ObjAutoMQ b)"
    unfolding finalizer_update_law_def by blast
  then have v2: "view w2 (KAutoMQ, req) = Some (ObjAutoMQ b)" using key by simp
  let ?up = "\<lambda>(x, w). k_Update ?K x w"
  have "retry_run (k_IsConflict ?K) ?up (ObjAutoMQ ?f, w1) (k_RetryOnConflict ?K ?up (ObjAutoMQ ?f, w1))"
    by (rule retry_law_run [OF laws])
  from retry_run_first [OF this] u have "k_RetryOnConflict ?K ?up (ObjAutoMQ ?f, w1) = (None, ObjAutoMQ b, w2)"
    by simp
  then have "retryUpdate ?K ?f w1 = (None, b, w2)" by (simp add: retryUpdate_def filled_automq_def)
  then have "startReconcile r req w = (Inr b, w2)"
    using live by (simp add: startReconcile_def g filled_automq_def time_IsZero_def flip: withFinalizer_def)
  with b v2 show ?thesis by blast
qed

section \<open>The conditions\<close>

lemma find_distinct: "distinct (map f xs) \<Longrightarrow> x \<in> set xs \<Longrightarrow> find (\<lambda>y. f y = f x) xs = Some x"
  by (induction xs) auto

lemma all_conditions_True:
  assumes ran: "ranStages stageTypes n a b" and new: "st_Conditions (mq_Status a) = []"
    and ok: "\<forall>t \<in> set stageTypes. conditionStatus b t = Some ConditionTrue"
  shows "\<forall>c \<in> set (st_Conditions (mq_Status b)). co_Status c = ConditionTrue"
proof
  fix c
  assume c: "c \<in> set (st_Conditions (mq_Status b))"
  have "distinct (map co_Type (st_Conditions (mq_Status b)))"
    using ran new by (simp add: ranStages_def)
  from find_distinct [OF this c] have found: "conditionOf b (co_Type c) = Some c"
    by (simp add: find_condition_def)
  have "co_Type c \<in> set stageTypes"
  proof (rule ccontr)
    assume "co_Type c \<notin> set stageTypes"
    then have "co_Type c \<notin> set (take n stageTypes)" by (meson in_set_takeD)
    with ran have "conditionOf b (co_Type c) = conditionOf a (co_Type c)" by (simp add: ranStages_def)
    with found new show False by (simp add: find_condition_def)
  qed
  with ok have "conditionStatus b (co_Type c) = Some ConditionTrue" by blast
  with found show "co_Status c = ConditionTrue" by (simp add: conditionStatus_def)
qed

text \<open>What the write at the end of the reconciliation leaves.\<close>

lemma storing_syncStatus:
  assumes laws: "kube_laws K view" and resp: "responsive K view" and st: "storing K view"
    and v: "view w (okey (ObjAutoMQ a)) = Some (ObjAutoMQ c)"
    and sy: "syncStatus K a w = (None, w')"
  shows "\<exists>d. view w' (okey (ObjAutoMQ a)) = Some (ObjAutoMQ d) \<and> mq_Status d = mq_Status a
    \<and> mq_Spec d = mq_Spec c"
proof -
  let ?o = "c\<lparr>mq_Status := mq_Status a\<rparr>"
  from syncStatus_first [OF laws resp v] sy obtain w1 y where v1: "view w1 = view w"
    and u: "k_StatusUpdate K (ObjAutoMQ ?o) w1 = (None, y, w')" by auto
  have key: "okey (ObjAutoMQ ?o) = okey (ObjAutoMQ a)"
    using view_lawD [OF kube_lawsD(1) [OF laws] v] by simp
  from kube_lawsD(11) [OF laws] u obtain d where d: "y = ObjAutoMQ d" "mq_Status d = mq_Status ?o"
    and stored: "view w' (okey (ObjAutoMQ ?o)) = Some y" unfolding status_law_def by blast
  have "view w1 (okey (ObjAutoMQ ?o)) = Some (ObjAutoMQ c)" using v v1 key by simp
  moreover have "mq_Spec ?o = mq_Spec c" by simp
  ultimately have "mq_Spec d = mq_Spec c" using st u d(1) unfolding storing_def by blast
  with d stored key show ?thesis by simp
qed

section \<open>Coming up\<close>

text \<open>The first half: the reconciliation of a new custom resource, up to the write of its status.\<close>

lemma storing_reconciles:
  assumes laws: "env_laws r view" and h: "healthy r view" and st: "storing (r_Client r) view"
    and free: "op_workers s req = None"
    and v: "view (op_world s) (KAutoMQ, req) = Some (ObjAutoMQ a)"
    and live: "om_DeletionTimestamp (mq_meta a) = None" and new: "st_Conditions (mq_Status a) = []"
  obtains ls s2 d where "op_run r ctx env s ls s2" and "Started req \<in> set ls"
    and "view (op_world s2) (KAutoMQ, req) = Some (ObjAutoMQ d)" and "mq_Spec d = mq_Spec a"
    and "\<forall>c \<in> set (st_Conditions (mq_Status d)). co_Status c = ConditionTrue"
    and "desired r ctx a (view (op_world s2))"
proof -
  note K = env_lawsD(1) [OF laws]
  have resp: "responsive (r_Client r) view" using h by (simp add: healthy_def)
  have req: "okey (ObjAutoMQ a) = (KAutoMQ, req)" by (rule view_lawD [OF kube_lawsD(1) [OF K] v])
  from storing_starts [OF K resp st v live] obtain b w0 where
    start: "startReconcile r req (op_world s) = (Inr b, w0)"
    and b: "mq_Spec b = mq_Spec a" "mq_Status b = mq_Status a"
    and vb: "view w0 (KAutoMQ, req) = Some (ObjAutoMQ b)" by blast
  have isb: "isFor req b" using startReconcile_key [OF K start] by (simp add: isFor_def)
  have same: "desired r ctx b x = desired r ctx a x" for x
    by (rule desired_same) (use isb req b in \<open>auto simp: isFor_def\<close>)
  let ?s1 = "s\<lparr>op_world := w0, op_tickers := req # op_tickers s,
      op_workers := (op_workers s)(req \<mapsto> (0, setAddresses b))\<rparr>"
  have 1: "op_run r ctx env s [Started req] ?s1" by (rule op_run_single [OF op_step.started [OF free start]])
  have w: "op_workers ?s1 req = Some (0, setAddresses b)" by simp
  have v1: "view (op_world ?s1) (KAutoMQ, req) = Some (ObjAutoMQ b)" using vb by simp
  from healthy_finishes [OF laws h w isb v1, of ctx env] obtain ls s2 c w1 n where
    2: "op_run r ctx env ?s1 (ls @ [Finished req None]) s2" and ran: "ranStages stageTypes n b c"
    and ok: "\<forall>t \<in> set stageTypes. conditionStatus c t = Some ConditionTrue"
    and vw: "view w1 (KAutoMQ, req) = Some (ObjAutoMQ b)" and isc: "isFor req c"
    and sy: "syncStatus (r_Client r) (recordReplicas c) w1 = (None, op_world s2)"
    and d2: "desired r ctx b (view (op_world s2))"
    by (elim exE conjE) (rule that, assumption+)
  have "okey (ObjAutoMQ (recordReplicas c)) = (KAutoMQ, req)" using isc by (simp add: isFor_def)
  with storing_syncStatus [OF K resp st _ sy, of b] vw obtain d where
    vd: "view (op_world s2) (KAutoMQ, req) = Some (ObjAutoMQ d)"
    and d: "mq_Status d = mq_Status (recordReplicas c)" "mq_Spec d = mq_Spec a" using b by auto
  have cond: "\<forall>c \<in> set (st_Conditions (mq_Status d)). co_Status c = ConditionTrue"
    using all_conditions_True [OF ran _ ok] new b d(1) by simp
  from op_run_append [OF 2 1] have "op_run r ctx env s ([Started req] @ ls @ [Finished req None]) s2" .
  then show thesis by (rule that) (use vd d(2) cond d2 same in simp_all)
qed

text \<open>
  C4: a cluster comes up. From any state of the operator in which a new custom resource is stored
  and not yet served, its reconciliation, the platform and one pass of its ticker lead to a
  state in which phase Ready and the number of pods are stored and the cluster is in the desired
  state, if no call fails and the platform runs the pods of a cluster in the desired state.
\<close>

theorem cluster_comes_up:
  assumes laws: "env_laws r view" and h: "healthy r view" and st: "storing (r_Client r) view"
    and wf: "op_wf s" and free: "op_workers s req = None"
    and v: "view (op_world s) (KAutoMQ, req) = Some (ObjAutoMQ a)"
    and live: "om_DeletionTimestamp (mq_meta a) = None" and new: "st_Conditions (mq_Status a) = []"
    and platform: "\<And>w. desired r ctx a (view w) \<Longrightarrow>
      \<exists>w'. env w w' \<and> view w' = view w \<and> podsRun (r_Client r) req a w'"
  shows "\<exists>ls s' b. op_run r ctx env s ls s' \<and> view (op_world s') (KAutoMQ, req) = Some (ObjAutoMQ b)
    \<and> st_Phase (mq_Status b) = AutoMQReady
    \<and> st_ReadyPods (mq_Status b) = cs_Replicas (controllerSpec a) + bs_Replicas (brokerSpec a)
    \<and> desired r ctx a (view (op_world s'))"
proof -
  note K = env_lawsD(1) [OF laws]
  have resp: "responsive (r_Client r) view" using h by (simp add: healthy_def)
  obtain ls s2 d where run2: "op_run r ctx env s ls s2" and started: "Started req \<in> set ls"
    and vd: "view (op_world s2) (KAutoMQ, req) = Some (ObjAutoMQ d)" and d: "mq_Spec d = mq_Spec a"
    and cond: "\<forall>c \<in> set (st_Conditions (mq_Status d)). co_Status c = ConditionTrue"
    and d2: "desired r ctx a (view (op_world s2))"
    by (rule storing_reconciles [OF laws h st free v live new])
  from platform [of "op_world s2"] d2 obtain w3 where
    env: "env (op_world s2) w3" and v3: "view w3 = view (op_world s2)"
    and pods: "podsRun (r_Client r) req a w3" by blast
  let ?s3 = "s2\<lparr>op_world := w3\<rparr>"
  have 3: "op_step r ctx env s2 Other ?s3" by (rule op_step.other [where s = s2 and env = env, OF env])
  have run: "op_run r ctx env s (ls @ [Other]) ?s3" by (rule op_run.step [OF run2 3])
  have "view (op_world ?s3) (KAutoMQ, req) = Some (ObjAutoMQ d)" using vd v3 by simp
  from first_read [OF K resp this] obtain w4 where
    g: "k_Get (r_Client r) req (ObjAutoMQ zero_automq) (op_world ?s3) = (None, ObjAutoMQ d, w4)" .
  from pods g obtain cps w5 bps w6 where lists:
    "k_ListPods (r_Client r) (fst req) (getAutoMQLabelMap (snd req) controllerRole) w4 = (Inr cps, w5)"
    "k_ListPods (r_Client r) (fst req) (getAutoMQLabelMap (snd req) brokerRole) w5 = (Inr bps, w6)"
    "readyCount cps = sint (cs_Replicas (controllerSpec d))"
    "readyCount bps = sint (bs_Replicas (brokerSpec d))" using d by (auto simp: podsRun_def)
  from cluster_becomes_ready [OF laws resp run _ g lists(1,2) cond lists(3,4)] started
  obtain s4 s5 e where 4: "op_step r ctx env ?s3 (TickRead req) s4"
    and 5: "op_step r ctx env s4 (TickWrite req None) s5"
    and e: "view (op_world s5) (KAutoMQ, req) = Some (ObjAutoMQ e)" "st_Phase (mq_Status e) = AutoMQReady"
      "st_ReadyPods (mq_Status e) = cs_Replicas (controllerSpec d) + bs_Replicas (brokerSpec d)" by auto
  have wf3: "op_wf ?s3" "op_wf s4"
    using op_run_wf [OF run laws wf] op_run_wf [OF op_run.step [OF run 4] laws wf] .
  have "untouched view (mq_Namespace a) w3 (op_world s4)"
    using op_step_untouched [OF 4 laws wf3(1)] by simp
  moreover have "untouched view (mq_Namespace a) (op_world s4) (op_world s5)"
    using op_step_untouched [OF 5 laws wf3(2)] by simp
  ultimately have "untouched view (mq_Namespace a) w3 (op_world s5)" by (rule untouched_trans)
  from desired_untouched [OF this, of r ctx] d2 v3
  have "desired r ctx a (view (op_world s5))" by simp
  moreover from op_run.step [OF op_run.step [OF run 4] 5] have "\<exists>ls. op_run r ctx env s ls s5" by blast
  ultimately show ?thesis using e d by auto
qed

text \<open>In the witness the platform runs one pod of each role.\<close>

lemma mem_storing: "storing (mem_kube allow) mem_view"
  by (auto simp: storing_def mem_update_def mem_status_update_def setFinalizers_def split: option.splits)

theorem cluster_comes_up_witness:
  "\<exists>ls s b. op_run (memOperator None allow) Map.empty
      (\<lambda>w w'. w' = w\<lparr>mem_pods := [samplePod controllerRole, samplePod brokerRole]\<rparr>)
      (startOn (cluster [ObjAutoMQ (sample ''mq'')])) ls s
    \<and> mem_view (op_world s) (KAutoMQ, ''prod'', ''mq'') = Some (ObjAutoMQ b)
    \<and> st_Phase (mq_Status b) = AutoMQReady \<and> st_ReadyPods (mq_Status b) = 2
    \<and> desired (memOperator None allow) Map.empty (sample ''mq'') (mem_view (op_world s))"
proof -
  let ?r = "memOperator None allow" and ?req = "(''prod'', ''mq'')" and ?a = "sample ''mq''"
  let ?up = "\<lambda>w. w\<lparr>mem_pods := [samplePod controllerRole, samplePod brokerRole]\<rparr>"
  let ?s = "startOn (cluster [ObjAutoMQ ?a])"
  have count: "readyCount [samplePod role] = 1" for role
    by (simp add: readyCount_def podReady_def samplePod_def ConditionTrue_def)
  have platform: "\<exists>w'. w' = ?up w \<and> mem_view w' = mem_view w \<and> podsRun (r_Client ?r) ?req ?a w'"
    for w :: mem
  proof -
    have "podsRun (r_Client ?r) ?req ?a (?up w)"
      by (simp add: podsRun_def mem_get_def count listed_pods split: option.split)
    moreover have "mem_view (?up w) = mem_view w" by (simp add: mem_view_def fun_eq_iff)
    ultimately show ?thesis by simp
  qed
  have "mem_view (op_world ?s) (KAutoMQ, ?req) = Some (ObjAutoMQ ?a)" by simp
  from cluster_comes_up [OF mem_env_laws mem_healthy _ _ _ this _ _ platform] show ?thesis
    by (simp add: mem_storing zero_status_def)
qed

end
