(* ===== verification/Settled.thy ===== *)
theory Settled
  imports Concurrent
begin

text \<open>
  The desired state key by key, relative to the node ports the brokers' services have: a form
  that each write of a stage keeps on its own, and the proof that each stage keeps it, whichever
  of its calls fail.
\<close>

section \<open>The desired objects, key by key\<close>

text \<open>\<open>ps\<close> gives the node port of the service of each broker, and what its pod is told.\<close>

definition hasPort :: "'w reconciler \<Rightarrow> ctx \<Rightarrow> AutoMQ \<Rightarrow> int32 \<Rightarrow> int32 \<Rightarrow> object \<Rightarrow> bool" where
  "hasPort r ctx a i n x \<longleftrightarrow> (case x of
     ObjService s \<Rightarrow> map sp_NodePort (svc_Ports s) = [n] \<and> n \<noteq> 0
   | ObjDeployment d \<Rightarrow> dep_Template d = brokerTemplate r ctx a i n (brokerName i) empty_template
   | _ \<Rightarrow> True)"

definition wanted ::
  "'w reconciler \<Rightarrow> ctx \<Rightarrow> AutoMQ \<Rightarrow> (int32 \<Rightarrow> int32) \<Rightarrow> okey \<Rightarrow> object \<Rightarrow> bool" where
  "wanted r ctx a ps k z \<longleftrightarrow>
     (k = (KConfigMap, mq_Namespace a, mq_Name a) \<longrightarrow>
        (\<exists>c. z = ObjConfigMap c \<and> cm_Data c = [''up.sh'' \<mapsto> r_UpSh r]))
     \<and> (k = (KService, mq_Namespace a, bootstrapName) \<longrightarrow>
        (\<exists>s p. z = ObjService s \<and> svc_Type s = ''NodePort'' \<and> svc_Ports s = [p] \<and> sp_Port p = 9092
           \<and> (spec_NodePort (mq_Spec a) \<noteq> 0 \<longrightarrow> sp_NodePort p = spec_NodePort (mq_Spec a))))
     \<and> (\<forall>i. k \<in> controllerKeys (mq_Namespace a) i \<longrightarrow> controllerGood r ctx a i z)
     \<and> (\<forall>i. k \<in> brokerKeys (mq_Namespace a) i \<longrightarrow> brokerGood r ctx a i z \<and> hasPort r ctx a i (ps i) z)"

definition wantedKeys :: "AutoMQ \<Rightarrow> okey set" where
  "wantedKeys a = {(KConfigMap, mq_Namespace a, mq_Name a), (KService, mq_Namespace a, bootstrapName)}
     \<union> {k. \<exists>j. 0 \<le> j \<and> j < sint (cs_Replicas (controllerSpec a))
              \<and> k \<in> controllerKeys (mq_Namespace a) (word_of_int j)}
     \<union> {k. \<exists>j. 0 \<le> j \<and> j < sint (bs_Replicas (brokerSpec a))
              \<and> k \<in> brokerKeys (mq_Namespace a) (word_of_int j)}"

definition keptAs :: "okey set \<Rightarrow> (okey \<Rightarrow> object \<Rightarrow> bool) \<Rightarrow> (okey \<Rightarrow> object option) \<Rightarrow> bool" where
  "keptAs S Q v \<longleftrightarrow> (\<forall>k \<in> S. \<exists>z. v k = Some z \<and> Q k z)"

definition settled ::
  "'w reconciler \<Rightarrow> ctx \<Rightarrow> AutoMQ \<Rightarrow> (int32 \<Rightarrow> int32) \<Rightarrow> (okey \<Rightarrow> object option) \<Rightarrow> bool" where
  "settled r ctx a ps v \<longleftrightarrow> keptAs (wantedKeys a) (wanted r ctx a ps) v"

lemma wanted_simps:
  "wanted r ctx a ps (KConfigMap, mq_Namespace a, mq_Name a) z \<longleftrightarrow>
     (\<exists>c. z = ObjConfigMap c \<and> cm_Data c = [''up.sh'' \<mapsto> r_UpSh r])"
  "wanted r ctx a ps (KService, mq_Namespace a, bootstrapName) z \<longleftrightarrow>
     (\<exists>s p. z = ObjService s \<and> svc_Type s = ''NodePort'' \<and> svc_Ports s = [p] \<and> sp_Port p = 9092
        \<and> (spec_NodePort (mq_Spec a) \<noteq> 0 \<longrightarrow> sp_NodePort p = spec_NodePort (mq_Spec a)))"
  "k \<in> controllerKeys (mq_Namespace a) i \<Longrightarrow> wanted r ctx a ps k z \<longleftrightarrow> controllerGood r ctx a i z"
  "k \<in> brokerKeys (mq_Namespace a) i \<Longrightarrow>
     wanted r ctx a ps k z \<longleftrightarrow> brokerGood r ctx a i z \<and> hasPort r ctx a i (ps i) z"
  by (auto simp: wanted_def controllerKeys_def brokerKeys_def)

text \<open>The services of the brokers have a node port, as the server gives every service of that type one.\<close>

definition allocated :: "AutoMQ \<Rightarrow> (okey \<Rightarrow> object option) \<Rightarrow> bool" where
  "allocated a v \<longleftrightarrow> (\<forall>j s. 0 \<le> j \<and> j < sint (bs_Replicas (brokerSpec a)) \<longrightarrow>
     v (KService, mq_Namespace a, brokerName (word_of_int j)) = Some (ObjService s) \<longrightarrow>
     (\<forall>p \<in> set (svc_Ports s). sp_NodePort p \<noteq> 0))"

lemma wantedKeys_eq:
  "keptAs (wantedKeys a) (wanted r ctx a ps) v \<longleftrightarrow> scriptStored r a v \<and> bootstrapStored a v
     \<and> (\<forall>j. 0 \<le> j \<and> j < sint (cs_Replicas (controllerSpec a)) \<longrightarrow>
          (\<forall>k \<in> controllerKeys (mq_Namespace a) (word_of_int j).
             \<exists>x. v k = Some x \<and> controllerGood r ctx a (word_of_int j) x))
     \<and> (\<forall>j. 0 \<le> j \<and> j < sint (bs_Replicas (brokerSpec a)) \<longrightarrow>
          (\<forall>k \<in> brokerKeys (mq_Namespace a) (word_of_int j).
             \<exists>x. v k = Some x \<and> brokerGood r ctx a (word_of_int j) x
               \<and> hasPort r ctx a (word_of_int j) (ps (word_of_int j)) x))"
  unfolding keptAs_def wantedKeys_def scriptStored_def bootstrapStored_def
  by (auto simp: wanted_simps ball_Un) (metis wanted_simps(3,4))+

definition storedPort :: "AutoMQ \<Rightarrow> (okey \<Rightarrow> object option) \<Rightarrow> int32 \<Rightarrow> int32" where
  "storedPort a v i = (case v (KService, mq_Namespace a, brokerName i) of
     Some (ObjService s) \<Rightarrow> (case svc_Ports s of p # ps \<Rightarrow> sp_NodePort p | [] \<Rightarrow> 0) | _ \<Rightarrow> 0)"

lemma broker_ports:
  assumes own: "\<And>k x. v k = Some x \<Longrightarrow> okey x = k"
    and good: "\<And>k. k \<in> brokerKeys (mq_Namespace a) i \<Longrightarrow> \<exists>x. v k = Some x \<and> brokerGood r ctx a i x"
    and k: "k \<in> brokerKeys (mq_Namespace a) i" "v k = Some x"
    and agrees: "portAgrees r ctx a i v"
    and alloc: "\<And>s p. v (KService, mq_Namespace a, brokerName i) = Some (ObjService s) \<Longrightarrow>
      p \<in> set (svc_Ports s) \<Longrightarrow> sp_NodePort p \<noteq> 0"
  shows "hasPort r ctx a i (storedPort a v i) x"
proof -
  let ?ks = "(KService, mq_Namespace a, brokerName i)" and ?kd = "(KDeployment, mq_Namespace a, brokerName i)"
  from agrees obtain s p ps d where s: "v ?ks = Some (ObjService s)" "svc_Ports s = p # ps"
    and d: "v ?kd = Some (ObjDeployment d)"
      "dep_Template d = brokerTemplate r ctx a i (sp_NodePort p) (brokerName i) empty_template"
    unfolding portAgrees_def by blast
  have "ps = []" using good [of ?ks] s by (auto simp: brokerKeys_def brokerGood_def brokerServiceGood_def)
  moreover have "storedPort a v i = sp_NodePort p" using s by (simp add: storedPort_def)
  moreover have "sp_NodePort p \<noteq> 0" using alloc [OF s(1)] s(2) by simp
  ultimately show ?thesis
    using k s d own [OF k(2)] by (cases x) (auto simp: hasPort_def brokerKeys_def)
qed

lemma ports_agree:
  assumes own: "\<And>k x. v k = Some x \<Longrightarrow> okey x = k"
    and good: "\<And>k. k \<in> brokerKeys (mq_Namespace a) i \<Longrightarrow>
      \<exists>x. v k = Some x \<and> brokerGood r ctx a i x \<and> hasPort r ctx a i n x"
  shows "portAgrees r ctx a i v"
    and "v (KService, mq_Namespace a, brokerName i) = Some (ObjService s) \<Longrightarrow>
      p \<in> set (svc_Ports s) \<Longrightarrow> sp_NodePort p \<noteq> 0"
proof -
  let ?ks = "(KService, mq_Namespace a, brokerName i)" and ?kd = "(KDeployment, mq_Namespace a, brokerName i)"
  have keys: "?ks \<in> brokerKeys (mq_Namespace a) i" "?kd \<in> brokerKeys (mq_Namespace a) i"
    by (simp_all add: brokerKeys_def)
  from good [OF keys(1)] obtain x where x: "v ?ks = Some x" "hasPort r ctx a i n x" by blast
  with okey_kindE(1) [of x] own [OF x(1)] obtain s where s: "v ?ks = Some (ObjService s)"
    "map sp_NodePort (svc_Ports s) = [n]" "n \<noteq> 0" by (auto simp: hasPort_def)
  then show "v ?ks = Some (ObjService s') \<Longrightarrow> p \<in> set (svc_Ports s') \<Longrightarrow> sp_NodePort p \<noteq> 0" for s' p
    by auto
  from good [OF keys(2)] obtain y where y: "v ?kd = Some y" "hasPort r ctx a i n y" by blast
  with okey_kindE(2) [of y] own [OF y(1)] obtain d where "v ?kd = Some (ObjDeployment d)"
    "dep_Template d = brokerTemplate r ctx a i n (brokerName i) empty_template" by (auto simp: hasPort_def)
  with s show "portAgrees r ctx a i v" by (auto simp: portAgrees_def)
qed

text \<open>
  The desired state, with a node port for each broker, is the settled state for some assignment
  of ports: that of the stored services.
\<close>

lemma desired_settled:
  assumes own: "\<And>k x. v k = Some x \<Longrightarrow> okey x = k" and "desired r ctx a v" and "allocated a v"
  shows "settled r ctx a (storedPort a v) v"
proof -
  have "\<exists>x. v k = Some x \<and> brokerGood r ctx a (word_of_int j) x
      \<and> hasPort r ctx a (word_of_int j) (storedPort a v (word_of_int j)) x"
    if j: "0 \<le> j" "j < sint (bs_Replicas (brokerSpec a))"
      and k: "k \<in> brokerKeys (mq_Namespace a) (word_of_int j)" for j k
  proof -
    have good: "\<exists>x. v k = Some x \<and> brokerGood r ctx a (word_of_int j) x"
      if "k \<in> brokerKeys (mq_Namespace a) (word_of_int j)" for k
      using assms(2) j that unfolding desired_def by blast
    have agrees: "portAgrees r ctx a (word_of_int j) v" using assms(2) j unfolding desired_def by blast
    have alloc: "sp_NodePort p \<noteq> 0" if "p \<in> set (svc_Ports s)"
      "v (KService, mq_Namespace a, brokerName (word_of_int j)) = Some (ObjService s)" for s p
      using assms(3) j that unfolding allocated_def by blast
    from good [OF k] obtain x where x: "v k = Some x" "brokerGood r ctx a (word_of_int j) x" by blast
    have "hasPort r ctx a (word_of_int j) (storedPort a v (word_of_int j)) x"
      by (rule broker_ports [where v = v]) (erule own, erule good, rule k, rule x, rule agrees, rule alloc)
    with x show ?thesis by blast
  qed
  with assms(2) show ?thesis unfolding settled_def wantedKeys_eq desired_def by blast
qed

lemma settled_desired:
  assumes own: "\<And>k x. v k = Some x \<Longrightarrow> okey x = k" and s: "settled r ctx a ps v"
  shows "desired r ctx a v" and "allocated a v"
proof -
  have b: "\<exists>x. v k = Some x \<and> brokerGood r ctx a (word_of_int j) x
      \<and> hasPort r ctx a (word_of_int j) (ps (word_of_int j)) x"
    if "0 \<le> j" "j < sint (bs_Replicas (brokerSpec a))"
      "k \<in> brokerKeys (mq_Namespace a) (word_of_int j)" for j k
    using s that unfolding settled_def wantedKeys_eq by blast
  have "portAgrees r ctx a (word_of_int j) v" if "0 \<le> j" "j < sint (bs_Replicas (brokerSpec a))" for j
    by (rule ports_agree(1) [where v = v]) (erule own, erule b [OF that])
  with s show "desired r ctx a v" unfolding settled_def wantedKeys_eq desired_def by blast
  have "sp_NodePort p \<noteq> 0" if "0 \<le> j" "j < sint (bs_Replicas (brokerSpec a))"
    "v (KService, mq_Namespace a, brokerName (word_of_int j)) = Some (ObjService t)"
    "p \<in> set (svc_Ports t)" for j t p
    by (rule ports_agree(2) [where v = v]) (erule own, erule b [OF that(1,2)], rule that, rule that)
  then show "allocated a v" unfolding allocated_def by blast
qed

lemma hasPort_same:
  assumes e: "mq_Name b = mq_Name a" "mq_Namespace b = mq_Namespace a" "mq_Spec b = mq_Spec a"
  shows "hasPort r ctx b i n x = hasPort r ctx a i n x"
  by (cases x) (simp_all add: hasPort_def same_template [OF e])

lemma hasPort_PVC: "fst (okey x) = KPVC \<Longrightarrow> hasPort r ctx a i n x"
  by (cases x) (simp_all add: hasPort_def)

lemma settled_same:
  assumes e: "mq_Name b = mq_Name a" "mq_Namespace b = mq_Namespace a" "mq_Spec b = mq_Spec a"
  shows "settled r ctx b ps v = settled r ctx a ps v"
  by (simp add: settled_def keptAs_def wantedKeys_def wanted_def same_spec [OF e] hasPort_same [OF e] e)

lemma settled_frame:
  assumes "\<And>k. k \<in> wantedKeys a \<Longrightarrow> v' k = v k"
  shows "settled r ctx a ps v' = settled r ctx a ps v"
  unfolding settled_def keptAs_def by (rule ball_cong) (simp_all add: assms)

lemma wantedKeysD:
  assumes "k \<in> wantedKeys a"
  shows "fst k \<noteq> KAutoMQ" and "fst (snd k) = mq_Namespace a"
  using assms by (auto simp: wantedKeys_def controllerKeys_def brokerKeys_def)

section \<open>What the writes leave\<close>

text \<open>
  \<open>CreateOrUpdate\<close> of an object that is stored leaves it as it is or replaces it by what the
  server makes of a mutated object of that name; it does not remove it. Where a service is
  replaced by one that asks for no node port, the server gives a port the number that the port
  of that name had.
\<close>

definition portsKept :: "object \<Rightarrow> object \<Rightarrow> object \<Rightarrow> bool" where
  "portsKept sent old x \<longleftrightarrow> (case (sent, old, x) of
     (ObjService s, ObjService b, ObjService t) \<Rightarrow>
       svc_Type s = ''NodePort'' \<longrightarrow> svc_Type b = ''NodePort'' \<longrightarrow> distinct (map sp_Name (svc_Ports b)) \<longrightarrow>
       (\<forall>p \<in> set (svc_Ports s). sp_NodePort p = 0) \<longrightarrow>
       (\<forall>p \<in> set (svc_Ports b). \<forall>q \<in> set (svc_Ports t).
          sp_Name q = sp_Name p \<longrightarrow> sp_NodePort p \<noteq> 0 \<longrightarrow> sp_NodePort q = sp_NodePort p)
   | _ \<Rightarrow> True)"

definition cou_writes :: "'w kube \<Rightarrow> 'w view \<Rightarrow> bool" where
  "cou_writes K view \<longleftrightarrow> (\<forall>x f w e y w' b. k_CreateOrUpdate K x f w = (e, y, w') \<longrightarrow>
     (\<forall>b. okey (f b) = okey b) \<longrightarrow> view w (okey x) = Some b \<longrightarrow>
     (\<exists>z. view w' (okey x) = Some z
        \<and> (z = b \<or> (\<exists>b'. okey b' = okey x \<and> admitted (f b') z \<and> portsKept (f b') b z))))"

text \<open>
  An update of a live custom resource that sends the specification that is stored leaves it
  stored, live and with that specification, whether it succeeds or fails.
\<close>

definition liveWith :: "'w view \<Rightarrow> nsname \<Rightarrow> AutoMQSpec \<Rightarrow> 'w \<Rightarrow> bool" where
  "liveWith view req sp w \<longleftrightarrow> (\<exists>b. view w (KAutoMQ, req) = Some (ObjAutoMQ b)
     \<and> mq_Spec b = sp \<and> om_DeletionTimestamp (mq_meta b) = None)"

definition update_keeps :: "'w kube \<Rightarrow> 'w view \<Rightarrow> bool" where
  "update_keeps K view \<longleftrightarrow> (\<forall>a w e y w'.
     k_Update K (ObjAutoMQ a) w = (e, y, w') \<or> k_StatusUpdate K (ObjAutoMQ a) w = (e, y, w') \<longrightarrow>
     om_DeletionTimestamp (mq_meta a) = None \<longrightarrow>
     liveWith view (mq_Namespace a, mq_Name a) (mq_Spec a) w \<longrightarrow>
     liveWith view (mq_Namespace a, mq_Name a) (mq_Spec a) w')"

definition write_laws :: "'w kube \<Rightarrow> 'w view \<Rightarrow> bool" where
  "write_laws K view \<longleftrightarrow> cou_writes K view \<and> update_keeps K view"

text \<open>A set of objects that are as wanted stays so if the mutation makes its object as wanted.\<close>

lemma cou_kept:
  assumes laws: "kube_laws K view" and cw: "cou_writes K view"
    and call: "k_CreateOrUpdate K x f w = (e, y, w')" and key: "\<And>b. okey (f b) = okey b"
    and good: "\<And>b old z. okey b = okey x \<Longrightarrow> admitted (f b) z \<Longrightarrow> portsKept (f b) old z \<Longrightarrow>
      okey old = okey x \<Longrightarrow> Q (okey x) old \<Longrightarrow> Q (okey x) z"
    and kept: "keptAs S Q (view w)"
  shows "okey y = okey x" and "keptAs S Q (view w')"
proof -
  note facts = kube_lawsD(6) [OF laws, unfolded cou_law_def, rule_format, OF call key]
  have "okey b = okey x" if "cou_base view x w b" for b
    using that view_lawD [OF kube_lawsD(1) [OF laws], of w "okey x" b] unfolding cou_base_def by auto
  with facts key admitted_okey show "okey y = okey x" by metis
  show "keptAs S Q (view w')"
    unfolding keptAs_def
  proof
    fix k assume "k \<in> S"
    with kept obtain b where b: "view w k = Some b" "Q k b" unfolding keptAs_def by blast
    show "\<exists>z. view w' k = Some z \<and> Q k z"
    proof (cases "k = okey x")
      case True
      with b obtain z where "view w' (okey x) = Some z"
        "z = b \<or> (\<exists>b'. okey b' = okey x \<and> admitted (f b') z \<and> portsKept (f b') b z)"
        using cw [unfolded cou_writes_def, rule_format, OF call key] by blast
      with True b good view_lawD [OF kube_lawsD(1) [OF laws] b(1)] show ?thesis by blast
    next
      case False
      then have "view w' k = view w k" using facts by blast
      with b show ?thesis by simp
    qed
  qed
qed

lemma retry_cou_kept:
  assumes laws: "kube_laws K view" and cw: "cou_writes K view" and key: "\<And>b. okey (f b) = okey b"
    and good: "\<And>b old z. okey b = okey x \<Longrightarrow> admitted (f b) z \<Longrightarrow> portsKept (f b) old z \<Longrightarrow>
      okey old = okey x \<Longrightarrow> Q (okey x) old \<Longrightarrow> Q (okey x) z"
    and kept: "keptAs S Q (view w)"
  shows "keptAs S Q (view (snd (snd (retry_create_or_update K f x w))))"
    and "keptAs S Q (view (snd (snd (retry_fresh_create_or_update K f x w))))"
proof -
  note run = retry_law_run [OF laws]
  let ?I = "\<lambda>(y, w). okey y = okey x \<and> keptAs S Q (view w)"
  have "?I (snd (retry_create_or_update K f x w))"
    unfolding retry_create_or_update_def
  proof (rule retry_run_inv [where I = ?I, OF run])
    show "?I (x, w)" using kept by simp
    fix s e s' assume I: "?I s" and c: "(\<lambda>(x, w). k_CreateOrUpdate K x f w) s = (e, s')"
    obtain y1 w1 y2 w2 where s: "s = (y1, w1)" "s' = (y2, w2)" by (cases s; cases s')
    with I c have "okey y1 = okey x" "keptAs S Q (view w1)" "k_CreateOrUpdate K y1 f w1 = (e, y2, w2)"
      by simp_all
    with cou_kept [where Q = Q and S = S, OF laws cw this(3) key] good show "?I s'" by (simp add: s)
  qed
  then show "keptAs S Q (view (snd (snd (retry_create_or_update K f x w))))"
    by (simp add: case_prod_beta)
  have "(\<lambda>s. keptAs S Q (view (snd s))) (snd (retry_fresh_create_or_update K f x w))"
    unfolding retry_fresh_create_or_update_def
  proof (rule retry_run_inv [where I = "\<lambda>s. keptAs S Q (view (snd s))", OF run])
    show "keptAs S Q (view (snd (x, w)))" using kept by simp
    fix s e s' assume "keptAs S Q (view (snd s))" and "(\<lambda>(_, w). k_CreateOrUpdate K x f w) s = (e, s')"
    then show "keptAs S Q (view (snd s'))"
      using cou_kept(2) [where Q = Q and S = S, OF laws cw _ key good, of "snd s" e "fst s'" "snd s'"]
      by (cases s; cases s') simp
  qed
  then show "keptAs S Q (view (snd (snd (retry_fresh_create_or_update K f x w))))" .
qed

section \<open>The stages\<close>

text \<open>Whatever a stage returns, it keeps the objects wanted.\<close>

definition keepsSettled ::
  "'w view \<Rightarrow> 'w reconciler \<Rightarrow> ctx \<Rightarrow> AutoMQ \<Rightarrow> (int32 \<Rightarrow> int32) \<Rightarrow> 'w \<Rightarrow> 'w \<Rightarrow> bool" where
  "keepsSettled view r ctx a ps w w' \<longleftrightarrow> (settled r ctx a ps (view w) \<longrightarrow> settled r ctx a ps (view w'))"

lemma keepsSettled_refl [simp]: "keepsSettled view r ctx a ps w w"
  by (simp add: keepsSettled_def)

lemma keepsSettled_trans [trans]:
  "keepsSettled view r ctx a ps w w1 \<Longrightarrow> keepsSettled view r ctx a ps w1 w2 \<Longrightarrow>
    keepsSettled view r ctx a ps w w2"
  by (simp add: keepsSettled_def)

lemma keepsSettled_frame:
  "(\<And>k. k \<in> wantedKeys a \<Longrightarrow> view w' k = view w k) \<Longrightarrow> keepsSettled view r ctx a ps w w'"
  unfolding keepsSettled_def using settled_frame [of a "view w'" "view w"] by blast

lemma cou_keepsSettled:
  assumes laws: "kube_laws (r_Client r) view" and writes: "write_laws (r_Client r) view"
    and key: "\<And>b. okey (f b) = okey b"
    and good: "\<And>b old z. okey b = okey x \<Longrightarrow> admitted (f b) z \<Longrightarrow> portsKept (f b) old z \<Longrightarrow>
      okey old = okey x \<Longrightarrow> wanted r ctx a ps (okey x) old \<Longrightarrow> wanted r ctx a ps (okey x) z"
  shows "keepsSettled view r ctx a ps w (snd (snd (retry_create_or_update (r_Client r) f x w)))"
    and "keepsSettled view r ctx a ps w (snd (snd (retry_fresh_create_or_update (r_Client r) f x w)))"
proof -
  from writes have cw: "cou_writes (r_Client r) view" by (simp add: write_laws_def)
  show "keepsSettled view r ctx a ps w (snd (snd (retry_create_or_update (r_Client r) f x w)))"
    unfolding keepsSettled_def settled_def
    by (intro impI, rule retry_cou_kept(1) [OF laws cw key]) (rule good, assumption+)
  show "keepsSettled view r ctx a ps w (snd (snd (retry_fresh_create_or_update (r_Client r) f x w)))"
    unfolding keepsSettled_def settled_def
    by (intro impI, rule retry_cou_kept(2) [OF laws cw key]) (rule good, assumption+)
qed

lemma scriptConfigmap_settled:
  assumes "kube_laws (r_Client r) view" and "write_laws (r_Client r) view"
  shows "keepsSettled view r ctx a ps w (snd (scriptConfigmap r ctx a w))"
proof -
  let ?x = "ObjConfigMap (new_configmap (mq_Namespace a) (mq_Name a))"
  let ?f = "on_configmap (scriptConfigmap_mutate (r_UpSh r))"
  have key: "okey (?f x) = okey x" for x
    by (cases x) (simp_all add: on_configmap_def scriptConfigmap_mutate_def)
  have x: "okey ?x = (KConfigMap, mq_Namespace a, mq_Name a)"
    by (simp add: new_configmap_def empty_meta_def)
  have "wanted r ctx a ps (okey ?x) z" if "okey b = okey ?x" "admitted (?f b) z" for b z
    using scriptConfigmap_made [OF that(1) [unfolded x] that(2)] unfolding x wanted_simps .
  from cou_keepsSettled(2) [where w = w and ctx = ctx and a = a and x = ?x, OF assms key this]
  show ?thesis
    by (simp add: scriptConfigmap_def Let_def case_prod_beta split: sum.splits option.splits)
qed

lemma bootstrap_settled:
  assumes "kube_laws (r_Client r) view" and "write_laws (r_Client r) view"
  shows "keepsSettled view r ctx a ps w (snd (syncKafkaBootstrapService r ctx a w))"
proof -
  let ?x = "ObjService ((new_service (mq_Namespace a) bootstrapName)
      \<lparr>svc_Selector := getAutoMQLabelMap (mq_Name a) brokerRole\<rparr>)"
  have x: "okey ?x = (KService, mq_Namespace a, bootstrapName)" by simp
  have "wanted r ctx a ps (okey ?x) z"
    if "okey b = okey ?x" "admitted (on_service (bootstrapService_mutate a) b) z" for b z
    using bootstrapService_made [OF that(1) [unfolded x] that(2)] unfolding x wanted_simps .
  from cou_keepsSettled(1) [where w = w and ctx = ctx and a = a and x = ?x,
      OF assms broker_mutate_okey(4) this]
  show ?thesis
    by (simp add: syncKafkaBootstrapService_def Let_def case_prod_beta bootstrapName_def
        split: option.splits)
qed

text \<open>The scale-down stages delete what belongs to replicas beyond the specified count.\<close>

lemma surplus_index:
  assumes "0 \<le> j" "j < sint (n :: int32)" "sint n \<le> i" "i < sint (m :: int32)"
  shows "(word_of_int j :: int32) \<noteq> word_of_int i"
  using assms sint_int32_bounds [of n] sint_int32_bounds [of m] by (subst int32_index_inject) auto

lemma controllerScale_settled:
  assumes "kube_laws (r_Client r) view"
  shows "keepsSettled view r ctx a ps w (snd (syncControllersScale r ctx a w))"
proof (rule keepsSettled_frame)
  fix k assume k: "k \<in> wantedKeys a"
  have "k \<notin> controllerKeys (mq_Namespace a) (word_of_int i)"
    if "sint (cs_Replicas (controllerSpec a)) \<le> i" "i < sint (st_ControllerReplicas (mq_Status a))" for i
    using k surplus_index [OF _ _ that]
    by (auto simp: wantedKeys_def controllerKeys_def brokerKeys_def)
  with controller_scale.loop_other [OF kube_lawsD(4) [OF assms]]
  show "view (snd (syncControllersScale r ctx a w)) k = view w k"
    by (simp add: syncControllersScale_def Let_def for_int32_for_int controllerObjects_keys)
qed

lemma brokerScale_settled:
  assumes "kube_laws (r_Client r) view"
  shows "keepsSettled view r ctx a ps w (snd (syncBrokerScale r ctx a w))"
proof (rule keepsSettled_frame)
  fix k assume k: "k \<in> wantedKeys a"
  have "k \<notin> okey ` set (brokerScaleObjects (mq_Namespace a) (word_of_int i))"
    if "sint (bs_Replicas (brokerSpec a)) \<le> i" "i < sint (st_BrokerReplicas (mq_Status a))" for i
    using k surplus_index [OF _ _ that]
    by (auto simp: wantedKeys_def controllerKeys_def brokerKeys_def brokerScaleObjects_def empty_meta_def)
  with broker_scale.loop_other [OF kube_lawsD(4) [OF assms]]
  show "view (snd (syncBrokerScale r ctx a w)) k = view w k"
    by (simp add: syncBrokerScale_def Let_def for_int32_for_int)
qed

text \<open>The synchronisation stages write objects of the replicas asked for.\<close>

lemma controllers_body_settled:
  assumes "kube_laws (r_Client r) view" and "write_laws (r_Client r) view"
  shows "keepsSettled view r ctx a ps w (snd (syncControllers_body r ctx a i w))"
proof -
  have key: "(KPVC, mq_Namespace a, controllerName i) \<in> controllerKeys (mq_Namespace a) i"
    "(KDeployment, mq_Namespace a, controllerName i) \<in> controllerKeys (mq_Namespace a) i"
    "(KService, mq_Namespace a, controllerName i) \<in> controllerKeys (mq_Namespace a) i"
    by (simp_all add: controllerKeys_def)
  note cou = cou_keepsSettled(1) [OF assms]
  have 1: "keepsSettled view r ctx a ps w (snd (syncControllerPVC r a i w))" for w
    unfolding syncControllerPVC_def Let_def case_prod_beta snd_conv
    by (rule cou) (auto simp: key [THEN wanted_simps(3)] dest: controllerPVC_made)
  have 2: "keepsSettled view r ctx a ps w (snd (syncControllerDeploy r ctx a i w))" for w
    unfolding syncControllerDeploy_def Let_def case_prod_beta snd_conv
    by (rule cou) (auto simp: key [THEN wanted_simps(3)] dest: controllerDeploy_made)
  have 3: "keepsSettled view r ctx a ps w (snd (syncControllerService r a i w))" for w
    unfolding syncControllerService_def Let_def case_prod_beta snd_conv
    by (rule cou) (auto simp: key [THEN wanted_simps(3)] dest: controllerService_made)
  obtain e1 w1 where c1: "syncControllerPVC r a i w = (e1, w1)" by fastforce
  obtain e2 w2 where c2: "syncControllerDeploy r ctx a i w1 = (e2, w2)" by fastforce
  obtain e3 w3 where c3: "syncControllerService r a i w2 = (e3, w3)" by fastforce
  from 1 [of w] 2 [of w1] 3 [of w2] show ?thesis
    by (auto simp: syncControllers_body_def c1 c2 c3 keepsSettled_def split: option.splits)
qed

text \<open>A broker's service keeps its port, and the deployment is told that port.\<close>

lemma brokerPVC_kept:
  assumes "okey b = (KPVC, ns, name)" and "admitted (on_pvc (brokerPVC_mutate a i) b) z"
  shows "brokerGood r ctx a i z \<and> hasPort r ctx a i n z"
proof -
  have "fst (okey z) = KPVC" using admitted_okey [OF assms(2)] assms(1) by simp
  with brokerPVC_made [OF assms] hasPort_PVC show ?thesis by blast
qed

lemma brokerService_kept:
  assumes "okey b = (KService, mq_Namespace a, brokerName i)"
    and "admitted (on_service (brokerService_mutate a i) b) z"
    and kept: "portsKept (on_service (brokerService_mutate a i) b) old z"
    and old: "okey old = (KService, mq_Namespace a, brokerName i)" "brokerGood r ctx a i old"
      "hasPort r ctx a i n old"
  shows "brokerGood r ctx a i z \<and> hasPort r ctx a i n z"
proof -
  from brokerService_made [OF assms(1,2)] obtain t where t: "z = ObjService t" "brokerServiceGood a i t"
    by blast
  from assms(1) okey_kindE(1) [of b] obtain s where s: "b = ObjService s" by auto
  from old okey_kindE(1) [of old] obtain u where u: "old = ObjService u" by auto
  with old(2,3) obtain p where p: "svc_Type u = ''NodePort''" "svc_Ports u = [p]" "sp_Name p = brokerRole"
    "sp_NodePort p = n" "n \<noteq> 0" by (auto simp: brokerGood_def brokerServiceGood_def hasPort_def)
  from t(2) obtain q where q: "svc_Ports t = [q]" "sp_Name q = brokerRole"
    by (auto simp: brokerServiceGood_def)
  from kept p q have "sp_NodePort q = n"
    by (simp add: t(1) s u portsKept_def brokerService_mutate_def)
  with t p(5) q show ?thesis by (simp add: brokerGood_def hasPort_def)
qed

lemma syncBrokerDeploy_settled:
  assumes laws: "kube_laws (r_Client r) view" and writes: "write_laws (r_Client r) view"
  shows "keepsSettled view r ctx a ps w (snd (syncBrokerDeploy r ctx a i w))"
proof (cases "(KDeployment, mq_Namespace a, brokerName i) \<in> wantedKeys a")
  case False
  then show ?thesis by (intro keepsSettled_frame syncBrokerDeploy_frame [OF laws]) auto
next
  case True
  show ?thesis
    unfolding keepsSettled_def
  proof
    assume S: "settled r ctx a ps (view w)"
    let ?svc = "ObjService (new_service (mq_Namespace a) (brokerName i))"
    let ?key = "(KService, mq_Namespace a, brokerName i)"
    obtain e x w1 where g: "k_Get (r_Client r) (ObjectKeyFromObject ?svc) ?svc w = (e, x, w1)"
      by (metis prod_cases3)
    with kube_lawsD(2) [OF laws] have v: "view w1 = view w" by (rule get_law_view)
    show "settled r ctx a ps (view (snd (syncBrokerDeploy r ctx a i w)))"
    proof (cases e)
      case (Some err)
      with S v show ?thesis by (simp add: syncBrokerDeploy_def Let_def g)
    next
      case None
      from get_law_found [OF kube_lawsD(2) [OF laws] g [unfolded None]]
      have x: "view w ?key = Some x" by (simp add: ObjectKeyFromObject_def)
      with view_lawD [OF kube_lawsD(1) [OF laws] x] okey_kindE(1) [of x]
      obtain s where s: "x = ObjService s" by auto
      have key: "?key \<in> brokerKeys (mq_Namespace a) i" "?key \<in> wantedKeys a"
        using True by (auto simp: wantedKeys_def brokerKeys_def controllerKeys_def)
      with S x have "hasPort r ctx a i (ps i) x"
        unfolding settled_def keptAs_def by (auto simp: wanted_simps(4) [OF key(1)])
      then obtain p where p: "svc_Ports s = [p]" "sp_NodePort p = ps i"
        by (auto simp: hasPort_def s)
      let ?d = "ObjDeployment ((new_deployment (mq_Namespace a) (brokerName i))
          \<lparr>dep_Selector := Some (brokerIndexLabels a i)\<rparr>)"
      have key': "(KDeployment, mq_Namespace a, brokerName i) \<in> brokerKeys (mq_Namespace a) i"
        by (simp add: brokerKeys_def)
      have "keepsSettled view r ctx a ps w1 (snd (snd (retry_create_or_update (r_Client r)
          (on_deployment (brokerDeploy_mutate r ctx a i (ps i))) ?d w1)))"
        by (rule cou_keepsSettled(1) [OF laws writes])
          (auto simp: key' [THEN wanted_simps(4)] brokerGood_def hasPort_def dest!: brokerDeploy_made)
      with S v p s show ?thesis
        by (simp add: syncBrokerDeploy_def Let_def g None filled_service_def case_prod_beta
            keepsSettled_def)
    qed
  qed
qed

lemma brokers_body_settled:
  assumes "kube_laws (r_Client r) view" and "write_laws (r_Client r) view"
  shows "keepsSettled view r ctx a ps w (snd (syncBrokers_body r ctx a i w))"
proof -
  have key: "(KPVC, mq_Namespace a, brokerName i) \<in> brokerKeys (mq_Namespace a) i"
    "(KService, mq_Namespace a, brokerName i) \<in> brokerKeys (mq_Namespace a) i"
    by (simp_all add: brokerKeys_def)
  note cou = cou_keepsSettled(1) [OF assms]
  have 1: "keepsSettled view r ctx a ps w (snd (syncBrokerPVC r a i w))" for w
    unfolding syncBrokerPVC_def Let_def case_prod_beta snd_conv
    by (rule cou) (simp_all add: key [THEN wanted_simps(4)] brokerPVC_kept)
  have 2: "keepsSettled view r ctx a ps w (snd (syncBrokerService r a i w))" for w
    unfolding syncBrokerService_def Let_def case_prod_beta snd_conv
  proof (rule cou)
    let ?x = "ObjService ((new_service (mq_Namespace a) (brokerName i))\<lparr>svc_Selector := brokerIndexLabels a i\<rparr>)"
    have x: "okey ?x = (KService, mq_Namespace a, brokerName i)" by simp
    show "wanted r ctx a ps (okey ?x) z"
      if "okey b = okey ?x" "admitted (on_service (brokerService_mutate a i) b) z"
        "portsKept (on_service (brokerService_mutate a i) b) old z"
        "okey old = okey ?x" "wanted r ctx a ps (okey ?x) old" for b old z
      using brokerService_kept [OF that(1) [unfolded x] that(2-3) that(4) [unfolded x]] that(5)
      unfolding x key(2) [THEN wanted_simps(4)] by blast
  qed simp
  obtain e1 w1 where c1: "syncBrokerPVC r a i w = (e1, w1)" by fastforce
  obtain e2 w2 where c2: "syncBrokerService r a i w1 = (e2, w2)" by fastforce
  obtain e3 w3 where c3: "syncBrokerDeploy r ctx a i w2 = (e3, w3)" by fastforce
  from 1 [of w] 2 [of w1] syncBrokerDeploy_settled [OF assms, of ctx a ps w2 i] show ?thesis
    by (cases e3) (auto simp: syncBrokers_body_def c1 c2 c3 keepsSettled_def split: option.splits)
qed

lemma keepsSettled_loop:
  assumes "\<And>i w. keepsSettled view r ctx a ps w (snd (body i w))"
  shows "keepsSettled view r ctx a ps w (snd (for_ret lo hi body w))"
  unfolding keepsSettled_def
  by (rule impI, rule for_ret_inv) (use assms in \<open>auto simp: keepsSettled_def\<close>)

lemma controllers_settled:
  assumes "kube_laws (r_Client r) view" and "write_laws (r_Client r) view"
  shows "keepsSettled view r ctx a ps w (snd (syncControllers r ctx a w))"
proof -
  have "snd (syncControllers r ctx a w) =
      snd (for_ret 0 (sint (cs_Replicas (controllerSpec a)))
        (\<lambda>i. syncControllers_body r ctx a (word_of_int i)) w)"
    unfolding syncControllers_def by (rule go_bind_sync_snd) (auto split: option.splits)
  then show ?thesis
    by (simp add: keepsSettled_loop controllers_body_settled [OF assms])
qed

lemma brokers_settled:
  assumes "kube_laws (r_Client r) view" and "write_laws (r_Client r) view"
  shows "keepsSettled view r ctx a ps w (snd (syncBrokers r ctx a w))"
proof -
  have "snd (syncBrokers r ctx a w) =
      snd (for_ret 0 (sint (bs_Replicas (brokerSpec a)))
        (\<lambda>i. syncBrokers_body r ctx a (word_of_int i)) w)"
    unfolding syncBrokers_def by (rule go_bind_sync_snd) (auto split: option.splits)
  then show ?thesis
    by (simp add: keepsSettled_loop brokers_body_settled [OF assms])
qed

lemma stage_settled:
  assumes laws: "env_laws r view" and writes: "write_laws (r_Client r) view" and n: "n < 7"
    and run: "(pipelines r ctx ! n) c w = (res, w')"
    and c: "mq_Name c = mq_Name a" "mq_Namespace c = mq_Namespace a" "mq_Spec c = mq_Spec a"
  shows "keepsSettled view r ctx a ps w w'"
proof -
  note K = env_lawsD(1) [OF laws]
  have "keepsSettled view r ctx c ps w (snd (s3Service r ctx c w))"
    by (rule keepsSettled_frame) (simp add: s3Service_view [OF env_lawsD(2) [OF laws]])
  then have "list_all (\<lambda>f. keepsSettled view r ctx c ps w (snd (f c w))) (pipelines r ctx)"
    by (simp add: pipelines_def scriptConfigmap_settled [OF K writes] controllerScale_settled [OF K]
        controllers_settled [OF K writes] brokerScale_settled [OF K] brokers_settled [OF K writes]
        bootstrap_settled [OF K writes])
  with n have "keepsSettled view r ctx c ps w (snd ((pipelines r ctx ! n) c w))"
    by (simp add: list_all_length)
  with run show ?thesis by (simp add: keepsSettled_def settled_same [OF c])
qed

end
