(* ===== verification/Stability.thy ===== *)
theory Stability
  imports Settled
begin

text \<open>
  The other half of convergence: once a cluster is in the desired state, no step of the operator
  takes an object away or makes it deviate, whichever calls fail. \<open>Settled\<close> shows it of the
  stages; here are the custom resource, the steps of the operator and its runs.
\<close>

section \<open>The custom resource stays live\<close>

lemma write_live:
  assumes "write_laws K view"
    and "k_Update K (ObjAutoMQ a) w = (e, y, w') \<or> k_StatusUpdate K (ObjAutoMQ a) w = (e, y, w')"
    and "om_DeletionTimestamp (mq_meta a) = None" and "(mq_Namespace a, mq_Name a) = req"
    and "mq_Spec a = sp" and "liveWith view req sp w"
  shows "liveWith view req sp w'"
  using assms unfolding write_laws_def update_keeps_def by blast

lemma retryUpdate_live:
  assumes laws: "kube_laws K view" and writes: "write_laws K view"
    and a: "(mq_Namespace a, mq_Name a) = req" "om_DeletionTimestamp (mq_meta a) = None"
    and live: "liveWith view req (mq_Spec a) w" and run: "retryUpdate K a w = (e, b, w')"
  shows "liveWith view req (mq_Spec a) w'" and "mq_Spec b = mq_Spec a"
proof -
  let ?I = "\<lambda>s. \<exists>b. fst s = ObjAutoMQ b \<and> (mq_Namespace b, mq_Name b) = req \<and> mq_Spec b = mq_Spec a
    \<and> om_DeletionTimestamp (mq_meta b) = None \<and> liveWith view req (mq_Spec a) (snd s)"
  from run obtain x where u: "k_RetryOnConflict K (\<lambda>(x, w). k_Update K x w) (ObjAutoMQ a, w) = (e, x, w')"
    and b: "b = filled_automq a x" by (auto simp: retryUpdate_def Let_def split: prod.splits)
  have "?I (snd (k_RetryOnConflict K (\<lambda>(x, w). k_Update K x w) (ObjAutoMQ a, w)))"
  proof (rule retry_run_inv [where I = ?I, OF retry_law_run [OF laws]])
    show "?I (ObjAutoMQ a, w)" using a live by simp
    fix s e s' assume I: "?I s" and c: "(\<lambda>(x, w). k_Update K x w) s = (e, s')"
    obtain y w2 where s': "s' = (y, w2)" by (cases s')
    from I obtain b w1 where s: "s = (ObjAutoMQ b, w1)" and b: "(mq_Namespace b, mq_Name b) = req"
      "mq_Spec b = mq_Spec a" "om_DeletionTimestamp (mq_meta b) = None" "liveWith view req (mq_Spec a) w1"
      by (cases s) auto
    with c s' have up: "k_Update K (ObjAutoMQ b) w1 = (e, y, w2)" by simp
    from write_live [OF writes, of b w1 e y w2 req "mq_Spec a"] up b
    have live2: "liveWith view req (mq_Spec a) w2" by blast
    show "?I s'"
    proof (cases e)
      case None
      from kube_lawsD(12) [OF laws, unfolded finalizer_update_law_def, rule_format, OF up [unfolded None]] b
      obtain d where "y = ObjAutoMQ d" "view w2 (KAutoMQ, req) = Some (ObjAutoMQ d)" by auto
      with live2 view_lawD [OF kube_lawsD(1) [OF laws] this(2)] s' show ?thesis
        by (auto simp: liveWith_def)
    next
      case (Some err)
      with kube_lawsD(5) [OF laws] up have "y = ObjAutoMQ b" unfolding update_law_def by blast
      with b live2 s' show ?thesis by simp
    qed
  qed
  then show "liveWith view req (mq_Spec a) w'" and "mq_Spec b = mq_Spec a"
    unfolding u b by (auto simp: filled_automq_def)
qed

lemma syncStatus_live:
  assumes laws: "kube_laws K view" and writes: "write_laws K view"
    and live: "liveWith view req sp w" and run: "syncStatus K a w = (e, w')"
    and a: "(mq_Namespace a, mq_Name a) = req"
  shows "liveWith view req sp w'"
proof -
  let ?I = "\<lambda>s. liveWith view req sp (snd s)"
  have "?I (snd (k_RetryOnConflict K (syncStatus_attempt K a) (ObjAutoMQ zero_automq, w)))"
  proof (rule retry_run_inv [where I = ?I, OF retry_law_run [OF laws]])
    show "?I (ObjAutoMQ zero_automq, w)" using live by simp
    fix s e s' assume I: "?I s" and c: "syncStatus_attempt K a s = (e, s')"
    obtain x w0 where s: "s = (x, w0)" by (cases s)
    obtain eg y w1 where g: "k_Get K (ObjectKeyFromObject (ObjAutoMQ a)) (ObjAutoMQ zero_automq) w0
        = (eg, y, w1)" by (metis prod_cases3)
    note v = get_law_view [OF kube_lawsD(2) [OF laws] g]
    show "?I s'"
    proof (cases eg)
      case (Some err)
      with c g s v I show ?thesis by (auto simp: syncStatus_attempt_def liveWith_def)
    next
      case None
      from get_law_found [OF kube_lawsD(2) [OF laws] g [unfolded None]] a
      have f: "view w0 (KAutoMQ, req) = Some y" by (simp add: ObjectKeyFromObject_def)
      with I s obtain b where b: "y = ObjAutoMQ b" "mq_Spec b = sp" "om_DeletionTimestamp (mq_meta b) = None"
        by (auto simp: liveWith_def)
      with view_lawD [OF kube_lawsD(1) [OF laws] f] have key: "(mq_Namespace b, mq_Name b) = req" by auto
      let ?o = "b\<lparr>mq_Status := mq_Status a\<rparr>"
      from c s g None b have "k_StatusUpdate K (ObjAutoMQ ?o) w1 = (e, fst s', snd s')"
        by (simp add: syncStatus_attempt_def filled_automq_def)
      moreover have "liveWith view req sp w1" using I s v by (simp add: liveWith_def)
      ultimately show ?thesis
        using write_live [OF writes, of ?o w1 e "fst s'" "snd s'" req sp] b key by simp
    qed
  qed
  with run show ?thesis by (auto simp: syncStatus_def split: prod.splits)
qed

lemma startReconcile_live:
  assumes laws: "kube_laws (r_Client r) view" and writes: "write_laws (r_Client r) view"
    and live: "liveWith view req sp w" and run: "startReconcile r req w = (res, w')"
  shows "liveWith view req sp w'" and "res = Inr b \<Longrightarrow> mq_Spec b = sp"
    and "fst k \<noteq> KAutoMQ \<Longrightarrow> view w' k = view w k"
proof -
  have "liveWith view req sp w' \<and> (\<forall>b. res = Inr b \<longrightarrow> mq_Spec b = sp)
    \<and> (\<forall>k. fst k \<noteq> KAutoMQ \<longrightarrow> view w' k = view w k)"
    using laws
  proof (cases rule: first_get [of r view req w])
    case (error e x w1)
    with run live show ?thesis by (auto simp: startReconcile_def liveWith_def)
  next
    case (found a w1)
    with live have a: "mq_Spec a = sp" "om_DeletionTimestamp (mq_meta a) = None"
      by (auto simp: liveWith_def)
    let ?a = "withFinalizer r a"
    obtain e b w2 where up: "retryUpdate (r_Client r) ?a w1 = (e, b, w2)" by (metis prod_cases3)
    have "liveWith view req (mq_Spec ?a) w1" using live found(2) a(1) by (simp add: liveWith_def)
    from retryUpdate_live [OF laws writes _ _ this up] found(4) a
    have "liveWith view req sp w2" "mq_Spec b = sp"
      by simp_all
    moreover have "view w2 k = view w k" if "fst k \<noteq> KAutoMQ" for k
      using retryUpdate_frame [OF laws, of k ?a w1] that up found(2) by (cases k) auto
    moreover have "w' = w2" "res = Inr d \<Longrightarrow> d = b" for d
      using run found(1) a(2) up
      by (auto simp: startReconcile_def filled_automq_def Let_def withFinalizer_def time_IsZero_def
          split: option.splits)
    ultimately show ?thesis by blast
  qed
  then show "liveWith view req sp w'" and "res = Inr b \<Longrightarrow> mq_Spec b = sp"
    and "fst k \<noteq> KAutoMQ \<Longrightarrow> view w' k = view w k" by blast+
qed

section \<open>Every step\<close>

text \<open>
  The wanted objects are there, the custom resource is stored, live and with the specification
  that asks for them, and so is the one that a reconciliation in flight works on.
\<close>

definition stableFor ::
  "'w view \<Rightarrow> 'w reconciler \<Rightarrow> ctx \<Rightarrow> AutoMQ \<Rightarrow> (int32 \<Rightarrow> int32) \<Rightarrow> 'w operator \<Rightarrow> bool" where
  "stableFor view r ctx a ps s \<longleftrightarrow> settled r ctx a ps (view (op_world s))
     \<and> liveWith view (mq_Namespace a, mq_Name a) (mq_Spec a) (op_world s)
     \<and> (\<forall>n c. op_workers s (mq_Namespace a, mq_Name a) = Some (n, c) \<longrightarrow> mq_Spec c = mq_Spec a)"

text \<open>What the steps of others may do: leave the objects alone, and the specification as it is.\<close>

definition harmless :: "'w view \<Rightarrow> AutoMQ \<Rightarrow> ('w \<Rightarrow> 'w \<Rightarrow> bool) \<Rightarrow> bool" where
  "harmless view a env \<longleftrightarrow> (\<forall>w w'. env w w' \<longrightarrow> untouched view (mq_Namespace a) w w'
     \<and> (liveWith view (mq_Namespace a, mq_Name a) (mq_Spec a) w \<longrightarrow>
        liveWith view (mq_Namespace a, mq_Name a) (mq_Spec a) w'))"

lemma settled_untouched:
  assumes "untouched view (mq_Namespace a) w w'"
  shows "settled r ctx a ps (view w') = settled r ctx a ps (view w)"
  by (rule settled_frame) (simp add: untouchedD [OF assms] wantedKeysD)

lemma syncStatus_settled:
  assumes "kube_laws K view" and "syncStatus K c w = (e, w')"
  shows "settled r ctx a ps (view w') = settled r ctx a ps (view w)"
proof (rule settled_frame)
  fix k assume "k \<in> wantedKeys a"
  then have "k \<noteq> okey (ObjAutoMQ c)" using wantedKeysD(1) by fastforce
  from syncStatus_frame [OF assms(1) this, of w] assms(2) show "view w' k = view w k" by simp
qed

text \<open>The first part of a call.\<close>

lemma stableFor_start:
  assumes K: "kube_laws (r_Client r) view" and writes: "write_laws (r_Client r) view"
    and st: "stableFor view r ctx a ps s"
    and run: "startReconcile r (mq_Namespace a, mq_Name a) (op_world s) = (res, w')"
  shows "settled r ctx a ps (view w')"
    and "liveWith view (mq_Namespace a, mq_Name a) (mq_Spec a) w'"
    and "res = Inr b \<Longrightarrow> mq_Spec (setAddresses b) = mq_Spec a"
proof -
  from st have "liveWith view (mq_Namespace a, mq_Name a) (mq_Spec a) (op_world s)"
    by (simp add: stableFor_def)
  note live = startReconcile_live [OF K writes this run]
  show "settled r ctx a ps (view w')"
    using st settled_frame [of a "view w'"] live(3) wantedKeysD unfolding stableFor_def by metis
  show "liveWith view (mq_Namespace a, mq_Name a) (mq_Spec a) w'" by (rule live(1))
  show "mq_Spec (setAddresses b) = mq_Spec a" if "res = Inr b"
    using live(2) [OF that] by (simp add: setAddresses_def)
qed

text \<open>The steps of the custom resource itself.\<close>

lemma stableFor_own:
  assumes step: "op_step r ctx env s l s'" and laws: "env_laws r view"
    and writes: "write_laws (r_Client r) view" and wf: "op_wf s" and st: "stableFor view r ctx a ps s"
    and mine: "label_key l = Some (mq_Namespace a, mq_Name a)"
  shows "stableFor view r ctx a ps s'"
proof -
  note K = env_lawsD(1) [OF laws]
  let ?req = "(mq_Namespace a, mq_Name a)"
  from st have S: "settled r ctx a ps (view (op_world s))" and L: "liveWith view ?req (mq_Spec a) (op_world s)"
    and W: "\<And>n c. op_workers s ?req = Some (n, c) \<Longrightarrow> mq_Spec c = mq_Spec a"
    by (simp_all add: stableFor_def)
  have status: "settled r ctx a ps (view w')" "liveWith view ?req (mq_Spec a) w'"
    if "syncStatus (r_Client r) c (op_world s) = (e, w')" and "isFor ?req c" for c e w'
    using syncStatus_settled [OF K that(1), of r ctx a ps] S
      syncStatus_live [OF K writes L that(1) isForD [OF that(2)]] by blast+
  show ?thesis
    using step
  proof (cases rule: op_step.cases)
    case (started q b w')
    with mine have q: "q = ?req" by simp
    from stableFor_start [OF K writes st started(4) [unfolded q]] started(2) q
    show ?thesis by (simp add: stableFor_def)
  next
    case (returned q e t w')
    with mine have q: "q = ?req" by simp
    from stableFor_start(1,2) [OF K writes st returned(4) [unfolded q]] returned(2) W
    show ?thesis by (simp add: stableFor_def)
  next
    case (stage_run q n c ok c' w')
    with mine have q: "q = ?req" by simp
    from op_wfD(2) [OF wf stage_run(3)] q
    have c: "mq_Name c = mq_Name a" "mq_Namespace c = mq_Namespace a" by (auto simp: isFor_def)
    have cs: "mq_Spec c = mq_Spec a" using W stage_run(3) q by simp
    have "settled r ctx a ps (view w')"
      using stage_settled [OF laws writes stage_run(4,5) c cs] S by (simp add: keepsSettled_def)
    moreover have "mq_Spec c' = mq_Spec a" "view w' (KAutoMQ, ?req) = view (op_world s) (KAutoMQ, ?req)"
      by (rule stage_at [OF laws stage_run(4), of ctx c "op_world s"],
          use stage_run(5) cs ownedKeys_not_AutoMQ in \<open>simp add: keeps_def\<close>)+
    ultimately show ?thesis using stage_run(2) L q by (simp add: stableFor_def liveWith_def)
  next
    case (finished q n c e w')
    with mine op_wfD(2) [OF wf finished(3)] have "isFor ?req (recordReplicas c)" by simp
    with finished mine S W status [OF finished(5)] show ?thesis by (simp add: stableFor_def)
  next
    case (tick_read q res w')
    with S L W statusObserve_view [OF K] show ?thesis by (simp add: stableFor_def liveWith_def)
  next
    case (tick_write q c e w')
    with mine op_wfD(1) [OF wf tick_write(3)] have "isFor ?req c" by simp
    with tick_write mine S W status [OF tick_write(4)] show ?thesis by (simp add: stableFor_def)
  qed (use mine in simp)
qed

lemma stableFor_other:
  assumes step: "op_step r ctx env s l s'" and laws: "env_laws r view" and wf: "op_wf s"
    and env: "harmless view a env" and st: "stableFor view r ctx a ps s"
    and l: "label_key l \<noteq> Some (mq_Namespace a, mq_Name a)"
    and others: "\<And>q. label_key l = Some q \<Longrightarrow> isTick l \<or> fst q \<noteq> mq_Namespace a"
  shows "stableFor view r ctx a ps s'"
proof -
  let ?req = "(mq_Namespace a, mq_Name a)"
  have "untouched view (mq_Namespace a) (op_world s) (op_world s')"
    using op_step_untouched [OF step laws wf, of "mq_Namespace a"] env others
    unfolding harmless_def by blast
  moreover have "liveWith view ?req (mq_Spec a) (op_world s')"
  proof (cases "l = Other")
    case True
    with step env st show ?thesis by (auto simp: harmless_def stableFor_def elim: op_step.cases)
  next
    case False
    have "view (op_world s') (KAutoMQ, ?req) = view (op_world s) (KAutoMQ, ?req)"
      by (rule op_step_frame [OF step laws wf])
        (use False l ownedKeys_not_AutoMQ in \<open>auto simp: domain_of_def\<close>)
    with st show ?thesis by (simp add: stableFor_def liveWith_def)
  qed
  ultimately show ?thesis
    using st op_step_workers [OF step l] by (simp add: stableFor_def settled_untouched)
qed

lemma stableFor_run:
  assumes run: "op_run r ctx env s ls s'" and laws: "env_laws r view"
    and writes: "write_laws (r_Client r) view" and wf: "op_wf s"
    and st: "stableFor view r ctx a ps s" and env: "harmless view a env"
    and others: "\<And>l q. l \<in> set ls \<Longrightarrow> label_key l = Some q \<Longrightarrow> q \<noteq> (mq_Namespace a, mq_Name a) \<Longrightarrow>
      isTick l \<or> fst q \<noteq> mq_Namespace a"
  shows "stableFor view r ctx a ps s'"
  using run wf st others
proof (induction rule: op_run.induct)
  case (step s ls s1 l s2)
  have wf1: "op_wf s1" by (rule op_run_wf [OF step.hyps(1) laws step.prems(1)])
  have st1: "stableFor view r ctx a ps s1" by (rule step.IH) (use step.prems in auto)
  show ?case
  proof (cases "label_key l = Some (mq_Namespace a, mq_Name a)")
    case True
    with stableFor_own [OF step.hyps(2) laws writes wf1 st1] show ?thesis .
  next
    case False
    show ?thesis
      by (rule stableFor_other [OF step.hyps(2) laws wf1 env st1 False])
        (use step.prems(3) [of l] False in auto)
  qed
qed

text \<open>
  C5: once a cluster is in the desired state it stays there. As long as the custom resource is
  live and its specification is not changed, no interleaving of its reconciliations, of tickers,
  of reconciliations in other namespaces and of clients that leave the namespace's objects alone
  removes one of the objects or makes it deviate, whichever calls fail: every controller and
  broker keeps its claim, deployment and service, and every broker is still told the node port
  its service has.
\<close>

theorem desired_stays:
  assumes laws: "env_laws r view" and writes: "write_laws (r_Client r) view"
    and wf: "op_wf s" and idle: "op_workers s (mq_Namespace a, mq_Name a) = None"
    and desired: "desired r ctx a (view (op_world s))" "allocated a (view (op_world s))"
    and live: "liveWith view (mq_Namespace a, mq_Name a) (mq_Spec a) (op_world s)"
    and env: "harmless view a env"
    and run: "op_run r ctx env s ls s'"
    and others: "\<And>l q. l \<in> set ls \<Longrightarrow> label_key l = Some q \<Longrightarrow> q \<noteq> (mq_Namespace a, mq_Name a) \<Longrightarrow>
      isTick l \<or> fst q \<noteq> mq_Namespace a"
  shows "desired r ctx a (view (op_world s')) \<and> allocated a (view (op_world s'))
    \<and> liveWith view (mq_Namespace a, mq_Name a) (mq_Spec a) (op_world s')"
proof -
  note own = view_lawD [OF kube_lawsD(1) [OF env_lawsD(1) [OF laws]]]
  let ?ps = "storedPort a (view (op_world s))"
  have "settled r ctx a ?ps (view (op_world s))" by (rule desired_settled [OF own desired])
  then have "stableFor view r ctx a ?ps s" using live idle by (simp add: stableFor_def)
  from stableFor_run [OF run laws writes wf this env others]
  have "settled r ctx a ?ps (view (op_world s'))"
    "liveWith view (mq_Namespace a, mq_Name a) (mq_Spec a) (op_world s')"
    unfolding stableFor_def by blast+
  moreover from this(1) have "desired r ctx a (view (op_world s'))" "allocated a (view (op_world s'))"
    using settled_desired [where v = "view (op_world s')"] own by blast+
  ultimately show ?thesis by blast
qed

section \<open>A run\<close>

lemma find_named:
  assumes "distinct (map sp_Name ps)" and "p \<in> set ps" and "sp_NodePort p \<noteq> 0"
  shows "find (\<lambda>q. sp_Name q = sp_Name p \<and> sp_NodePort q \<noteq> 0) ps = Some p"
  using assms by (induction ps) (auto simp: image_iff)

lemma mem_admit_ports: "portsKept s b (mem_admit (Some b) s)"
  by (cases s; cases b) (auto simp: portsKept_def mem_admit_def mem_alloc_def find_named)

lemma mem_write_laws: "write_laws (mem_kube deny) mem_view"
proof -
  have "cou_writes (mem_kube deny) mem_view"
    unfolding cou_writes_def
  proof (intro allI impI)
    fix x f w e y w' b
    assume call: "k_CreateOrUpdate (mem_kube deny) x f w = (e, y, w')"
      and key: "\<forall>b. okey (f b) = okey b" and b: "mem_view w (okey x) = Some b"
    have ok: "okey b = okey x" by (rule mem_view_okey [OF b])
    note admit = mem_admit_admitted [of "f b" "Some b"] mem_admit_ports [of "f b" b]
    have "okey (mem_admit (Some b) (f b)) = okey x" using admitted_okey [OF admit(1)] key ok by simp
    with call b ok admit
    show "\<exists>z. mem_view w' (okey x) = Some z \<and> (z = b
        \<or> (\<exists>b'. okey b' = okey x \<and> admitted (f b') z \<and> portsKept (f b') b z))"
      by (auto simp: mem_cou_def mem_view_put Let_def split: option.splits)
  qed
  moreover have "update_keeps (mem_kube deny) mem_view"
    by (auto simp: update_keeps_def liveWith_def mem_update_def mem_status_update_def mem_view_put
        split: option.splits if_splits)
  ultimately show ?thesis by (simp add: write_laws_def)
qed

text \<open>A cluster in memory that is in the desired state of the sample.\<close>

definition settledEntries :: "mem reconciler \<Rightarrow> ctx \<Rightarrow> (okey \<times> object) list" where
  "settledEntries r ctx = (let a = sample ''mq'' in [
     ((KAutoMQ, ''prod'', ''mq''), ObjAutoMQ a),
     ((KConfigMap, ''prod'', ''mq''),
       on_configmap (scriptConfigmap_mutate (r_UpSh r)) (ObjConfigMap (new_configmap ''prod'' ''mq''))),
     ((KService, ''prod'', bootstrapName),
       on_service (bootstrapService_mutate a) (ObjService (new_service ''prod'' bootstrapName))),
     ((KPVC, ''prod'', controllerName 0),
       on_pvc (controllerPVC_mutate a 0) (ObjPVC (new_pvc ''prod'' (controllerName 0)))),
     ((KDeployment, ''prod'', controllerName 0), on_deployment (controllerDeploy_mutate r ctx a 0)
       (ObjDeployment (new_deployment ''prod'' (controllerName 0)))),
     ((KService, ''prod'', controllerName 0),
       on_service (controllerService_mutate a 0) (ObjService (new_service ''prod'' (controllerName 0)))),
     ((KPVC, ''prod'', brokerName 0),
       on_pvc (brokerPVC_mutate a 0) (ObjPVC (new_pvc ''prod'' (brokerName 0)))),
     ((KService, ''prod'', brokerName 0), mem_admit None
       (on_service (brokerService_mutate a 0) (ObjService (new_service ''prod'' (brokerName 0))))),
     ((KDeployment, ''prod'', brokerName 0), on_deployment (brokerDeploy_mutate r ctx a 0 30000)
       (ObjDeployment (new_deployment ''prod'' (brokerName 0))))])"

definition settledCluster :: "mem reconciler \<Rightarrow> ctx \<Rightarrow> mem" where
  "settledCluster r ctx = \<lparr>mem_store = map_of (settledEntries r ctx), mem_pods = []\<rparr>"

lemma settledCluster_view: "mem_view (settledCluster r ctx) = map_of (settledEntries r ctx)"
proof -
  have "list_all (\<lambda>(k, x). okey x = k) (settledEntries r ctx)"
    by (simp add: settledEntries_def Let_def admitted_okey [OF mem_admit_admitted]
        on_configmap_def scriptConfigmap_mutate_def new_configmap_def empty_meta_def del: on_simps)
  then have "map_of (settledEntries r ctx) k = Some x \<Longrightarrow> okey x = k" for k x
    by (auto simp: list_all_iff dest!: map_of_SomeD)
  then show ?thesis by (auto simp: settledCluster_def mem_view_def fun_eq_iff split: option.splits)
qed

lemma settledEntries_good:
  fixes r :: "mem reconciler"
  defines "a \<equiv> sample ''mq''"
  defines "bs \<equiv> mem_admit None (on_service (brokerService_mutate a 0)
      (ObjService (new_service ''prod'' (brokerName 0))))"
  shows "\<forall>k \<in> controllerKeys ''prod'' 0. \<exists>z. map_of (settledEntries r ctx) k = Some z \<and> controllerGood r ctx a 0 z"
    and "\<forall>k \<in> brokerKeys ''prod'' 0. \<exists>z. map_of (settledEntries r ctx) k = Some z
      \<and> brokerGood r ctx a 0 z \<and> hasPort r ctx a 0 30000 z"
proof -
  have "controllerGood r ctx a 0 (on_pvc (controllerPVC_mutate a 0) (ObjPVC (new_pvc ''prod'' (controllerName 0))))"
    "controllerGood r ctx a 0 (on_deployment (controllerDeploy_mutate r ctx a 0)
      (ObjDeployment (new_deployment ''prod'' (controllerName 0))))"
    "controllerGood r ctx a 0 (on_service (controllerService_mutate a 0)
      (ObjService (new_service ''prod'' (controllerName 0))))"
    by (rule controllerPVC_made [OF _ admitted_refl] controllerDeploy_made [OF _ admitted_refl]
        controllerService_made [OF _ admitted_refl]; simp)+
  then show "\<forall>k \<in> controllerKeys ''prod'' 0. \<exists>z. map_of (settledEntries r ctx) k = Some z \<and> controllerGood r ctx a 0 z"
    by (simp add: controllerKeys_def settledEntries_def Let_def a_def del: on_simps)
  let ?bd = "on_deployment (brokerDeploy_mutate r ctx a 0 30000) (ObjDeployment (new_deployment ''prod'' (brokerName 0)))"
  let ?bp = "on_pvc (brokerPVC_mutate a 0) (ObjPVC (new_pvc ''prod'' (brokerName 0)))"
  have "brokerGood r ctx a 0 ?bp"
    by (rule brokerPVC_made [OF _ admitted_refl]) simp
  moreover have "hasPort r ctx a 0 30000 ?bp" by (rule hasPort_PVC) (simp del: on_simps)
  moreover have "brokerGood r ctx a 0 bs \<and> hasPort r ctx a 0 30000 bs" unfolding bs_def
    using brokerService_made [OF _ mem_admit_admitted [of _ None],
        of "ObjService (new_service ''prod'' (brokerName 0))" "''prod''" "brokerName 0" a 0]
    by (auto simp: brokerGood_def hasPort_def mem_admit_def mem_alloc_def brokerService_mutate_def)
  moreover have "brokerGood r ctx a 0 ?bd \<and> hasPort r ctx a 0 30000 ?bd"
    using brokerDeploy_made [OF _ admitted_refl,
        of "ObjDeployment (new_deployment ''prod'' (brokerName 0))" "''prod''" 0 r ctx a 30000]
    by (auto simp: brokerGood_def hasPort_def)
  ultimately show "\<forall>k \<in> brokerKeys ''prod'' 0. \<exists>z. map_of (settledEntries r ctx) k = Some z
      \<and> brokerGood r ctx a 0 z \<and> hasPort r ctx a 0 30000 z"
    by (simp add: brokerKeys_def settledEntries_def Let_def a_def bs_def del: on_simps)
qed

lemma settledCluster_settled:
  "settled r ctx (sample ''mq'') (\<lambda>_. 30000) (mem_view (settledCluster r ctx))"
proof -
  let ?v = "map_of (settledEntries r ctx)" and ?a = "sample ''mq''"
  have "scriptStored r ?a ?v" "bootstrapStored ?a ?v"
    by (simp_all add: scriptStored_def bootstrapStored_def settledEntries_def Let_def on_configmap_def
        scriptConfigmap_mutate_def bootstrapService_mutate_def)
  moreover have "0 \<le> j \<and> j < (1::int) \<longleftrightarrow> j = 0" for j by auto
  ultimately show ?thesis
    using settledEntries_good [of r ctx]
    unfolding settledCluster_view settled_def wantedKeys_eq by simp
qed

text \<open>
  In the witness the cluster is in the desired state, and a whole reconciliation runs while the
  server refuses every write to a deployment.
\<close>

theorem desired_stays_witness:
  "\<exists>deny w ls e t s. deny (KDeployment, ''prod'', controllerName 0) \<noteq> None
    \<and> callTrace (''prod'', ''mq'') ls e t
    \<and> op_run (memOperator None deny) Map.empty (\<lambda>_ _. False) (startOn w) ls s
    \<and> desired (memOperator None deny) Map.empty (sample ''mq'') (mem_view (op_world s))
    \<and> allocated (sample ''mq'') (mem_view (op_world s))"
proof -
  let ?env = "\<lambda>_ _ :: mem. False" and ?req = "(''prod'', ''mq'')" and ?a = "sample ''mq''"
  let ?deny = "\<lambda>k :: okey. if fst k = KDeployment then Some not_found else None"
  let ?r = "memOperator None ?deny"
  let ?w = "settledCluster ?r Map.empty"
  let ?s = "startOn ?w"
  note d = settled_desired [OF mem_view_okey settledCluster_settled [of ?r Map.empty]]
  have live: "liveWith mem_view ?req (mq_Spec ?a) ?w"
    by (simp add: liveWith_def settledCluster_view settledEntries_def Let_def)
  obtain e t w2 where "Reconcile ?r Map.empty ?req (op_world ?s) = (Val (e, t), w2)"
    using Reconcile_outcome [OF mem_env_laws, of None ?deny Map.empty ?req "op_world ?s"]
    by (auto elim!: returnsE)
  from Reconcile_run [OF _ this, of ?env] obtain ls where ls: "callTrace ?req ls e t"
    and run: "op_run ?r Map.empty ?env ?s ls (called ?req t w2 ?s)" by auto
  from desired_stays [OF mem_env_laws _ _ _ _ _ _ _ run, of ?a] d live mem_write_laws callTrace_key [OF ls]
  have "desired ?r Map.empty ?a (mem_view (op_world (called ?req t w2 ?s)))
      \<and> allocated ?a (mem_view (op_world (called ?req t w2 ?s)))"
    by (simp add: harmless_def)
  with ls run show ?thesis
    by (intro exI [of _ ?deny] exI [of _ ?w] exI conjI) auto
qed

end
