(* ===== verification/Rollout.thy ===== *)
theory Rollout
  imports Convergence
begin

text \<open>
  Properties of the objects the operator writes: which parts of the specification reach the pods,
  that writing them again changes nothing, that selectors keep matching, and what two custom
  resources in one namespace do to each other.
\<close>

section \<open>What reaches the pods\<close>

lemma controllerTemplate_image:
  "map ct_Image (pt_Containers (controllerTemplate r ctx obj i n t)) = [DefaultImageName]"
  by (simp add: controllerTemplate_def Let_def addMetrics_def addTimeZone_def setResources_def
      addUserEnvs_def appendEnv_def kafkaContainer_def)

lemma brokerTemplate_image:
  "map ct_Image (pt_Containers (brokerTemplate r ctx obj i p n t)) = [DefaultImageName]"
  by (simp add: brokerTemplate_def Let_def addMetrics_def addTimeZone_def setResources_def
      addUserEnvs_def appendEnv_def kafkaContainer_def)

text \<open>
  The image of the specification, which the webhook defaults and requires, is never used:
  every Kafka container runs the operator's built-in image, whatever the specification says.
\<close>

theorem spec_image_ignored:
  "map ct_Image (pt_Containers (controllerTemplate r ctx obj i n t)) = [DefaultImageName]
    \<and> map ct_Image (pt_Containers (brokerTemplate r ctx obj i p n t)) = [DefaultImageName]"
  by (simp add: controllerTemplate_image brokerTemplate_image)

lemma addMetrics_hash:
  "pt_Annotations (addMetrics obj t) ''configmap/script-hash'' = pt_Annotations t ''configmap/script-hash''"
  by (simp add: addMetrics_def Let_def)

lemma annotation_kept [simp]:
  "pt_Annotations (addTimeZone tz t) = pt_Annotations t"
  "pt_Annotations (setResources res t) = pt_Annotations t"
  "pt_Annotations (addUserEnvs es t) = pt_Annotations t"
  by (simp_all add: addTimeZone_def setResources_def addUserEnvs_def Let_def)


section \<open>Writing again\<close>

text \<open>
  C30: each mutation the operator hands to \<open>CreateOrUpdate\<close> is idempotent: applied to an object
  that already went through it, it changes nothing, so a retry after a conflict, or a second
  reconciliation, sends the same object.
\<close>

theorem mutations_idempotent:
  "controllerPVC_mutate obj i (controllerPVC_mutate obj i p) = controllerPVC_mutate obj i p
    \<and> controllerDeploy_mutate r ctx obj i (controllerDeploy_mutate r ctx obj i d) =
        controllerDeploy_mutate r ctx obj i d
    \<and> controllerService_mutate obj i (controllerService_mutate obj i s) = controllerService_mutate obj i s
    \<and> brokerPVC_mutate obj i (brokerPVC_mutate obj i p) = brokerPVC_mutate obj i p
    \<and> brokerDeploy_mutate r ctx obj i port (brokerDeploy_mutate r ctx obj i port d) =
        brokerDeploy_mutate r ctx obj i port d
    \<and> brokerService_mutate obj i (brokerService_mutate obj i s) = brokerService_mutate obj i s
    \<and> bootstrapService_mutate obj (bootstrapService_mutate obj s) = bootstrapService_mutate obj s
    \<and> scriptConfigmap_mutate u (scriptConfigmap_mutate u cm) = scriptConfigmap_mutate u cm"
proof (intro conjI)
  show "controllerDeploy_mutate r ctx obj i (controllerDeploy_mutate r ctx obj i d) =
      controllerDeploy_mutate r ctx obj i d"
    using controllerTemplate_any [of r ctx obj i "om_Name (dep_meta d)" _ "dep_Template d"]
    by (simp add: controllerDeploy_mutate_def)
  show "brokerDeploy_mutate r ctx obj i port (brokerDeploy_mutate r ctx obj i port d) =
      brokerDeploy_mutate r ctx obj i port d"
    using brokerTemplate_any [of r ctx obj i port "om_Name (dep_meta d)" _ "dep_Template d"]
    by (simp add: brokerDeploy_mutate_def)
qed (simp_all add: controllerPVC_mutate_def controllerService_mutate_def brokerPVC_mutate_def
    brokerService_mutate_def bootstrapService_mutate_def scriptConfigmap_mutate_def Let_def)

section \<open>Selectors\<close>

definition selects :: "labels \<Rightarrow> labels \<Rightarrow> bool" where
  "selects sel l \<longleftrightarrow> sel \<subseteq>\<^sub>m l"

lemma template_labels [simp]:
  "pt_Labels (controllerTemplate r ctx obj i n t) = controllerIndexLabels obj i"
  "pt_Labels (brokerTemplate r ctx obj i p n t) = brokerIndexLabels obj i"
  by (simp_all add: controllerTemplate_def brokerTemplate_def Let_def addMetrics_def addTimeZone_def
      setResources_def addUserEnvs_def)

text \<open>The labels of a pod decide its role and, with the index label, its replica.\<close>

lemma index_labels_at:
  "controllerIndexLabels obj i autoMQIndexKey = Some (itoa (sint i))"
  "brokerIndexLabels obj i autoMQIndexKey = Some (itoa (sint i))"
  "controllerIndexLabels obj i ''app.kubernetes.io/role'' = Some controllerRole"
  "brokerIndexLabels obj i ''app.kubernetes.io/role'' = Some brokerRole"
  "controllerIndexLabels obj i ''app.kubernetes.io/instance'' = Some (mq_Name obj)"
  "brokerIndexLabels obj i ''app.kubernetes.io/instance'' = Some (mq_Name obj)"
  by (simp_all add: controllerIndexLabels_def brokerIndexLabels_def getAutoMQLabelMap_def
      autoMQIndexKey_def controllerRole_def brokerRole_def)

lemma map_leD: "m \<subseteq>\<^sub>m m' \<Longrightarrow> m k = Some v \<Longrightarrow> m' k = Some v"
  by (auto simp: map_le_def dom_def)

lemma sint_inject32: "sint (i :: int32) = sint j \<longleftrightarrow> i = j"
  using word_of_int_sint32 by metis

lemma labels_le:
  "controllerIndexLabels a i \<subseteq>\<^sub>m controllerIndexLabels b j \<longleftrightarrow> i = j \<and> mq_Name a = mq_Name b"
  "brokerIndexLabels a i \<subseteq>\<^sub>m brokerIndexLabels b j \<longleftrightarrow> i = j \<and> mq_Name a = mq_Name b"
  "\<not> controllerIndexLabels a i \<subseteq>\<^sub>m brokerIndexLabels b j"
  "\<not> brokerIndexLabels a i \<subseteq>\<^sub>m controllerIndexLabels b j"
  "getAutoMQLabelMap (mq_Name a) brokerRole \<subseteq>\<^sub>m brokerIndexLabels b j \<longleftrightarrow> mq_Name a = mq_Name b"
  "\<not> getAutoMQLabelMap (mq_Name a) brokerRole \<subseteq>\<^sub>m controllerIndexLabels b j"
proof -
  have roles: "controllerRole \<noteq> brokerRole" by (simp add: controllerRole_def brokerRole_def)
  have m: "getAutoMQLabelMap (mq_Name a) brokerRole ''app.kubernetes.io/role'' = Some brokerRole"
    "getAutoMQLabelMap (mq_Name a) brokerRole ''app.kubernetes.io/instance'' = Some (mq_Name a)"
    by (simp_all add: getAutoMQLabelMap_def brokerRole_def)
  have "i = j \<and> mq_Name a = mq_Name b"
    if "controllerIndexLabels a i \<subseteq>\<^sub>m controllerIndexLabels b j"
    using map_leD [OF that, OF index_labels_at(1)] map_leD [OF that, OF index_labels_at(5)]
    by (simp add: index_labels_at sint_inject32)
  then show "controllerIndexLabels a i \<subseteq>\<^sub>m controllerIndexLabels b j \<longleftrightarrow>
      i = j \<and> mq_Name a = mq_Name b"
    by (auto simp: controllerIndexLabels_def)
  have "i = j \<and> mq_Name a = mq_Name b" if "brokerIndexLabels a i \<subseteq>\<^sub>m brokerIndexLabels b j"
    using map_leD [OF that, OF index_labels_at(2)] map_leD [OF that, OF index_labels_at(6)]
    by (simp add: index_labels_at sint_inject32)
  then show "brokerIndexLabels a i \<subseteq>\<^sub>m brokerIndexLabels b j \<longleftrightarrow> i = j \<and> mq_Name a = mq_Name b"
    by (auto simp: brokerIndexLabels_def)
  have False if "controllerIndexLabels a i \<subseteq>\<^sub>m brokerIndexLabels b j"
    using map_leD [OF that, OF index_labels_at(3)] roles by (simp add: index_labels_at)
  then show "\<not> controllerIndexLabels a i \<subseteq>\<^sub>m brokerIndexLabels b j" by blast
  have False if "brokerIndexLabels a i \<subseteq>\<^sub>m controllerIndexLabels b j"
    using map_leD [OF that, OF index_labels_at(4)] roles by (simp add: index_labels_at)
  then show "\<not> brokerIndexLabels a i \<subseteq>\<^sub>m controllerIndexLabels b j" by blast
  have False if "getAutoMQLabelMap (mq_Name a) brokerRole \<subseteq>\<^sub>m controllerIndexLabels b j"
    using map_leD [OF that, OF m(1)] roles by (simp add: index_labels_at)
  then show "\<not> getAutoMQLabelMap (mq_Name a) brokerRole \<subseteq>\<^sub>m controllerIndexLabels b j" by blast
  have "mq_Name a = mq_Name b" if "getAutoMQLabelMap (mq_Name a) brokerRole \<subseteq>\<^sub>m brokerIndexLabels b j"
    using map_leD [OF that, OF m(2)] by (simp add: index_labels_at)
  then show "getAutoMQLabelMap (mq_Name a) brokerRole \<subseteq>\<^sub>m brokerIndexLabels b j \<longleftrightarrow>
      mq_Name a = mq_Name b"
    by (auto simp: brokerIndexLabels_def map_le_def getAutoMQLabelMap_def brokerRole_def
        autoMQIndexKey_def)
qed

text \<open>
  C28: the selector given to a replica's service and deployment picks exactly the pods of that
  replica: of the controllers and brokers of two custom resources it selects a pod only if role,
  index and custom resource are its own, and the selector of the bootstrap service picks exactly
  the brokers of its custom resource.
\<close>

theorem selectors_exact:
  "(selects (controllerIndexLabels a i) (pt_Labels (controllerTemplate r ctx b j n t)) \<longleftrightarrow>
      i = j \<and> mq_Name a = mq_Name b)
    \<and> (selects (brokerIndexLabels a i) (pt_Labels (brokerTemplate r ctx b j p n t)) \<longleftrightarrow>
      i = j \<and> mq_Name a = mq_Name b)
    \<and> \<not> selects (controllerIndexLabels a i) (pt_Labels (brokerTemplate r ctx b j p n t))
    \<and> \<not> selects (brokerIndexLabels a i) (pt_Labels (controllerTemplate r ctx b j n t))
    \<and> (selects (getAutoMQLabelMap (mq_Name a) brokerRole)
         (pt_Labels (brokerTemplate r ctx b j p n t)) \<longleftrightarrow> mq_Name a = mq_Name b)
    \<and> \<not> selects (getAutoMQLabelMap (mq_Name a) brokerRole)
         (pt_Labels (controllerTemplate r ctx b j n t))"
  by (simp add: selects_def labels_le)

section \<open>Two custom resources in one namespace\<close>

lemma good_not_other:
  assumes "mq_Name a \<noteq> mq_Name b" and "controllerGood r ctx b i x"
  shows "\<not> controllerGood r ctx a i x"
proof -
  have "controllerIndexLabels a i \<noteq> controllerIndexLabels b i"
    using index_labels_at(5) assms(1) by (metis option.inject)
  moreover have "getAutoMQLabelMap (mq_Name a) controllerRole \<noteq> getAutoMQLabelMap (mq_Name b) controllerRole"
    using assms(1) by (auto simp: getAutoMQLabelMap_def controllerRole_def fun_eq_iff split: if_splits)
  ultimately show ?thesis using assms(2) by (cases x) (auto simp: controllerGood_def)
qed




end
