(* ===== verification/Validity.thy ===== *)
theory Validity
  imports Rollout
begin

text \<open>
  What the API server checks of an object before it stores it, as far as the resources of a
  replica are concerned (the validation rules documented for names, labels, deployments and pod
  templates), and that the resources the operator builds pass, but for one case: a custom
  resource whose name is longer than a label value may be.
\<close>

section \<open>The rules\<close>

definition is_lower :: "char \<Rightarrow> bool" where
  "is_lower c \<longleftrightarrow> 97 \<le> (of_char c :: nat) \<and> (of_char c :: nat) \<le> 122"

definition is_upper :: "char \<Rightarrow> bool" where
  "is_upper c \<longleftrightarrow> 65 \<le> (of_char c :: nat) \<and> (of_char c :: nat) \<le> 90"

definition is_digit :: "char \<Rightarrow> bool" where
  "is_digit c \<longleftrightarrow> 48 \<le> (of_char c :: nat) \<and> (of_char c :: nat) \<le> 57"

text \<open>A label of a domain name (RFC 1035), as the name of a service has to be.\<close>

definition dns_label :: "string \<Rightarrow> bool" where
  "dns_label s \<longleftrightarrow> s \<noteq> [] \<and> length s \<le> 63
     \<and> list_all (\<lambda>c. is_lower c \<or> is_digit c \<or> c = CHR ''-'') s
     \<and> is_lower (hd s) \<and> (is_lower (last s) \<or> is_digit (last s))"

text \<open>The value of a label: empty, or at most 63 letters, digits and inner punctuation.\<close>

definition label_value :: "string \<Rightarrow> bool" where
  "label_value s \<longleftrightarrow> s = [] \<or> length s \<le> 63
     \<and> list_all (\<lambda>c. is_lower c \<or> is_upper c \<or> is_digit c \<or> c \<in> {CHR ''-'', CHR ''_'', CHR ''.''}) s
     \<and> (is_lower (hd s) \<or> is_upper (hd s) \<or> is_digit (hd s))
     \<and> (is_lower (last s) \<or> is_upper (last s) \<or> is_digit (last s))"

definition labels_valid :: "labels \<Rightarrow> bool" where
  "labels_valid l \<longleftrightarrow> (\<forall>v \<in> ran l. label_value v)"

text \<open>The name of a custom resource: a domain name in lower case (RFC 1123).\<close>

definition resource_name :: "string \<Rightarrow> bool" where
  "resource_name s \<longleftrightarrow> s \<noteq> [] \<and> length s \<le> 253
     \<and> list_all (\<lambda>c. is_lower c \<or> is_digit c \<or> c \<in> {CHR ''-'', CHR ''.''}) s
     \<and> (is_lower (hd s) \<or> is_digit (hd s)) \<and> (is_lower (last s) \<or> is_digit (last s))"

text \<open>
  A container: its name is a label, its port names are labels of at most 15 characters, its probe
  asks a port it has, its mounts are of volumes of the pod.
\<close>

definition container_valid :: "volume list \<Rightarrow> container \<Rightarrow> bool" where
  "container_valid vs c \<longleftrightarrow> dns_label (ct_Name c)
     \<and> (\<forall>p \<in> set (ct_Ports c). dns_label (cp_Name p) \<and> length (cp_Name p) \<le> 15)
     \<and> (\<forall>p \<in> set_option (ct_LivenessProbe c). case pr_TCPSocketPort p of
          FromString n \<Rightarrow> n \<in> cp_Name ` set (ct_Ports c) | FromInt _ \<Rightarrow> True)
     \<and> (\<forall>m \<in> set (ct_VolumeMounts c). vm_Name m \<in> vol_Name ` set vs)"

definition template_valid :: "pod_template \<Rightarrow> bool" where
  "template_valid t \<longleftrightarrow> labels_valid (pt_Labels t) \<and> pt_Containers t \<noteq> []
     \<and> distinct (map ct_Name (pt_InitContainers t @ pt_Containers t))
     \<and> (\<forall>c \<in> set (pt_InitContainers t @ pt_Containers t). container_valid (pt_Volumes t) c)
     \<and> distinct (map vol_Name (pt_Volumes t)) \<and> (\<forall>v \<in> set (pt_Volumes t). dns_label (vol_Name v))"

definition deployment_valid :: "deployment \<Rightarrow> bool" where
  "deployment_valid d \<longleftrightarrow> dns_label (om_Name (dep_meta d)) \<and> labels_valid (om_Labels (dep_meta d))
     \<and> (case dep_Selector d of Some sel \<Rightarrow> selects sel (pt_Labels (dep_Template d)) | None \<Rightarrow> False)
     \<and> template_valid (dep_Template d)"

definition service_valid :: "service \<Rightarrow> bool" where
  "service_valid s \<longleftrightarrow> dns_label (om_Name (svc_meta s)) \<and> labels_valid (om_Labels (svc_meta s))
     \<and> labels_valid (svc_Selector s) \<and> svc_Ports s \<noteq> []
     \<and> (\<forall>p \<in> set (svc_Ports s). dns_label (sp_Name p) \<and> 1 \<le> sint (sp_Port p) \<and> sint (sp_Port p) \<le> 65535)"

section \<open>Names\<close>

lemma length_dec_nat: "n < 10 ^ k \<Longrightarrow> 0 < k \<Longrightarrow> length (dec_nat n) \<le> k"
proof (induction n arbitrary: k rule: dec_nat.induct)
  case (1 n)
  show ?case
  proof (cases "n < 10")
    case True
    with "1.prems" show ?thesis by (subst dec_nat.simps) simp
  next
    case False
    from "1.prems"(2) obtain j where j: "k = Suc j" by (cases k) simp_all
    with "1.prems"(1) False have "j \<noteq> 0" by (intro notI) simp
    with j have k: "k = Suc j" "0 < j" by simp_all
    with "1.prems" have "n div 10 < 10 ^ j" by simp
    from "1.IH" [OF False this k(2)] False k show ?thesis by (subst dec_nat.simps) simp
  qed
qed

lemma dec_nat_is_digit: "list_all is_digit (dec_nat n)"
  by (auto simp: list_all_iff is_digit_def of_char_digit dest: dec_nat_digits)

lemma index_text:
  assumes "0 \<le> sint (i :: int32)"
  shows "itoa (sint i) \<noteq> []" and "length (itoa (sint i)) \<le> 10" and "list_all is_digit (itoa (sint i))"
proof -
  have "nat (sint i) < 10 ^ 10" using sint_int32_bounds [of i] by simp
  then show "length (itoa (sint i)) \<le> 10"
    using assms length_dec_nat [of "nat (sint i)" 10] by (simp add: itoa_def)
  show "list_all is_digit (itoa (sint i))" using assms dec_nat_is_digit by (simp add: itoa_def)
qed simp

lemma digit_end: "list_all is_digit s \<Longrightarrow> s \<noteq> [] \<Longrightarrow> is_digit (hd s) \<and> is_digit (last s)"
  by (auto simp: list_all_iff)

lemma role_names [simp]:
  "dns_label controllerRole" "dns_label brokerRole" "dns_label ''sysctl''" "dns_label ''script''"
  "dns_label ''k8tz''" "dns_label bootstrapName"
  by (simp_all add: dns_label_def is_lower_def is_digit_def controllerRole_def brokerRole_def
      bootstrapName_def getAutoMQName_def)

lemma replica_names:
  assumes "0 \<le> sint i"
  shows "dns_label (controllerName i)" and "dns_label (brokerName i)"
proof -
  note t = index_text [OF assms]
  from digit_end [OF t(3,1)] t(3) have
    d: "is_digit (last (itoa (sint i)))"
    "list_all (\<lambda>c. is_lower c \<or> is_digit c \<or> c = CHR ''-'') (itoa (sint i))"
    by (auto simp: list_all_iff)
  show "dns_label (controllerName i)" "dns_label (brokerName i)"
    using t d by (simp_all add: dns_label_def name_Some controllerRole_def brokerRole_def
        is_lower_def is_digit_def)
qed

lemma name_is_label_value: "resource_name s \<Longrightarrow> label_value s \<longleftrightarrow> length s \<le> 63"
  by (auto simp: resource_name_def label_value_def list_all_iff)

lemma role_label_values:
  "label_value controllerRole" "label_value brokerRole" "label_value ''automq''"
  "label_value ''autpmq-operator''"
  by (simp_all add: label_value_def is_lower_def is_upper_def is_digit_def controllerRole_def
      brokerRole_def)

lemma index_label_value: "0 \<le> sint (i :: int32) \<Longrightarrow> label_value (itoa (sint i))"
  using index_text [of i] digit_end [OF index_text(3,1), of i]
  by (auto simp: label_value_def list_all_iff)

lemma index_labels_valid:
  assumes "resource_name (mq_Name obj)" and "0 \<le> sint i"
  shows "labels_valid (controllerIndexLabels obj i) \<longleftrightarrow> length (mq_Name obj) \<le> 63"
    and "labels_valid (brokerIndexLabels obj i) \<longleftrightarrow> length (mq_Name obj) \<le> 63"
    and "role \<in> {controllerRole, brokerRole} \<Longrightarrow>
      labels_valid (getAutoMQLabelMap (mq_Name obj) role) \<longleftrightarrow> length (mq_Name obj) \<le> 63"
proof -
  have map_valid: "labels_valid ((getAutoMQLabelMap (mq_Name obj) role)(autoMQIndexKey \<mapsto> itoa (sint i)))
      \<longleftrightarrow> length (mq_Name obj) \<le> 63"
    "labels_valid (getAutoMQLabelMap (mq_Name obj) role) \<longleftrightarrow> length (mq_Name obj) \<le> 63"
    if "role \<in> {controllerRole, brokerRole}" for role
  proof -
    have "role \<noteq> ''''" "label_value role"
      using that role_label_values by (auto simp: controllerRole_def brokerRole_def)
    then show "labels_valid ((getAutoMQLabelMap (mq_Name obj) role)(autoMQIndexKey \<mapsto> itoa (sint i)))
        \<longleftrightarrow> length (mq_Name obj) \<le> 63"
      "labels_valid (getAutoMQLabelMap (mq_Name obj) role) \<longleftrightarrow> length (mq_Name obj) \<le> 63"
      using role_label_values index_label_value [OF assms(2)] name_is_label_value [OF assms(1)]
      by (simp_all add: getAutoMQLabelMap_def labels_valid_def autoMQIndexKey_def)
  qed
  show "labels_valid (controllerIndexLabels obj i) \<longleftrightarrow> length (mq_Name obj) \<le> 63"
    "labels_valid (brokerIndexLabels obj i) \<longleftrightarrow> length (mq_Name obj) \<le> 63"
    using map_valid(1) by (simp_all add: controllerIndexLabels_def brokerIndexLabels_def)
  show "role \<in> {controllerRole, brokerRole} \<Longrightarrow>
      labels_valid (getAutoMQLabelMap (mq_Name obj) role) \<longleftrightarrow> length (mq_Name obj) \<le> 63"
    using map_valid(2) by simp
qed


section \<open>What the operator builds\<close>

text \<open>The parts of the two templates that the rules look at.\<close>

definition replicaVolumes :: "'w reconciler \<Rightarrow> AutoMQ \<Rightarrow> string \<Rightarrow> volume list" where
  "replicaVolumes r obj deployName = kafkaVolumes (mq_Name obj) deployName @
     (if r_MountTZ r then [\<lparr>vol_Name = ''k8tz'', vol_Source = HostPathVolume ''/etc/localtime''\<rparr>]
      else [])"

definition podParts :: "string \<Rightarrow> volume list \<Rightarrow> string list \<Rightarrow> pod_template \<Rightarrow> bool" where
  "podParts role vs mounts t \<longleftrightarrow> pt_InitContainers t = [sysctlContainer] \<and> pt_Volumes t = vs
    \<and> (\<exists>c. pt_Containers t = [c] \<and> ct_Name c = role \<and> map cp_Name (ct_Ports c) = [role]
         \<and> ct_LivenessProbe c = Some (kafkaProbe role) \<and> map vm_Name (ct_VolumeMounts c) = mounts)"

lemma podParts_onContainer0:
  assumes "podParts role vs mounts t"
    and "\<And>c. ct_Name (f c) = ct_Name c" "\<And>c. ct_Ports (f c) = ct_Ports c"
      "\<And>c. ct_LivenessProbe (f c) = ct_LivenessProbe c" "\<And>c. ct_VolumeMounts (f c) = ct_VolumeMounts c"
  shows "podParts role vs mounts (onContainer0 f t)"
  using assms by (auto simp: podParts_def)

lemma podParts_add:
  assumes "podParts role vs mounts t"
  shows "podParts role vs mounts (addMetrics obj t)"
    and "podParts role vs mounts (setResources res t)"
    and "podParts role vs mounts (addUserEnvs envs t)"
proof -
  have envs: "podParts role vs mounts (onContainer0 (appendEnv es) u)"
    if "podParts role vs mounts u" for es u
    by (rule podParts_onContainer0 [OF that]) (simp_all add: appendEnv_def)
  have "podParts role vs mounts (u\<lparr>pt_Annotations := a\<rparr>) = podParts role vs mounts u" for u a
    by (simp add: podParts_def)
  with envs [OF assms] assms show "podParts role vs mounts (addMetrics obj t)"
    by (simp add: addMetrics_def Let_def)
  show "podParts role vs mounts (addUserEnvs e t)" for e
    using envs [OF assms] assms by (simp add: addUserEnvs_def)
  have res: "podParts role vs mounts (onContainer0 (\<lambda>c. c\<lparr>ct_Resources := g (ct_Resources c)\<rparr>) u)"
    if "podParts role vs mounts u" for g u
    by (rule podParts_onContainer0 [OF that]) simp_all
  show "podParts role vs mounts (setResources res t)"
    using assms res by (simp add: setResources_def Let_def)
qed

lemma podParts_timeZone:
  assumes "podParts role vs mounts t"
  shows "podParts role (vs @ (if m then [\<lparr>vol_Name = ''k8tz'', vol_Source = HostPathVolume ''/etc/localtime''\<rparr>] else []))
    (mounts @ (if m then [''k8tz''] else [])) (addTimeZone m t)"
  using assms by (auto simp: podParts_def addTimeZone_def)

lemma template_parts:
  "podParts controllerRole (replicaVolumes r obj n)
     ([n, ''script''] @ (if r_MountTZ r then [''k8tz''] else [])) (controllerTemplate r ctx obj i n t)"
  "podParts brokerRole (replicaVolumes r obj n)
     ([n, ''script''] @ (if r_MountTZ r then [''k8tz''] else [])) (brokerTemplate r ctx obj i p n t)"
  unfolding controllerTemplate_def brokerTemplate_def Let_def replicaVolumes_def
  by (intro podParts_add podParts_timeZone, simp add: podParts_def kafkaContainer_def)+

lemma template_valid_iff:
  assumes p: "podParts role (replicaVolumes r obj n)
     ([n, ''script''] @ (if r_MountTZ r then [''k8tz''] else [])) t"
    and role: "role \<in> {controllerRole, brokerRole}"
    and n: "dns_label n" "n \<noteq> ''script''" "n \<noteq> ''k8tz''"
  shows "template_valid t \<longleftrightarrow> labels_valid (pt_Labels t)"
proof -
  from p [unfolded podParts_def] obtain c where
    parts: "pt_InitContainers t = [sysctlContainer]" "pt_Volumes t = replicaVolumes r obj n"
    "pt_Containers t = [c]" and c: "ct_Name c = role" "map cp_Name (ct_Ports c) = [role]"
    "ct_LivenessProbe c = Some (kafkaProbe role)"
    "map vm_Name (ct_VolumeMounts c) = [n, ''script''] @ (if r_MountTZ r then [''k8tz''] else [])"
    by (elim conjE exE) (rule that)
  have vols: "map vol_Name (pt_Volumes t) = [''script'', n] @ (if r_MountTZ r then [''k8tz''] else [])"
    by (simp add: parts replicaVolumes_def kafkaVolumes_def)
  have role: "dns_label role" "length role \<le> 15" "role \<noteq> ''sysctl''"
    using role by (auto simp: controllerRole_def brokerRole_def dns_label_def is_lower_def)
  have "container_valid (pt_Volumes t) sysctlContainer"
    by (simp add: container_valid_def sysctlContainer_def zero_container_def)
  moreover have "container_valid (pt_Volumes t) c"
  proof -
    have "cp_Name ` set (ct_Ports c) = {role}" using arg_cong [OF c(2), of set] by simp
    then have "\<forall>p \<in> set (ct_Ports c). cp_Name p = role" "role \<in> cp_Name ` set (ct_Ports c)" by auto
    moreover have "vm_Name ` set (ct_VolumeMounts c) \<subseteq> vol_Name ` set (pt_Volumes t)"
      using arg_cong [OF c(4), of set] arg_cong [OF vols, of set] by (auto split: if_splits)
    ultimately show ?thesis
      using c role by (auto simp: container_valid_def kafkaProbe_def)
  qed
  moreover have "distinct (map vol_Name (pt_Volumes t))" using n by (simp add: vols)
  moreover have "\<forall>v \<in> set (pt_Volumes t). dns_label (vol_Name v)"
  proof
    fix v
    assume "v \<in> set (pt_Volumes t)"
    then have "vol_Name v \<in> set (map vol_Name (pt_Volumes t))" by simp
    then show "dns_label (vol_Name v)" using n by (auto simp: vols split: if_splits)
  qed
  moreover have "ct_Name sysctlContainer = ''sysctl''" by (simp add: sysctlContainer_def)
  ultimately show ?thesis using role c(1) by (auto simp: template_valid_def parts)
qed

lemma replica_name_not_volume:
  "controllerName i \<noteq> ''script''" "controllerName i \<noteq> ''k8tz''"
  "brokerName i \<noteq> ''script''" "brokerName i \<noteq> ''k8tz''"
  by (simp_all add: name_Some controllerRole_def)



end
