(* ===== verification/Webhook.thy ===== *)
theory Webhook
  imports ApiTypes Kube
begin

text \<open>
  The admission webhook (\<open>api/v1beta1/automq_webhook.go\<close>): defaulting, validation on create,
  update and delete. The type assertion on the old object panics for any other type. The
  interface \<open>admission\<close> states what the API server can rely on and derives what holds of every
  object that goes through the webhook, over any number of updates.
\<close>

section \<open>The code\<close>

definition defaultControllerJVM :: "string list" where
  "defaultControllerJVM = [''-Xms1g'', ''-Xmx1g'', ''-XX:MetaspaceSize=96m'']"

definition defaultBrokerJVM :: "string list" where
  "defaultBrokerJVM = [''-Xms1g'', ''-Xmx1g'', ''-XX:MetaspaceSize=96m'',
     ''-XX:MaxDirectMemorySize=1G'']"

text \<open>The eight assignments of \<open>Default\<close>, in the order of the code.\<close>

definition defaultImage :: "AutoMQSpec \<Rightarrow> AutoMQSpec" where
  "defaultImage s = (if spec_Image s = '''' then s\<lparr>spec_Image := DefaultImageName\<rparr> else s)"

definition defaultRegion :: "AutoMQSpec \<Rightarrow> AutoMQSpec" where
  "defaultRegion s = (if s3_Region (spec_S3 s) = ''''
     then s\<lparr>spec_S3 := (spec_S3 s)\<lparr>s3_Region := ''us-east-1''\<rparr>\<rparr> else s)"

definition defaultClusterID :: "AutoMQSpec \<Rightarrow> AutoMQSpec" where
  "defaultClusterID s = (if spec_ClusterID s = ''''
     then s\<lparr>spec_ClusterID := ''rZdE0DjZSrqy96PXrMUZVw''\<rparr> else s)"

definition defaultBucket :: "AutoMQSpec \<Rightarrow> AutoMQSpec" where
  "defaultBucket s = (if s3_Bucket (spec_S3 s) = ''''
     then s\<lparr>spec_S3 := (spec_S3 s)\<lparr>s3_Bucket := ''ko3''\<rparr>\<rparr> else s)"

definition defaultControllerJVMOptions :: "AutoMQSpec \<Rightarrow> AutoMQSpec" where
  "defaultControllerJVMOptions s = (if cs_JVMOptions (spec_Controller s) = None
     then s\<lparr>spec_Controller := (spec_Controller s)\<lparr>cs_JVMOptions := Some defaultControllerJVM\<rparr>\<rparr>
     else s)"

definition defaultControllerReplicas :: "AutoMQSpec \<Rightarrow> AutoMQSpec" where
  "defaultControllerReplicas s = (if cs_Replicas (spec_Controller s) = 0
     then s\<lparr>spec_Controller := (spec_Controller s)\<lparr>cs_Replicas := 1\<rparr>\<rparr> else s)"

definition defaultBrokerJVMOptions :: "AutoMQSpec \<Rightarrow> AutoMQSpec" where
  "defaultBrokerJVMOptions s = (if bs_JVMOptions (spec_Broker s) = None
     then s\<lparr>spec_Broker := (spec_Broker s)\<lparr>bs_JVMOptions := Some defaultBrokerJVM\<rparr>\<rparr> else s)"

definition defaultBrokerReplicas :: "AutoMQSpec \<Rightarrow> AutoMQSpec" where
  "defaultBrokerReplicas s = (if bs_Replicas (spec_Broker s) = 0
     then s\<lparr>spec_Broker := (spec_Broker s)\<lparr>bs_Replicas := 1\<rparr>\<rparr> else s)"

definition Default :: "AutoMQSpec \<Rightarrow> AutoMQSpec" where
  "Default s =
     (let s = defaultImage s;
          s = defaultRegion s;
          s = defaultClusterID s;
          s = defaultBucket s;
          s = defaultControllerJVMOptions s;
          s = defaultControllerReplicas s;
          s = defaultBrokerJVMOptions s
      in defaultBrokerReplicas s)"

definition required :: "string \<Rightarrow> goerror option" where
  "required field = Some (ErrorsNew (''field '' @ field @ '' is required''))"

definition immutable :: "string \<Rightarrow> goerror option" where
  "immutable field = Some (ErrorsNew (''field '' @ field @ '' is immutable''))"

text \<open>The three checks on the affinity of the controller.\<close>

definition validateAffinity :: "AffinitySpec \<Rightarrow> goerror option" where
  "validateAffinity a =
     (if (case af_PodAntiAffinity a of Some p \<Rightarrow> paa_Type p = '''' | None \<Rightarrow> False)
      then required ''controller.affinity.podAntiAffinity.type''
      else if (case af_PodAffinity a of Some p \<Rightarrow> pa_Type p = '''' | None \<Rightarrow> False)
      then required ''controller.affinity.podAffinity.type''
      else if (case af_NodeAffinity a of Some p \<Rightarrow> na_Type p = '''' | None \<Rightarrow> False)
      then required ''controller.affinity.nodeAffinity.type''
      else None)"

definition validate :: "AutoMQSpec \<Rightarrow> goerror option" where
  "validate s =
     (if s3_Endpoint (spec_S3 s) = '''' then required ''s3.Endpoint''
      else if s3_Region (spec_S3 s) = '''' then required ''s3.Region''
      else if s3_Bucket (spec_S3 s) = '''' then required ''s3.Bucket''
      else if spec_ClusterID s = '''' then required ''clusterID''
      else if spec_Image s = '''' then required ''image''
      else if length (slice (cs_JVMOptions (spec_Controller s))) = 0
        then required ''controller.jvmOptions''
      else if length (slice (bs_JVMOptions (spec_Broker s))) = 0
        then required ''broker.jvmOptions''
      else (case cs_Affinity (spec_Controller s) of
              None \<Rightarrow> None | Some a \<Rightarrow> validateAffinity a))"

definition ValidateCreate :: "AutoMQSpec \<Rightarrow> goerror option" where
  "ValidateCreate s = validate s"

definition ValidateUpdate_spec :: "AutoMQSpec \<Rightarrow> AutoMQSpec \<Rightarrow> goerror option" where
  "ValidateUpdate_spec s old =
     (if s3_Endpoint (spec_S3 s) \<noteq> s3_Endpoint (spec_S3 old) then immutable ''s3.Endpoint''
      else if s3_Region (spec_S3 s) \<noteq> s3_Region (spec_S3 old) then immutable ''s3.Region''
      else if s3_Bucket (spec_S3 s) \<noteq> s3_Bucket (spec_S3 old) then immutable ''s3.Bucket''
      else if spec_ClusterID s \<noteq> spec_ClusterID old then immutable ''clusterID''
      else if cs_Replicas (spec_Controller s) \<noteq> cs_Replicas (spec_Controller old)
        then immutable ''controller.replicas''
      else validate s)"

definition ValidateUpdate :: "AutoMQSpec \<Rightarrow> object \<Rightarrow> goerror option go" where
  "ValidateUpdate s old =
     (case old of
        ObjAutoMQ mqOld \<Rightarrow> Val (ValidateUpdate_spec s (mq_Spec mqOld))
      | _ \<Rightarrow> Panic ''interface conversion'')"

definition ValidateDelete :: "AutoMQSpec \<Rightarrow> goerror option" where
  "ValidateDelete s = None"

section \<open>The interface of an admission webhook\<close>

text \<open>
  The versions of a stored object, newest first: created after defaulting and validation, then
  updated, each new version defaulted and validated against the stored one.
\<close>

inductive history ::
  "('s \<Rightarrow> 's) \<Rightarrow> ('s \<Rightarrow> goerror option) \<Rightarrow> ('s \<Rightarrow> 's \<Rightarrow> goerror option) \<Rightarrow> 's list \<Rightarrow> bool"
  for dflt vcreate vupdate where
  create: "vcreate (dflt s) = None \<Longrightarrow> history dflt vcreate vupdate [dflt s]"
| update: "history dflt vcreate vupdate (old # h) \<Longrightarrow> vupdate (dflt s) old = None \<Longrightarrow>
    history dflt vcreate vupdate (dflt s # old # h)"

inductive_cases history_NilE: "history dflt vcreate vupdate []"
inductive_cases history_ConsE: "history dflt vcreate vupdate (s # h)"

locale admission =
  fixes dflt :: "'s \<Rightarrow> 's"
    and vcreate :: "'s \<Rightarrow> goerror option"
    and vupdate :: "'s \<Rightarrow> 's \<Rightarrow> goerror option"
    and fixed_part :: "'s \<Rightarrow> 'f"
  assumes dflt_idem: "dflt (dflt s) = dflt s"
    and vupdate_fixed: "vupdate s old = None \<Longrightarrow> fixed_part s = fixed_part old"
    and vupdate_valid: "vupdate s old = None \<Longrightarrow> vcreate s = None"
begin

lemma history_valid: "history dflt vcreate vupdate h \<Longrightarrow> s \<in> set h \<Longrightarrow> vcreate s = None"
  by (induction rule: history.induct) (auto dest: vupdate_valid)

lemma history_defaulted: "history dflt vcreate vupdate h \<Longrightarrow> s \<in> set h \<Longrightarrow> dflt s = s"
  by (induction rule: history.induct) (auto simp: dflt_idem)

lemma history_last: "history dflt vcreate vupdate h \<Longrightarrow> s \<in> set h \<Longrightarrow>
    fixed_part s = fixed_part (last h)"
proof (induction arbitrary: s rule: history.induct)
  case (create s0)
  then show ?case by simp
next
  case (update old h s0)
  have "fixed_part old = fixed_part (last (old # h))"
    by (rule update.IH) simp
  then have new: "fixed_part (dflt s0) = fixed_part (last (old # h))"
    using vupdate_fixed [OF update.hyps(2)] by simp
  show ?case
  proof (cases "s = dflt s0")
    case True
    then show ?thesis using new by simp
  next
    case False
    then have "s \<in> set (old # h)" using update.prems by simp
    then have "fixed_part s = fixed_part (last (old # h))" by (rule update.IH)
    then show ?thesis by simp
  qed
qed

lemma history_fixed:
  assumes "history dflt vcreate vupdate h" and "s \<in> set h" and "t \<in> set h"
  shows "fixed_part s = fixed_part t"
  using history_last [OF assms(1,2)] history_last [OF assms(1,3)] by simp

end

text \<open>The fields the code declares immutable.\<close>

definition immutableFields :: "AutoMQSpec \<Rightarrow> string \<times> string \<times> string \<times> string \<times> int32" where
  "immutableFields s = (s3_Endpoint (spec_S3 s), s3_Region (spec_S3 s), s3_Bucket (spec_S3 s),
     spec_ClusterID s, cs_Replicas (spec_Controller s))"

text \<open>A field keeps a value other than the empty one, and gets the default otherwise.\<close>

definition or_default :: "'a \<Rightarrow> 'a \<Rightarrow> 'a \<Rightarrow> 'a" where
  "or_default e d v = (if v = e then d else v)"

lemma or_default_idem [simp]: "or_default e d (or_default e d v) = or_default e d v"
  by (simp add: or_default_def)

lemma or_default_eq [simp]:
  "v \<noteq> e \<Longrightarrow> or_default e d v = v" "or_default e d e = d"
  "d \<noteq> e \<Longrightarrow> or_default e d v \<noteq> e"
  by (simp_all add: or_default_def)

lemma default_steps:
  "defaultImage s = s\<lparr>spec_Image := or_default '''' DefaultImageName (spec_Image s)\<rparr>"
  "defaultRegion s = s\<lparr>spec_S3 := (spec_S3 s)\<lparr>s3_Region := or_default '''' ''us-east-1'' (s3_Region (spec_S3 s))\<rparr>\<rparr>"
  "defaultClusterID s = s\<lparr>spec_ClusterID := or_default '''' ''rZdE0DjZSrqy96PXrMUZVw'' (spec_ClusterID s)\<rparr>"
  "defaultBucket s = s\<lparr>spec_S3 := (spec_S3 s)\<lparr>s3_Bucket := or_default '''' ''ko3'' (s3_Bucket (spec_S3 s))\<rparr>\<rparr>"
  "defaultControllerJVMOptions s = s\<lparr>spec_Controller := (spec_Controller s)
     \<lparr>cs_JVMOptions := or_default None (Some defaultControllerJVM) (cs_JVMOptions (spec_Controller s))\<rparr>\<rparr>"
  "defaultControllerReplicas s = s\<lparr>spec_Controller := (spec_Controller s)
     \<lparr>cs_Replicas := or_default 0 1 (cs_Replicas (spec_Controller s))\<rparr>\<rparr>"
  "defaultBrokerJVMOptions s = s\<lparr>spec_Broker := (spec_Broker s)
     \<lparr>bs_JVMOptions := or_default None (Some defaultBrokerJVM) (bs_JVMOptions (spec_Broker s))\<rparr>\<rparr>"
  "defaultBrokerReplicas s = s\<lparr>spec_Broker := (spec_Broker s)
     \<lparr>bs_Replicas := or_default 0 1 (bs_Replicas (spec_Broker s))\<rparr>\<rparr>"
  by (simp_all add: defaultImage_def defaultRegion_def defaultClusterID_def defaultBucket_def
      defaultControllerJVMOptions_def defaultControllerReplicas_def defaultBrokerJVMOptions_def
      defaultBrokerReplicas_def or_default_def)

lemma Default_sel [simp]:
  "spec_Image (Default s) = or_default '''' DefaultImageName (spec_Image s)"
  "spec_ClusterID (Default s) = or_default '''' ''rZdE0DjZSrqy96PXrMUZVw'' (spec_ClusterID s)"
  "spec_NodePort (Default s) = spec_NodePort s"
  "spec_Metrics (Default s) = spec_Metrics s"
  "spec_S3 (Default s) = (spec_S3 s)
     \<lparr>s3_Region := or_default '''' ''us-east-1'' (s3_Region (spec_S3 s)),
      s3_Bucket := or_default '''' ''ko3'' (s3_Bucket (spec_S3 s))\<rparr>"
  "spec_Controller (Default s) = (spec_Controller s)
     \<lparr>cs_JVMOptions := or_default None (Some defaultControllerJVM) (cs_JVMOptions (spec_Controller s)),
      cs_Replicas := or_default 0 1 (cs_Replicas (spec_Controller s))\<rparr>"
  "spec_Broker (Default s) = (spec_Broker s)
     \<lparr>bs_JVMOptions := or_default None (Some defaultBrokerJVM) (bs_JVMOptions (spec_Broker s)),
      bs_Replicas := or_default 0 1 (bs_Replicas (spec_Broker s))\<rparr>"
  by (simp_all add: Default_def Let_def default_steps)

lemma spec_eqI:
  assumes "spec_S3 a = spec_S3 b" "spec_ClusterID a = spec_ClusterID b"
    "spec_Image a = spec_Image b" "spec_NodePort a = spec_NodePort b"
    "spec_Metrics a = spec_Metrics b" "spec_Controller a = spec_Controller b"
    "spec_Broker a = spec_Broker b"
  shows "a = (b :: AutoMQSpec)"
  using assms by (cases a; cases b) simp

lemma Default_idem: "Default (Default s) = Default s"
  by (rule spec_eqI) simp_all

lemma required_Some [simp]: "required f \<noteq> None" "immutable f \<noteq> None"
  by (simp_all add: required_def immutable_def)

lemma ValidateUpdate_None_iff:
  "ValidateUpdate_spec s old = None \<longleftrightarrow>
     immutableFields s = immutableFields old \<and> validate s = None"
  by (simp add: ValidateUpdate_spec_def immutableFields_def)

lemma or_default_fix: "or_default e d v = v \<longleftrightarrow> v \<noteq> e \<or> d = e"
  by (simp add: or_default_def)

lemma Default_fix_iff:
  "Default s = s \<longleftrightarrow> spec_Image s \<noteq> '''' \<and> s3_Region (spec_S3 s) \<noteq> '''' \<and> spec_ClusterID s \<noteq> ''''
     \<and> s3_Bucket (spec_S3 s) \<noteq> '''' \<and> cs_JVMOptions (spec_Controller s) \<noteq> None
     \<and> cs_Replicas (spec_Controller s) \<noteq> 0 \<and> bs_JVMOptions (spec_Broker s) \<noteq> None
     \<and> bs_Replicas (spec_Broker s) \<noteq> 0" (is "?l \<longleftrightarrow> ?r")
proof
  assume ?l
  then have "spec_Image (Default s) = spec_Image s" "spec_ClusterID (Default s) = spec_ClusterID s"
    "s3_Region (spec_S3 (Default s)) = s3_Region (spec_S3 s)"
    "s3_Bucket (spec_S3 (Default s)) = s3_Bucket (spec_S3 s)"
    "cs_JVMOptions (spec_Controller (Default s)) = cs_JVMOptions (spec_Controller s)"
    "cs_Replicas (spec_Controller (Default s)) = cs_Replicas (spec_Controller s)"
    "bs_JVMOptions (spec_Broker (Default s)) = bs_JVMOptions (spec_Broker s)"
    "bs_Replicas (spec_Broker (Default s)) = bs_Replicas (spec_Broker s)" by simp_all
  then show ?r by (simp add: or_default_fix DefaultImageName_def)
next
  assume ?r
  then show ?l by (intro spec_eqI) simp_all
qed

lemma validate_Default_iff:
  "validate (Default s) = None \<longleftrightarrow> s3_Endpoint (spec_S3 s) \<noteq> ''''
     \<and> cs_JVMOptions (spec_Controller s) \<noteq> Some [] \<and> bs_JVMOptions (spec_Broker s) \<noteq> Some []
     \<and> (case cs_Affinity (spec_Controller s) of None \<Rightarrow> True | Some a \<Rightarrow> validateAffinity a = None)"
proof -
  have jvm: "slice (or_default None (Some d) v) = [] \<longleftrightarrow> v = Some []" if "d \<noteq> []"
    for v and d :: "string list"
    using that by (cases v) (simp_all add: or_default_def slice_def)
  have s: "or_default [] d v \<noteq> []" if "d \<noteq> []" for d v :: string
    using that by (simp add: or_default_def)
  show ?thesis
    by (simp add: validate_def jvm s defaultControllerJVM_def defaultBrokerJVM_def
        DefaultImageName_def split: option.split)
qed

interpretation automq_admission: admission Default ValidateCreate ValidateUpdate_spec immutableFields
  by unfold_locales (simp_all add: Default_idem ValidateUpdate_None_iff ValidateCreate_def)

end
