(* ===== verification/Topology.thy ===== *)
theory Topology
  imports MemOperator Webhook
begin

text \<open>
  The Kafka cluster the command lines of the pods describe: node ids, quorum voters, and their
  stability under the updates the webhook admits.
\<close>

text \<open>The value of a flag, as \<open>defaults/up.sh\<close> reads them: after the two words that select the
  action, the arguments are pairs.\<close>

fun flagValue :: "string \<Rightarrow> string list \<Rightarrow> string option" where
  "flagValue flag (x # y # args) = (if x = flag then Some y else flagValue flag args)"
| "flagValue flag _ = None"

lemma flag_node_id [simp]:
  "flagValue ''--node.id'' (controllerCmds obj i) = Some (itoa (sint i))"
  "flagValue ''--node.id'' (brokerCmds obj i) =
    Some (itoa (sint (i + cs_Replicas (controllerSpec obj))))"
  by (simp_all add: controllerCmds_def brokerCmds_def)

lemma flag_voters [simp]:
  "flagValue ''--controller.quorum.voters'' (controllerCmds obj i) =
    Some (join '','' (controllerVoters obj))"
  "flagValue ''--controller.quorum.voters'' (brokerCmds obj i) =
    Some (join '','' (controllerVoters obj))"
  by (simp_all add: controllerCmds_def brokerCmds_def)

section \<open>Node ids\<close>

definition controllerCount :: "AutoMQ \<Rightarrow> int" where
  "controllerCount obj = sint (cs_Replicas (controllerSpec obj))"

definition brokerCount :: "AutoMQ \<Rightarrow> int" where
  "brokerCount obj = sint (bs_Replicas (brokerSpec obj))"

definition nodeIds :: "AutoMQ \<Rightarrow> string option list" where
  "nodeIds obj =
     map (\<lambda>i. flagValue ''--node.id'' (controllerCmds obj (word_of_int i))) [0..controllerCount obj - 1]
     @ map (\<lambda>i. flagValue ''--node.id'' (brokerCmds obj (word_of_int i))) [0..brokerCount obj - 1]"

lemma count_bounds: "controllerCount obj < 2 ^ 31" "brokerCount obj < 2 ^ 31"
  using sint_int32_bounds by (simp_all add: controllerCount_def brokerCount_def)

lemma broker_node_id:
  assumes "0 \<le> i" and "0 \<le> controllerCount obj" and "i + controllerCount obj < 2 ^ 31"
  shows "sint (word_of_int i + cs_Replicas (controllerSpec obj)) = i + controllerCount obj"
proof -
  have "word_of_int i + cs_Replicas (controllerSpec obj) =
      (word_of_int (i + controllerCount obj) :: int32)"
    by (simp add: controllerCount_def)
  also have "sint \<dots> = i + controllerCount obj" using assms by (intro sint_of_int32) auto
  finally show ?thesis .
qed

lemma nodeIds_eq:
  assumes "0 \<le> controllerCount obj" and "0 \<le> brokerCount obj"
    and "controllerCount obj + brokerCount obj \<le> 2 ^ 31"
  shows "nodeIds obj = map (Some \<circ> itoa) [0..controllerCount obj + brokerCount obj - 1]"
proof -
  let ?C = "controllerCount obj" and ?B = "brokerCount obj"
  have a: "map (\<lambda>i. flagValue ''--node.id'' (controllerCmds obj (word_of_int i))) [0..?C - 1] =
      map (Some \<circ> itoa) [0..?C - 1]"
    using count_bounds [of obj] by (auto simp: sint_of_int32)
  have b: "map (\<lambda>i. flagValue ''--node.id'' (brokerCmds obj (word_of_int i))) [0..?B - 1] =
      map (Some \<circ> itoa) (map (\<lambda>i. i + ?C) [0..?B - 1])"
    using assms by (auto simp: broker_node_id)
  have c: "map (\<lambda>i. i + ?C) [0..?B - 1] = [?C..?C + ?B - 1]"
    using assms(2) by (intro nth_equalityI) auto
  have d: "[0..?C - 1] @ [?C..?C + ?B - 1] = [0..?C + ?B - 1]"
    using upto_split1 [of 0 ?C "?C + ?B - 1"] assms by (cases "?B = 0") auto
  show ?thesis unfolding nodeIds_def a b c by (simp only: d flip: map_append)
qed

text \<open>
  C6: the node ids on the command lines of all controller and broker pods are the numbers from 0
  up to the number of nodes, each once, as long as their number fits in 31 bits: no two nodes of
  the cluster share an id although the two loops number their replicas from 0.
\<close>

theorem node_ids_unique:
  assumes "0 \<le> controllerCount obj" and "0 \<le> brokerCount obj"
    and "controllerCount obj + brokerCount obj \<le> 2 ^ 31"
  shows "nodeIds obj = map (Some \<circ> itoa) [0..controllerCount obj + brokerCount obj - 1]
    \<and> distinct (nodeIds obj)"
  using nodeIds_eq [OF assms] by (simp add: distinct_map inj_on_def)

theorem node_ids_unique_witness:
  "nodeIds (sample ''mq'') = [Some (itoa 0), Some (itoa 1)] \<and> distinct (nodeIds (sample ''mq''))"
  using node_ids_unique [of "sample ''mq''"]
  by (simp add: controllerCount_def brokerCount_def upto_rec1)

section \<open>Quorum voters\<close>

lemma split_on_no_sep: "sep \<notin> set s \<Longrightarrow> split_on sep s = [s]"
  by (induction s) auto

lemma split_on_append_sep:
  "sep \<notin> set p \<Longrightarrow> split_on sep (p @ sep # s) = p # split_on sep s"
  by (induction p) auto

lemma split_on_join:
  "ps \<noteq> [] \<Longrightarrow> (\<And>p. p \<in> set ps \<Longrightarrow> sep \<notin> set p) \<Longrightarrow> split_on sep (join [sep] ps) = ps"
proof (induction ps)
  case (Cons p ps)
  then show ?case
    by (cases ps) (auto simp: split_on_no_sep split_on_append_sep)
qed simp

lemma comma_notin_itoa: "CHR '','' \<notin> set (itoa i)"
  using itoa_code_range [of "CHR '',''" i] by auto

lemma comma_notin_voter:
  "CHR '','' \<notin> set (mq_Namespace obj) \<Longrightarrow> CHR '','' \<notin> set (voter obj i)"
  by (simp add: voter_def name_Some controllerRole_def comma_notin_itoa)

text \<open>
  C7: every pod, controller or broker, is given the same list of quorum voters, and splitting it
  at the commas gives one entry per controller: its node id, as on that controller's own command
  line, and the address of that controller's service at the port the service exposes. The one
  thing asked of the namespace, that it has no comma, holds of every name Kubernetes accepts.
\<close>

theorem voters_name_controllers:
  assumes "CHR '','' \<notin> set (mq_Namespace obj)"
    and "0 \<le> j" and "j < controllerCount obj"
  shows "\<exists>v id. flagValue ''--controller.quorum.voters'' (controllerCmds obj i) = Some v
    \<and> flagValue ''--controller.quorum.voters'' (brokerCmds obj i') = Some v
    \<and> length (split_on CHR '','' v) = nat (controllerCount obj)
    \<and> flagValue ''--node.id'' (controllerCmds obj (word_of_int j)) = Some id
    \<and> split_on CHR '','' v ! nat j = id @ ''@'' @ controllerName (word_of_int j) @ ''.''
        @ mq_Namespace obj @ ''.svc:''
        @ itoa (sint (sp_Port (hd (svc_Ports (controllerService_mutate obj (word_of_int j)
            (new_service (mq_Namespace obj) (controllerName (word_of_int j))))))))"
proof -
  have ne: "controllerVoters obj \<noteq> []"
    using assms(2,3) length_controllerVoters [of obj] by (auto simp: controllerCount_def)
  have split: "split_on CHR '','' (join '','' (controllerVoters obj)) = controllerVoters obj"
    using ne comma_notin_voter [OF assms(1)]
    by (intro split_on_join) (auto simp: controllerVoters_eq)
  have "controllerVoters obj ! nat j = voter obj j"
    using assms(2,3) by (simp add: controllerVoters_eq controllerCount_def)
  moreover have "sint (word_of_int j :: int32) = j"
    using assms(2,3) count_bounds(1) [of obj] by (intro sint_of_int32) auto
  ultimately show ?thesis
    using split length_controllerVoters [of obj]
    by (simp add: controllerCount_def voter_def controllerService_mutate_def)
qed

theorem voters_name_controllers_witness:
  "\<exists>v. flagValue ''--controller.quorum.voters'' (brokerCmds (sample ''mq'') 0) = Some v
    \<and> length (split_on CHR '','' v) = 1"
  using voters_name_controllers [of "sample ''mq''" 0 0 0]
  by (auto simp: controllerCount_def)


section \<open>Stability under admitted updates\<close>

lemma immutable_voters:
  assumes "immutableFields (mq_Spec a) = immutableFields (mq_Spec b)"
    and "mq_Namespace a = mq_Namespace b"
  shows "controllerVoters a = controllerVoters b"
  using assms by (simp add: controllerVoters_eq voter_def immutableFields_def)

text \<open>
  C17: two versions of a custom resource that went through the webhook, however many updates lie
  between them, put the same command line on every controller and broker pod, up to the last
  argument (the path style of the object store, which may change): node ids, voters, cluster id,
  bucket, endpoint and region of a running cluster never change, also when brokers are added.
\<close>

theorem topology_stable:
  assumes "history Default ValidateCreate ValidateUpdate_spec h"
    and "mq_Spec a \<in> set h" and "mq_Spec b \<in> set h"
    and "mq_Namespace a = mq_Namespace b"
  shows "butlast (controllerCmds a i) = butlast (controllerCmds b i)
    \<and> butlast (brokerCmds a i) = butlast (brokerCmds b i)"
proof -
  have f: "immutableFields (mq_Spec a) = immutableFields (mq_Spec b)"
    by (rule automq_admission.history_fixed [OF assms(1-3)])
  note v = immutable_voters [OF f assms(4)]
  from f show ?thesis
    by (simp add: controllerCmds_def brokerCmds_def v immutableFields_def)
qed

definition sampleScaled :: AutoMQSpec where
  "sampleScaled = sampleSpec\<lparr>spec_Broker := (spec_Broker sampleSpec)\<lparr>bs_Replicas := 3\<rparr>\<rparr>"

lemma sample_valid: "Default sampleSpec = sampleSpec" "validate sampleSpec = None"
    "Default sampleScaled = sampleScaled" "validate sampleScaled = None"
    "immutableFields sampleScaled = immutableFields sampleSpec"
  by (simp_all add: Default_def Let_def default_steps validate_def sampleScaled_def sampleSpec_def
      zero_spec_def DefaultImageName_def immutableFields_def slice_def)

lemma sample_history:
  "history Default ValidateCreate ValidateUpdate_spec [sampleScaled, sampleSpec]"
proof -
  have "history Default ValidateCreate ValidateUpdate_spec [Default sampleSpec]"
    by (rule history.create) (simp add: ValidateCreate_def sample_valid)
  then have "history Default ValidateCreate ValidateUpdate_spec [Default sampleScaled, sampleSpec]"
    by (intro history.update) (simp_all add: ValidateUpdate_None_iff sample_valid)
  then show ?thesis by (simp add: sample_valid)
qed

theorem topology_stable_witness:
  "butlast (brokerCmds ((sample ''mq'')\<lparr>mq_Spec := sampleScaled\<rparr>) 0) =
    butlast (brokerCmds (sample ''mq'') 0)"
  using topology_stable [OF sample_history, of "(sample ''mq'')\<lparr>mq_Spec := sampleScaled\<rparr>" "sample ''mq''"]
  by simp

section \<open>Admission\<close>

text \<open>
  Defaulting twice is defaulting once, and an object is left as it is exactly when none of
  the eight defaulted fields has its empty value.
\<close>

theorem Default_fixpoints:
  "Default (Default s) = Default s
    \<and> (Default s = s \<longleftrightarrow> spec_Image s \<noteq> '''' \<and> s3_Region (spec_S3 s) \<noteq> '''' \<and> spec_ClusterID s \<noteq> ''''
         \<and> s3_Bucket (spec_S3 s) \<noteq> '''' \<and> cs_JVMOptions (spec_Controller s) \<noteq> None
         \<and> cs_Replicas (spec_Controller s) \<noteq> 0 \<and> bs_JVMOptions (spec_Broker s) \<noteq> None
         \<and> bs_Replicas (spec_Broker s) \<noteq> 0)"
  by (auto simp: automq_admission.dflt_idem Default_fix_iff)


text \<open>
  C18: every version of an object that went through the webhook is valid, is a fixed point of
  defaulting, and agrees with every other version on the immutable fields.
\<close>

theorem stored_versions:
  assumes "history Default ValidateCreate ValidateUpdate_spec h" and "s \<in> set h" and "t \<in> set h"
  shows "validate s = None \<and> Default s = s \<and> immutableFields s = immutableFields t"
  using automq_admission.history_valid [OF assms(1,2)] automq_admission.history_defaulted [OF assms(1,2)]
    automq_admission.history_fixed [OF assms] by (simp add: ValidateCreate_def)

theorem stored_versions_witness:
  "validate sampleScaled = None \<and> Default sampleScaled = sampleScaled
    \<and> immutableFields sampleScaled = immutableFields sampleSpec"
  by (rule stored_versions [OF sample_history]) simp_all

text \<open>
  Validation looks neither at the affinity of the brokers, whose types it requires of the
  controllers, nor at the replica counts: any number, also a negative one, is accepted.
\<close>

theorem validation_ignores:
  "validate (s\<lparr>spec_Broker := (spec_Broker s)\<lparr>bs_Affinity := a, bs_Replicas := n\<rparr>,
       spec_Controller := (spec_Controller s)\<lparr>cs_Replicas := m\<rparr>\<rparr>) = validate s"
  by (simp add: validate_def)

end
