(* ===== verification/Restore.thy ===== *)
theory Restore
  imports Assets
begin

text \<open>
  Restoring the embedded assets to a file system: \<open>RestoreAssets\<close> returns for every name, whatever
  the file system does, and a run that reports success has written exactly the script, to the
  path of its name below the given directory.
\<close>

section \<open>The names of the table and of the tree\<close>

lemma cannonicalName_idem [simp]: "cannonicalName (cannonicalName name) = cannonicalName name"
  by (simp add: cannonicalName_def)

lemma cannonicalName_plain:
  "CHR ''/'' \<notin> set (cannonicalName name) \<Longrightarrow> cannonicalName name = name"
  unfolding cannonicalName_def by (rule map_idI) (force simp: image_iff split: if_splits)

lemma Asset_eq:
  "Asset content name = (if cannonicalName name = ''defaults/up.sh'' then Inr content
     else Inl (asset_not_found ''Asset'' name))"
  by (simp add: Asset_def bindata_def defaultsUpSh_def defaultsUpShBytes_def bindataRead_def)

lemma AssetInfo_eq:
  "AssetInfo content name = (if cannonicalName name = ''defaults/up.sh''
     then Inr \<lparr>fi_name = ''defaults/up.sh'', fi_size = 12502, fi_mode = 420, fi_modTime = 1728839086\<rparr>
     else Inl (asset_not_found ''AssetInfo'' name))"
  by (simp add: AssetInfo_def bindata_def defaultsUpSh_def defaultsUpShBytes_def bindataRead_def)

lemma bt_walk_root:
  "bt_walk (bintree_root content) ps = Some node \<Longrightarrow>
    ps = [] \<or> ps = [''defaults''] \<or> ps = [''defaults'', ''up.sh''] \<and> bt_Func node \<noteq> None"
  by (cases ps rule: remdups_adj.cases; cases "tl (tl ps)")
    (auto simp: bintree_root_def split: if_splits)

lemma AssetDir_root: "AssetDir content '''' = Inr [''defaults'']"
  by (simp add: AssetDir_def bintree_root_def)

lemma AssetDir_defaults: "AssetDir content ''defaults'' = Inr [''up.sh'']"
  by (simp add: AssetDir_def bintree_root_def cannonicalName_def)

lemma AssetDir_other:
  assumes "name \<noteq> ''''" and "name \<noteq> ''defaults''"
  shows "\<exists>e. AssetDir content name = Inl e"
proof -
  let ?ps = "split_on (CHR ''/'') (cannonicalName name)"
  have "?ps \<noteq> [''defaults'']"
  proof
    assume s: "?ps = [''defaults'']"
    have "cannonicalName name = ''defaults''"
      using join_split_on [of "CHR ''/''" "cannonicalName name"] s by simp
    then have "cannonicalName name = name" by (intro cannonicalName_plain) simp
    with \<open>cannonicalName name = ''defaults''\<close> assms(2) show False by simp
  qed
  then show ?thesis
    using assms(1) bt_walk_root [of content ?ps] split_on_not_Nil [of "CHR ''/''"]
    by (cases "bt_walk (bintree_root content) ?ps") (auto simp: AssetDir_def)
qed

lemma range_children_single: "range_children f [c] w = f c w"
  by (cases "f c w") (auto split: option.splits)

text \<open>The asset a call of \<open>RestoreAssets\<close> gets to: the two directories hold only the script.\<close>

definition restored :: "string \<Rightarrow> string" where
  "restored name = (if name = '''' \<or> name = ''defaults'' then ''defaults/up.sh'' else name)"

lemma RestoreAssets_file:
  "name \<noteq> '''' \<Longrightarrow> name \<noteq> ''defaults'' \<Longrightarrow>
    RestoreAssets (Suc n) F content dir name w = Some (RestoreAsset F content dir name w)"
  using AssetDir_other [of name content] by auto

lemma Join_defaults: "path_Join ['''', ''defaults''] = ''defaults''"
  "path_Join [''defaults'', ''up.sh''] = ''defaults/up.sh''"
  by (simp_all add: Join_plain plain_def)

lemma RestoreAsset_unknown:
  "cannonicalName name \<noteq> ''defaults/up.sh'' \<Longrightarrow>
    RestoreAsset F content dir name w = (Some (asset_not_found ''Asset'' name), w)"
  by (simp add: RestoreAsset_def Asset_eq)

lemma RestoreAssets_eq:
  "RestoreAssets (3 + n) F content dir name w =
     Some (if cannonicalName (restored name) = ''defaults/up.sh''
           then RestoreAsset F content dir (restored name) w
           else (Some (asset_not_found ''Asset'' name), w))"
proof -
  have sh: "RestoreAssets (Suc m) F content dir ''defaults/up.sh'' w
      = Some (RestoreAsset F content dir ''defaults/up.sh'' w)" for m
    by (rule RestoreAssets_file) simp_all
  have df: "RestoreAssets (Suc (Suc m)) F content dir ''defaults'' w
      = Some (RestoreAsset F content dir ''defaults/up.sh'' w)" for m
    using sh [of m]
    by (subst RestoreAssets.simps(2))
      (simp add: AssetDir_defaults range_children_single Join_defaults del: RestoreAssets.simps
        range_children.simps)
  have rt: "RestoreAssets (Suc (Suc (Suc n))) F content dir '''' w
      = Some (RestoreAsset F content dir ''defaults/up.sh'' w)"
    using df [of n]
    by (subst RestoreAssets.simps(2))
      (simp add: AssetDir_root range_children_single Join_defaults del: RestoreAssets.simps
        range_children.simps)
  have up: "cannonicalName ''defaults/up.sh'' = ''defaults/up.sh''" by (simp add: cannonicalName_def)
  consider "name = ''''" | "name = ''defaults''" | "name \<noteq> ''''" "name \<noteq> ''defaults''" by blast
  then show ?thesis
    by cases (simp_all add: restored_def rt df up RestoreAssets_file RestoreAsset_unknown
        numeral_3_eq_3 del: RestoreAssets.simps)
qed

section \<open>Restoring returns\<close>

text \<open>
  C37: \<open>RestoreAssets\<close> returns for every name and directory, whatever the file system answers: three
  nested calls are enough. It restores the one asset the name leads to, and for a name that
  leads to none it reports that, and touches no file.
\<close>

theorem restore_returns:
  "RestoreAssets (3 + n) F content dir name w =
     Some (if cannonicalName (restored name) = ''defaults/up.sh''
           then RestoreAsset F content dir (restored name) w
           else (Some (asset_not_found ''Asset'' name), w))"
  by (rule RestoreAssets_eq)

section \<open>What is restored\<close>

text \<open>
  The documented behaviour of \<open>os\<close> on the contents of files, read with \<open>rd\<close>: making directories
  and changing times leave them, a write that succeeds stores the data, one that fails may only
  have damaged the file it was to write.
\<close>

definition fs_laws :: "'w os_fs \<Rightarrow> ('w \<Rightarrow> string \<rightharpoonup> string) \<Rightarrow> bool" where
  "fs_laws F rd \<longleftrightarrow>
     (\<forall>p m w. rd (snd (os_MkdirAll F p m w)) = rd w)
   \<and> (\<forall>p a t w. rd (snd (os_Chtimes F p a t w)) = rd w)
   \<and> (\<forall>p d m w w'. os_WriteFile F p d m w = (None, w') \<longrightarrow> rd w' = (rd w)(p \<mapsto> d))
   \<and> (\<forall>p d m w q. q \<noteq> p \<longrightarrow> rd (snd (os_WriteFile F p d m w)) q = rd w q)"

lemma fs_lawsD:
  assumes "fs_laws F rd"
  shows "os_MkdirAll F p m w = (e, w') \<Longrightarrow> rd w' = rd w"
    and "os_Chtimes F p a t w = (e, w') \<Longrightarrow> rd w' = rd w"
    and "os_WriteFile F p d m w = (None, w') \<Longrightarrow> rd w' = (rd w)(p \<mapsto> d)"
    and "os_WriteFile F p d m w = (e, w') \<Longrightarrow> q \<noteq> p \<Longrightarrow> rd w' q = rd w q"
  using assms unfolding fs_laws_def by (metis snd_conv)+

lemma filePath_known:
  assumes "cannonicalName name = ''defaults/up.sh''"
  shows "filePath dir name = path_Join [dir, ''defaults'', ''up.sh'']"
  using assms by (simp add: filePath_def)

lemma RestoreAsset_contents:
  assumes laws: "fs_laws F rd" and run: "RestoreAsset F content dir name w = (e, w')"
    and q: "q \<noteq> filePath dir name"
  shows "rd w' q = rd w q"
proof -
  obtain e1 w1 where 1: "os_MkdirAll F (filePath dir (path_Dir name)) 493 w = (e1, w1)" by fastforce
  obtain e2 w2 where 2: "os_WriteFile F (filePath dir name) content 420 w1 = (e2, w2)" by fastforce
  obtain e3 w3 where 3: "os_Chtimes F (filePath dir name) 1728839086 1728839086 w2 = (e3, w3)"
    by fastforce
  from fs_lawsD(1) [OF laws 1] fs_lawsD(4) [OF laws 2 q] fs_lawsD(2) [OF laws 3]
  have "rd w1 q = rd w q" "rd w2 q = rd w q" "rd w3 q = rd w q" by simp_all
  with run 1 2 3 show ?thesis
    by (auto simp: RestoreAsset_def Asset_eq AssetInfo_eq split: if_splits option.splits)
qed

lemma RestoreAsset_success:
  assumes laws: "fs_laws F rd" and run: "RestoreAsset F content dir name w = (None, w')"
  shows "cannonicalName name = ''defaults/up.sh'' \<and> rd w' = (rd w)(filePath dir name \<mapsto> content)"
  using run fs_lawsD(1,2,3) [OF laws]
  by (fastforce simp: RestoreAsset_def Asset_eq AssetInfo_eq split: if_splits option.splits prod.splits)

text \<open>
  C38: what \<open>RestoreAssets\<close> writes is what \<open>Asset\<close> reads: when it returns nil, the file
  \<open>defaults/up.sh\<close> below the directory holds the bytes of the embedded script, and no other file
  has changed; when it fails, no other file has changed either.
\<close>

theorem restore_roundtrip:
  assumes "fs_laws F rd"
    and "RestoreAssets (3 + n) F content dir name w = Some (e, w')"
  shows "(e = None \<longrightarrow> Asset content (restored name) = Inr content
        \<and> rd w' = (rd w)(path_Join [dir, ''defaults'', ''up.sh''] \<mapsto> content))
    \<and> (\<forall>q. q \<noteq> path_Join [dir, ''defaults'', ''up.sh''] \<longrightarrow> rd w' q = rd w q)"
proof (cases "cannonicalName (restored name) = ''defaults/up.sh''")
  case True
  have run: "RestoreAsset F content dir (restored name) w = (e, w')"
    using assms(2) True unfolding RestoreAssets_eq by simp
  note p = filePath_known [OF True, of dir]
  have "rd w' q = rd w q" if "q \<noteq> path_Join [dir, ''defaults'', ''up.sh'']" for q
    using RestoreAsset_contents [OF assms(1) run] that unfolding p by blast
  moreover have "Asset content (restored name) = Inr content" by (simp add: Asset_eq True)
  moreover have "rd w' = (rd w)(path_Join [dir, ''defaults'', ''up.sh''] \<mapsto> content)" if "e = None"
    using RestoreAsset_success [OF assms(1), of content dir "restored name" w w'] run that p by simp
  ultimately show ?thesis by blast
next
  case False
  with assms(2) have "e = Some (asset_not_found ''Asset'' name)" "w' = w"
    unfolding RestoreAssets_eq by simp_all
  then show ?thesis by simp
qed

text \<open>A file system that keeps the contents in a map.\<close>

definition mapFs :: "(string \<rightharpoonup> string) os_fs" where
  "mapFs = \<lparr>os_MkdirAll = (\<lambda>_ _ w. (None, w)), os_WriteFile = (\<lambda>p d _ w. (None, w(p \<mapsto> d))),
     os_Chtimes = (\<lambda>_ _ _ w. (None, w))\<rparr>"

theorem restore_roundtrip_witness:
  "\<exists>w'. RestoreAssets 3 mapFs ''#!/bin/sh'' ''/tmp'' '''' Map.empty = Some (None, w')
    \<and> w' = [''/tmp/defaults/up.sh'' \<mapsto> ''#!/bin/sh'']"
proof -
  let ?w = "[''/tmp/defaults/up.sh'' \<mapsto> ''#!/bin/sh'']"
  have p: "path_Join [''/tmp'', ''defaults'', ''up.sh''] = ''/tmp/defaults/up.sh''"
    by (simp add: path_Join_def path_Clean_def)
  have laws: "fs_laws mapFs (\<lambda>w. w)" by (simp add: fs_laws_def mapFs_def)
  have run: "\<exists>w'. RestoreAssets (3 + 0) mapFs ''#!/bin/sh'' ''/tmp'' '''' Map.empty = Some (None, w')"
    unfolding RestoreAssets_eq
    by (simp add: restored_def cannonicalName_def RestoreAsset_def AssetInfo_def bindata_def
        defaultsUpSh_def defaultsUpShBytes_def bindataRead_def mapFs_def)
  then obtain w' where r: "RestoreAssets (3 + 0) mapFs ''#!/bin/sh'' ''/tmp'' '''' Map.empty = Some (None, w')"
    by blast
  from restore_roundtrip [OF laws r] p have "w' = ?w" by simp
  with r show ?thesis by simp
qed

end
