(* ===== verification/Addresses.thy ===== *)
theory Addresses
  imports Storage GoPath
begin

text \<open>
  Object addresses (\<open>getBucketKeyFromS3\<close>, \<open>HeadObjectFromAddress\<close> and \<open>HeadObjectFromNewURIs\<close> of
  \<open>internal/pkg/storage/s3.go\<close>): taking the bucket and the key from the path of a URL, and
  building the address of the object at another host. \<open>parse\<close> is \<open>url.Parse\<close> as far as the code
  looks at its result, the unescaped path; \<open>intn\<close> is the draw of \<open>rand.Intn\<close>.
\<close>

definition getBucketKeyFromS3 ::
  "(string \<Rightarrow> goerror + string) \<Rightarrow> string \<Rightarrow> goerror + (string \<times> string)" where
  "getBucketKeyFromS3 parse address =
     (case parse address of
        Inl err \<Rightarrow> Inl err
      | Inr urlPath \<Rightarrow>
          if length urlPath = 0 then Inl (ErrorsNew ''path is empty'')
          else (let (dir, filename) = path_split urlPath
                in if length dir = 0 then Inl (ErrorsNew ''path is invalid'')
                   else if length filename = 0 then Inl (ErrorsNew ''path is invalid'')
                   else Inr (trim_char (CHR ''/'') dir, filename)))"

definition HeadObjectFromAddress ::
  "(string \<Rightarrow> goerror + string) \<Rightarrow> s3Service \<Rightarrow> string \<Rightarrow> goerror + (string \<times> string)" where
  "HeadObjectFromAddress parse s address = getBucketKeyFromS3 parse address"

text \<open>\<open>rand.Intn\<close> panics unless its argument is positive.\<close>

definition HeadObjectFromNewURIs ::
  "(string \<Rightarrow> goerror + string) \<Rightarrow> (nat \<Rightarrow> nat) \<Rightarrow> s3Service \<Rightarrow> string \<Rightarrow> string \<Rightarrow> string \<Rightarrow>
     string list \<Rightarrow> (goerror + string) go" where
  "HeadObjectFromNewURIs parse intn s address insertBucket insertObject newURIs =
     (case HeadObjectFromAddress parse s address of
        Inl err \<Rightarrow> Val (Inl err)
      | Inr (bucket, object) \<Rightarrow>
          if length newURIs = 0 then Panic ''invalid argument to Intn''
          else (let newURI = newURIs ! intn (length newURIs);
                    bucket = (if insertBucket \<noteq> '''' then bucket @ ''_'' @ insertBucket else bucket)
                in Val (Inr (''http://'' @ path_Join [newURI, bucket, insertObject, object]))))"

section \<open>Facts\<close>

lemma path_split_last:
  "CHR ''/'' \<notin> set k \<Longrightarrow> path_split (d @ ''/'' @ k) = (d @ ''/'', k)"
  by (simp add: path_split_def takeWhile_append dropWhile_append takeWhile_eq_all_conv
      dropWhile_eq_Nil_conv)

lemma dropWhile_id: "xs = [] \<or> \<not> P (hd xs) \<Longrightarrow> dropWhile P xs = xs"
  by (cases xs) auto

lemma trim_slashes:
  assumes "d \<noteq> ''''" and "hd d \<noteq> CHR ''/''" and "last d \<noteq> CHR ''/''"
  shows "trim_char (CHR ''/'') (''/'' @ d @ ''/'') = d"
  using assms by (simp add: trim_char_def dropWhile_id hd_append hd_rev)

text \<open>The path of an object: a slash, the directory, a slash, the file.\<close>

lemma getBucketKey_path:
  assumes "parse address = Inr (''/'' @ d @ ''/'' @ k)"
    and "d \<noteq> ''''" "hd d \<noteq> CHR ''/''" "last d \<noteq> CHR ''/''" and "k \<noteq> ''''" "CHR ''/'' \<notin> set k"
  shows "getBucketKeyFromS3 parse address = Inr (d, k)"
proof -
  have "path_split ((''/'' @ d) @ ''/'' @ k) = ((''/'' @ d) @ ''/'', k)"
    by (rule path_split_last) fact
  then have "path_split (''/'' @ d @ ''/'' @ k) = (''/'' @ d @ ''/'', k)" by simp
  with assms trim_slashes [OF assms(2-4)] show ?thesis by (simp add: getBucketKeyFromS3_def)
qed

lemma plain_ends: "plain b \<Longrightarrow> b \<noteq> '''' \<and> hd b \<noteq> CHR ''/'' \<and> last b \<noteq> CHR ''/''"
  by (auto simp: plain_def) (metis hd_in_set, metis last_in_set)

lemma plain_underscore: "plain b \<Longrightarrow> CHR ''/'' \<notin> set i \<Longrightarrow> plain (b @ ''_'' @ i)"
  by (cases b) (auto simp: plain_def append_eq_Cons_conv)

section \<open>Rewriting an address\<close>

text \<open>The bucket an address is rewritten to, and the directories between it and the key.\<close>

definition newBucket :: "string \<Rightarrow> string \<Rightarrow> string" where
  "newBucket b i = (if i = '''' then b else b @ ''_'' @ i)"

definition newDir :: "string \<Rightarrow> string \<Rightarrow> string \<Rightarrow> string" where
  "newDir b i io = newBucket b i @ (if io = '''' then '''' else ''/'' @ io)"

lemma newDir_ends:
  assumes "plain b" "CHR ''/'' \<notin> set i" "io = '''' \<or> plain io"
  shows "newDir b i io \<noteq> '''' \<and> hd (newDir b i io) \<noteq> CHR ''/'' \<and> last (newDir b i io) \<noteq> CHR ''/''"
proof -
  have "plain (newBucket b i)"
    using assms(1) plain_underscore [OF assms(1,2)] by (simp add: newBucket_def)
  with plain_ends [OF this] assms(3) plain_ends [of io] show ?thesis
    by (auto simp: newDir_def)
qed


text \<open>A parser that is enough for addresses of the form \<open>http://host/path\<close>.\<close>

definition httpPath :: "string \<Rightarrow> goerror + string" where
  "httpPath a = Inr (dropWhile (\<lambda>c. c \<noteq> CHR ''/'') (drop 7 a))"


lemma trim_char_snoc: "trim_char c (d @ [c]) = trim_char c d"
proof (cases "\<forall>x \<in> set d. x = c")
  case True
  then have "\<forall>x \<in> set (d @ [c]). x = c" by simp
  with True have "dropWhile (\<lambda>x. x = c) (d @ [c]) = []" "dropWhile (\<lambda>x. x = c) d = []"
    by (simp_all only: dropWhile_eq_Nil_conv)
  then show ?thesis by (simp only: trim_char_def rev.simps dropWhile.simps)
next
  case False
  then have "dropWhile (\<lambda>x. x = c) (d @ [c]) = dropWhile (\<lambda>x. x = c) d @ [c]"
    by (auto simp: dropWhile_append)
  then show ?thesis by (simp add: trim_char_def)
qed

lemma path_split_parts:
  assumes "path_split p = (d, f)" and "d \<noteq> ''''"
  shows "\<exists>d'. d = d' @ ''/'' \<and> p = d' @ ''/'' @ f \<and> CHR ''/'' \<notin> set f"
proof -
  from assms(1) have d: "rev d = dropWhile (\<lambda>c. c \<noteq> CHR ''/'') (rev p)"
    by (auto simp: path_split_def)
  with assms(2) have "hd (rev d) = CHR ''/''"
    using hd_dropWhile [of "\<lambda>c. c \<noteq> CHR ''/''" "rev p"] by (simp del: dropWhile_eq_Nil_conv) fastforce
  with assms(2) have "d = butlast d @ ''/''" using append_butlast_last_id [of d] by (simp add: hd_rev)
  with path_split_append [of p] slash_notin_file [of p] assms(1) show ?thesis
    by (metis append_assoc fst_conv snd_conv)
qed

text \<open>
  Reading an address succeeds exactly if the URL parses and its path ends in a file below some
  directory, the root included. The key is then the last segment alone: the directories of a
  longer key are part of the bucket that is returned. Rewriting an address that reads well
  panics when no new host is given; the error of one that does not is returned.
\<close>

theorem address_parts:
  "(getBucketKeyFromS3 parse address = Inr (b, k) \<longleftrightarrow>
     (\<exists>d. parse address = Inr (d @ ''/'' @ k) \<and> k \<noteq> '''' \<and> CHR ''/'' \<notin> set k
        \<and> b = trim_char (CHR ''/'') d))
   \<and> HeadObjectFromNewURIs parse intn s address ib io [] =
      (case getBucketKeyFromS3 parse address of Inl err \<Rightarrow> Val (Inl err)
       | Inr _ \<Rightarrow> Panic ''invalid argument to Intn'')"
proof (rule conjI)
  show "getBucketKeyFromS3 parse address = Inr (b, k) \<longleftrightarrow>
     (\<exists>d. parse address = Inr (d @ ''/'' @ k) \<and> k \<noteq> '''' \<and> CHR ''/'' \<notin> set k
        \<and> b = trim_char (CHR ''/'') d)" (is "?l \<longleftrightarrow> ?r")
  proof
    assume ?l
    then obtain p d where p: "parse address = Inr p" "path_split p = (d, k)" "d \<noteq> ''''" "k \<noteq> ''''"
      "b = trim_char (CHR ''/'') d"
      by (auto simp: getBucketKeyFromS3_def split: sum.splits prod.splits if_splits)
    from path_split_parts [OF p(2,3)] obtain d' where "d = d' @ ''/''" "p = d' @ ''/'' @ k"
      "CHR ''/'' \<notin> set k" by blast
    with p trim_char_snoc [of "CHR ''/''" d'] show ?r by auto
  next
    assume ?r
    then obtain d where d: "parse address = Inr (d @ ''/'' @ k)" "k \<noteq> ''''" "CHR ''/'' \<notin> set k"
      "b = trim_char (CHR ''/'') d" by blast
    with path_split_last [OF d(3), of d] trim_char_snoc [of "CHR ''/''" d] show ?l
      by (simp add: getBucketKeyFromS3_def)
  qed
qed (simp add: HeadObjectFromNewURIs_def HeadObjectFromAddress_def split: sum.splits)

end
