(* ===== verification/Startup.thy ===== *)
theory Startup
  imports MemOperator
begin

text \<open>
  Starting the operator (\<open>cmd/main.go\<close> and \<open>SetupWithManager\<close> of
  \<open>internal/controller/automq_controller.go\<close>): the manager is created, the controller and the
  webhook are registered with it, the environment is checked and completed, the node endpoint
  and the health checks are set up, and the manager is started. controller-runtime's manager is
  the record \<open>manager\<close> of its answers; what \<open>main\<close> did is a list of events. The parsed command
  line is a record, whose defaults are those of the flags.
\<close>

section \<open>The command line and the manager\<close>

record flags =
  fl_metricsAddr :: string
  fl_mountTZ :: bool
  fl_probeAddr :: string
  fl_enableLeaderElection :: bool
  fl_concurrent :: int

definition default_flags :: "int \<Rightarrow> flags" where
  "default_flags concurrent = \<lparr>fl_metricsAddr = '':8080'', fl_mountTZ = False,
     fl_probeAddr = '':8081'', fl_enableLeaderElection = False, fl_concurrent = concurrent\<rparr>"

record manager_options =
  mo_MetricsBindAddress :: string
  mo_HealthProbeBindAddress :: string
  mo_LeaderElection :: bool
  mo_LeaderElectionID :: string
  mo_LeaderElectionNamespace :: string

text \<open>
  The reconciler as \<open>main\<close> builds it: client and recorder are nil until \<open>SetupWithManager\<close> takes
  those of the manager.
\<close>

record configured =
  su_Client :: "string option"
  su_Scheme :: string
  su_Recorder :: "string option"
  su_Finalizer :: string
  su_MountTZ :: bool

record controller_options =
  co_MaxConcurrentReconciles :: int
  co_GenerationChangedOnly :: bool

record manager =
  mg_New :: "manager_options \<Rightarrow> goerror option"
  mg_Client :: string
  mg_Scheme :: string
  mg_RecorderFor :: "string \<Rightarrow> string"
  mg_CompleteController :: "controller_options \<Rightarrow> configured \<Rightarrow> goerror option"
  mg_CompleteWebhook :: "goerror option"
  mg_AddHealthzCheck :: "string \<Rightarrow> goerror option"
  mg_AddReadyzCheck :: "string \<Rightarrow> goerror option"
  mg_Start :: "goerror option"

definition SetupWithManager :: "manager \<Rightarrow> flags \<Rightarrow> configured \<Rightarrow> goerror option \<times> configured" where
  "SetupWithManager mgr fl r =
     (let r = (if su_Client r = None then r\<lparr>su_Client := Some (mg_Client mgr)\<rparr> else r);
          r = r\<lparr>su_Scheme := mg_Scheme mgr\<rparr>;
          r = (if su_Recorder r = None
               then r\<lparr>su_Recorder := Some (mg_RecorderFor mgr ''automq-controller'')\<rparr> else r)
      in (mg_CompleteController mgr \<lparr>co_MaxConcurrentReconciles = fl_concurrent fl,
            co_GenerationChangedOnly = True\<rparr> r, r))"

section \<open>main\<close>

type_synonym environment = "string \<rightharpoonup> string"

definition Getenv :: "environment \<Rightarrow> string \<Rightarrow> string" where
  "Getenv env k = (case env k of None \<Rightarrow> '''' | Some v \<Rightarrow> v)"

datatype event =
    NewManager manager_options
  | Controller configured
  | Webhook
  | Setenv string string
  | ServeNodes
  | Healthz
  | Readyz
  | StartManager

datatype outcome = Exit1 string | Returned

definition initial_setup :: "flags \<Rightarrow> configured" where
  "initial_setup fl = \<lparr>su_Client = None, su_Scheme = '''', su_Recorder = None,
     su_Finalizer = ''apps.cuisongliu.com/automq.finalizer'', su_MountTZ = fl_mountTZ fl\<rparr>"

definition manager_config :: "flags \<Rightarrow> environment \<Rightarrow> manager_options" where
  "manager_config fl env = \<lparr>mo_MetricsBindAddress = fl_metricsAddr fl,
     mo_HealthProbeBindAddress = fl_probeAddr fl, mo_LeaderElection = fl_enableLeaderElection fl,
     mo_LeaderElectionID = ''97e298dd.cuisongliu.github.com'',
     mo_LeaderElectionNamespace = Getenv env ''NAMESPACE_NAME''\<rparr>"

text \<open>The checks of the environment and what follows them, after the events \<open>ev\<close>.\<close>

definition main_checks ::
  "manager \<Rightarrow> environment \<Rightarrow> event list \<Rightarrow> outcome \<times> environment \<times> event list" where
  "main_checks mgr env ev =
     (if Getenv env ''OPERATOR_APIS_IP'' = '''' then (Exit1 ''OPERATOR_APIS_IP is empty'', env, ev)
      else
        (let (env, ev) =
               (if Getenv env ''NAMESPACE_NAME'' = ''''
                then (env(''NAMESPACE_NAME'' \<mapsto> ''default''),
                      ev @ [Setenv ''NAMESPACE_NAME'' ''default''])
                else (env, ev));
             ev = ev @ [ServeNodes] in
         case mg_AddHealthzCheck mgr ''healthz'' of
           Some err \<Rightarrow> (Exit1 ''unable to set up health check'', env, ev)
         | None \<Rightarrow>
        (let ev = ev @ [Healthz] in
         case mg_AddReadyzCheck mgr ''readyz'' of
           Some err \<Rightarrow> (Exit1 ''unable to set up ready check'', env, ev)
         | None \<Rightarrow>
        (let ev = ev @ [Readyz, StartManager] in
         case mg_Start mgr of
           Some err \<Rightarrow> (Exit1 ''problem running manager'', env, ev)
         | None \<Rightarrow> (Returned, env, ev)))))"

definition main_run ::
  "manager \<Rightarrow> flags \<Rightarrow> environment \<Rightarrow> outcome \<times> environment \<times> event list" where
  "main_run mgr fl env =
     (let opts = manager_config fl env in
      case mg_New mgr opts of
        Some err \<Rightarrow> (Exit1 ''unable to start manager'', env, [])
      | None \<Rightarrow>
     (case SetupWithManager mgr fl (initial_setup fl) of
        (Some err, r) \<Rightarrow> (Exit1 ''unable to create controller'', env, [NewManager opts])
      | (None, r) \<Rightarrow>
     (if Getenv env ''ENABLE_WEBHOOKS'' \<noteq> ''false'' then
        (case mg_CompleteWebhook mgr of
           Some err \<Rightarrow> (Exit1 ''unable to create webhook'', env, [NewManager opts, Controller r])
         | None \<Rightarrow> main_checks mgr env [NewManager opts, Controller r, Webhook])
      else main_checks mgr env [NewManager opts, Controller r])))"

section \<open>A started manager\<close>

lemma main_checks_started:
  assumes "main_checks mgr env ev = (out, env', ev')" and "StartManager \<in> set ev'"
    and "StartManager \<notin> set ev"
  shows "Getenv env ''OPERATOR_APIS_IP'' \<noteq> ''''
    \<and> env' = (if Getenv env ''NAMESPACE_NAME'' = '''' then env(''NAMESPACE_NAME'' \<mapsto> ''default'') else env)
    \<and> ev' = ev @ (if Getenv env ''NAMESPACE_NAME'' = '''' then [Setenv ''NAMESPACE_NAME'' ''default'']
        else []) @ [ServeNodes, Healthz, Readyz, StartManager]"
  using assms by (auto simp: main_checks_def Let_def split: if_splits option.splits)

lemma main_run_started:
  assumes "main_run mgr fl env = (out, env', ev)" and "StartManager \<in> set ev"
  shows "\<exists>r web. r = snd (SetupWithManager mgr fl (initial_setup fl))
    \<and> web = (if Getenv env ''ENABLE_WEBHOOKS'' \<noteq> ''false'' then [Webhook] else [])
    \<and> main_checks mgr env ([NewManager (manager_config fl env), Controller r] @ web) = (out, env', ev)"
  using assms by (auto simp: main_run_def Let_def split: if_splits option.splits prod.splits)

text \<open>
  C21: a manager is only started in a complete environment: \<open>OPERATOR_APIS_IP\<close> is set, so that the
  address handed to every broker names a host, \<open>NAMESPACE_NAME\<close> is set, possibly to the default,
  the controller is registered with the finalizer and with the manager's client, the webhook
  is registered unless switched off, and both health checks are there before the start. The
  namespace of the leader election is read before the default is filled in, so it is empty
  whenever the variable was unset.
\<close>

theorem startup_complete:
  assumes "main_run mgr fl env = (out, env', ev)" and "StartManager \<in> set ev"
    and "r_Getenv r = Getenv env'"
  shows "(\<exists>ip. ip \<noteq> '''' \<and> (\<forall>obj port. valueEnv ''OPERATOR_APIS_ADDR'' (''http://'' @ ip @ '':'' @ itoa 9090)
        \<in> set (brokerEnvs r obj port)))
    \<and> Getenv env' ''NAMESPACE_NAME'' \<noteq> ''''
    \<and> (\<exists>su. Controller su \<in> set ev \<and> su_Finalizer su = ''apps.cuisongliu.com/automq.finalizer''
        \<and> su_Client su = Some (mg_Client mgr) \<and> su_MountTZ su = fl_mountTZ fl)
    \<and> (Webhook \<in> set ev \<longleftrightarrow> Getenv env ''ENABLE_WEBHOOKS'' \<noteq> ''false'')
    \<and> (\<exists>pre. ev = pre @ [ServeNodes, Healthz, Readyz, StartManager])
    \<and> (\<exists>opts. NewManager opts \<in> set ev \<and> mo_LeaderElectionNamespace opts = Getenv env ''NAMESPACE_NAME'')"
proof -
  from main_run_started [OF assms(1,2)] obtain su web where
    su: "su = snd (SetupWithManager mgr fl (initial_setup fl))"
    and web: "web = (if Getenv env ''ENABLE_WEBHOOKS'' \<noteq> ''false'' then [Webhook] else [])"
    and c: "main_checks mgr env ([NewManager (manager_config fl env), Controller su] @ web)
      = (out, env', ev)" by blast
  have "StartManager \<notin> set ([NewManager (manager_config fl env), Controller su] @ web)"
    by (simp add: web)
  note f = main_checks_started [OF c assms(2) this]
  have ip: "Getenv env' ''OPERATOR_APIS_IP'' \<noteq> ''''" using f by (auto simp: Getenv_def)
  have "Getenv env' ''NAMESPACE_NAME'' \<noteq> ''''" using f by (auto simp: Getenv_def)
  moreover have "su_Finalizer su = ''apps.cuisongliu.com/automq.finalizer''"
    "su_Client su = Some (mg_Client mgr)" "su_MountTZ su = fl_mountTZ fl"
    by (simp_all add: su SetupWithManager_def initial_setup_def Let_def)
  moreover have "mo_LeaderElectionNamespace (manager_config fl env) = Getenv env ''NAMESPACE_NAME''"
    by (simp add: manager_config_def)
  ultimately show ?thesis
    using ip f web assms(3) by (auto simp: brokerEnvs_def intro!: exI [of _ "Getenv env' ''OPERATOR_APIS_IP''"])
qed

text \<open>A manager whose calls all succeed, in an environment without a namespace.\<close>

definition okManager :: manager where
  "okManager = \<lparr>mg_New = (\<lambda>_. None), mg_Client = ''client'', mg_Scheme = ''scheme'',
     mg_RecorderFor = (\<lambda>n. n), mg_CompleteController = (\<lambda>_ _. None), mg_CompleteWebhook = None,
     mg_AddHealthzCheck = (\<lambda>_. None), mg_AddReadyzCheck = (\<lambda>_. None), mg_Start = None\<rparr>"

theorem startup_complete_witness:
  "\<exists>env' ev opts. main_run okManager (default_flags 1) [''OPERATOR_APIS_IP'' \<mapsto> ''10.0.0.1'']
      = (Returned, env', ev)
    \<and> Getenv env' ''NAMESPACE_NAME'' \<noteq> '''' \<and> Webhook \<in> set ev
    \<and> NewManager opts \<in> set ev \<and> mo_LeaderElectionNamespace opts = ''''"
proof -
  let ?env = "[''OPERATOR_APIS_IP'' \<mapsto> ''10.0.0.1'']"
  let ?main = "main_run okManager (default_flags 1) ?env"
  obtain env' ev where run: "?main = (Returned, env', ev)" and st: "StartManager \<in> set ev"
    by (simp add: main_run_def main_checks_def SetupWithManager_def okManager_def Getenv_def Let_def)
  define r where "r = (memOperator None allow)\<lparr>r_Getenv := Getenv env'\<rparr>"
  have "r_Getenv r = Getenv env'" by (simp add: r_def)
  from startup_complete [OF run st this] run show ?thesis
    by (auto simp: Getenv_def)
qed

end
