(* ===== verification/Release.thy ===== *)
theory Release
  imports ApiTypes
begin

text \<open>
  The release tool (\<open>gen/version/gen.go\<close>): it writes the image names of the operator to two files,
  puts the given image into the values of the chart, derives the version from the tag, and puts
  it into the chart and the two readmes. What it did is a list of events; \<open>execCmd\<close> tells whether
  a shell command succeeds.
\<close>

datatype action =
    MkdirAll string
  | WriteFile string string
  | Shell string

datatype tool_result = Usage | Failed string | UpdateSuccess

text \<open>\<open>strings.ReplaceAll(s, "v", "")\<close> and the tag that names no version.\<close>

definition shotVersion :: "string \<Rightarrow> string" where
  "shotVersion tag =
     (let v = filter (\<lambda>c. c \<noteq> CHR ''v'') tag in if v = ''latest'' then ''0.0.0'' else v)"

definition quote :: string where "quote = [CHR 0x27]"
definition backslash :: string where "backslash = [CHR 0x5C]"

definition cmdUpgradeImageName :: "string \<Rightarrow> string" where
  "cmdUpgradeImageName imageName = ''sed -i '' @ quote @ ''/#replace_by_makefile/!b;n;c'' @ backslash
     @ ''image: '' @ imageName @ quote @ '' deploy/charts/automq-operator/values.yaml''"

definition cmdUpgradeChartVersion :: "string \<Rightarrow> string" where
  "cmdUpgradeChartVersion v = ''sed -i '' @ quote @ ''/#replace_by_makefile/!b;n;c'' @ backslash
     @ ''version: '' @ v @ quote @ '' deploy/charts/automq-operator/Chart.yaml''"

definition cmdUpgradeReadme :: "string \<Rightarrow> string" where
  "cmdUpgradeReadme v = ''scripts/release_tag.sh v'' @ v"

definition cmdUpgradeReadmeSealos :: "string \<Rightarrow> string" where
  "cmdUpgradeReadmeSealos v = ''scripts/release_tag_sealos.sh v'' @ v"

text \<open>
  \<open>if err := execCmd(...); err != nil { os.Exit(1) }\<close> for one command after the other; the command
  that fails has been run.
\<close>

fun run_commands :: "(string \<Rightarrow> bool) \<Rightarrow> string list \<Rightarrow> action list \<Rightarrow> bool \<times> action list" where
  "run_commands execCmd [] acts = (True, acts)"
| "run_commands execCmd (c # cs) acts =
     (if execCmd c then run_commands execCmd cs (acts @ [Shell c]) else (False, acts @ [Shell c]))"

definition release_main ::
  "(string \<Rightarrow> bool) \<Rightarrow> string list \<Rightarrow> tool_result \<times> action list" where
  "release_main execCmd args =
     (case args of
        [program, imageName] \<Rightarrow>
          (let acts = [MkdirAll ''deploy/images/shim'',
                 WriteFile ''deploy/images/shim/image.txt'' DefaultImageName,
                 WriteFile ''deploy/images/shim/busybox.txt'' BusyboxImageName]
           in case run_commands execCmd [cmdUpgradeImageName imageName] acts of
                (False, acts) \<Rightarrow> (Failed ''execCmd error'', acts)
              | (True, acts) \<Rightarrow>
                  (let version = split_on (CHR '':'') imageName in
                   if length version \<noteq> 2 then (Failed ''image name error'', acts)
                   else (let v = shotVersion (version ! 1) in
                     case run_commands execCmd [cmdUpgradeChartVersion v, cmdUpgradeReadme v,
                            cmdUpgradeReadmeSealos v] acts of
                       (False, acts) \<Rightarrow> (Failed ''execCmd error'', acts)
                     | (True, acts) \<Rightarrow> (UpdateSuccess, acts))))
      | _ \<Rightarrow> (Usage, []))"

section \<open>Facts\<close>

lemma split_on_two:
  "length (split_on c s) = 2 \<longleftrightarrow> (\<exists>a b. s = a @ [c] @ b \<and> c \<notin> set a \<and> c \<notin> set b)"
proof
  assume "length (split_on c s) = 2"
  then have "count_list s c = 1" by (simp add: length_split_on)
  then have "c \<in> set s" by (metis count_list_0_iff one_neq_zero)
  then obtain a b where s: "s = a @ c # b" "c \<notin> set a" using split_list_first by metis
  with \<open>count_list s c = 1\<close> have "count_list b c = 0" by (simp add: count_list_0_iff)
  with s show "\<exists>a b. s = a @ [c] @ b \<and> c \<notin> set a \<and> c \<notin> set b"
    by (auto simp: count_list_0_iff)
next
  assume "\<exists>a b. s = a @ [c] @ b \<and> c \<notin> set a \<and> c \<notin> set b"
  then show "length (split_on c s) = 2" by (auto simp: length_split_on count_list_0_iff)
qed

lemma run_commands_all:
  "list_all execCmd cs \<Longrightarrow> run_commands execCmd cs acts = (True, acts @ map Shell cs)"
  by (induction cs arbitrary: acts) auto

definition imageFiles :: "action list" where
  "imageFiles = [MkdirAll ''deploy/images/shim'', WriteFile ''deploy/images/shim/image.txt'' DefaultImageName,
     WriteFile ''deploy/images/shim/busybox.txt'' BusyboxImageName]"

definition releaseCommands :: "string \<Rightarrow> string \<Rightarrow> string list" where
  "releaseCommands img v = [cmdUpgradeImageName img, cmdUpgradeChartVersion v,
     cmdUpgradeReadme v, cmdUpgradeReadmeSealos v]"

lemma release_tag:
  assumes "CHR '':'' \<notin> set repo" and "CHR '':'' \<notin> set tag"
  shows "release_main execCmd [p, repo @ '':'' @ tag] =
    (if list_all execCmd (releaseCommands (repo @ '':'' @ tag) (shotVersion tag)) then UpdateSuccess
       else Failed ''execCmd error'',
     imageFiles @ snd (run_commands execCmd
       (releaseCommands (repo @ '':'' @ tag) (shotVersion tag)) []))"
proof -
  have "split_on (CHR '':'') (repo @ '':'' @ tag) = [repo, tag]"
  proof -
    have "split_on c s = [s]" if "c \<notin> set s" for c and s :: string
      using that by (induction s) auto
    moreover have "split_on c (a @ c # b) = a # split_on c b" if "c \<notin> set a" for c and a b :: string
      using that by (induction a) auto
    ultimately show ?thesis using assms by simp
  qed
  then show ?thesis
    by (simp add: release_main_def Let_def releaseCommands_def imageFiles_def)
qed

lemma release_bad_name:
  assumes "length (split_on (CHR '':'') img) \<noteq> 2"
  shows "\<exists>m. release_main execCmd [p, img] =
    (Failed m, imageFiles @ [Shell (cmdUpgradeImageName img)])"
  using assms by (simp add: release_main_def Let_def imageFiles_def)



end
