(* ===== verification/DeepCopy.thy ===== *)
theory DeepCopy
  imports ApiTypes
begin

text \<open>
  The generated deep copies (\<open>api/v1beta1/zz_generated.deepcopy.go\<close>), on a heap: a pointer is an
  address, a slice an address with an offset and a length, and the structs of
  \<open>automq_types.go\<close> hold those where the value-level records of \<open>ApiTypes\<close> hold what they point
  to. The structs of Kubernetes inside them (\<open>EnvVar\<close>, \<open>ResourceRequirements\<close>, \<open>ObjectMeta\<close>,
  \<open>ListMeta\<close>, \<open>Condition\<close>) are values of a type \<^typ>\<open>'f\<close> with cells of type \<^typ>\<open>'c\<close> of their own,
  copied by functions that are parameters. The interface \<open>deep_copier\<close> says what a deep copy is.
\<close>

section \<open>Structs and the heap\<close>

type_synonym addr = nat

record go_slice =
  sl_array :: addr
  sl_off :: nat
  sl_len :: nat

record hNodeSelector =
  hns_Key :: string
  hns_Values :: "go_slice option"

record hNodeAffinity =
  hna_Type :: string
  hna_NodeSelector :: "go_slice option"
  hna_Weight :: int32

record hAffinitySpec =
  haf_NodeAffinity :: "addr option"
  haf_PodAntiAffinity :: "addr option"
  haf_PodAffinity :: "addr option"

record 'f hControllerSpec =
  hcs_Replicas :: int32
  hcs_JVMOptions :: "go_slice option"
  hcs_Envs :: "go_slice option"
  hcs_Resource :: 'f
  hcs_Affinity :: "addr option"
  hcs_StorageClass :: string

record 'f hBrokerSpec =
  hbs_Replicas :: int32
  hbs_JVMOptions :: "go_slice option"
  hbs_Envs :: "go_slice option"
  hbs_Resource :: 'f
  hbs_Affinity :: "addr option"
  hbs_StorageClass :: string

record 'f hAutoMQSpec =
  hsp_S3 :: S3Spec
  hsp_ClusterID :: string
  hsp_Image :: string
  hsp_NodePort :: int32
  hsp_Metrics :: MetricsSpec
  hsp_Controller :: "'f hControllerSpec"
  hsp_Broker :: "'f hBrokerSpec"

record hAutoMQStatus =
  hst_Phase :: AutoMQPhase
  hst_Conditions :: "go_slice option"
  hst_ReadyPods :: int32
  hst_ControllerReplicas :: int32
  hst_BrokerReplicas :: int32
  hst_ControllerAddresses :: "go_slice option"
  hst_BootstrapInternalAddress :: string

record 'f hAutoMQ =
  hmq_TypeMeta :: "string \<times> string"
  hmq_ObjectMeta :: 'f
  hmq_Spec :: "'f hAutoMQSpec"
  hmq_Status :: hAutoMQStatus

record 'f hAutoMQList =
  hml_TypeMeta :: "string \<times> string"
  hml_ListMeta :: 'f
  hml_Items :: "go_slice option"

text \<open>What an address may hold: an array, a struct, or something of a package outside.\<close>

datatype ('f, 'c) cell =
    is_Strings: Strings (un_Strings: "string list")
  | is_Selectors: Selectors (un_Selectors: "hNodeSelector list")
  | is_Foreigns: Foreigns (un_Foreigns: "'f list")
  | is_AutoMQs: AutoMQs (un_AutoMQs: "'f hAutoMQ list")
  | is_NodeSel: NodeSel (un_NodeSel: hNodeSelector)
  | is_NodeAff: NodeAff (un_NodeAff: hNodeAffinity)
  | is_PodAff: PodAff (un_PodAff: PodAffinity)
  | is_PodAnti: PodAnti (un_PodAnti: PodAntiAffinity)
  | is_AffSpec: AffSpec (un_AffSpec: hAffinitySpec)
  | is_S3: S3 (un_S3: S3Spec)
  | is_Metrics: Metrics (un_Metrics: MetricsSpec)
  | is_CtrlSpec: CtrlSpec (un_CtrlSpec: "'f hControllerSpec")
  | is_BrkSpec: BrkSpec (un_BrkSpec: "'f hBrokerSpec")
  | is_Spec: Spec (un_Spec: "'f hAutoMQSpec")
  | is_Status: Status (un_Status: hAutoMQStatus)
  | is_MQ: MQ (un_MQ: "'f hAutoMQ")
  | is_MQList: MQList (un_MQList: "'f hAutoMQList")
  | Outside 'c

record ('f, 'c) heap =
  hp_cells :: "addr \<rightharpoonup> ('f, 'c) cell"
  hp_next :: addr

definition alloc :: "('f, 'c) cell \<Rightarrow> ('f, 'c) heap \<Rightarrow> addr \<times> ('f, 'c) heap" where
  "alloc c h = (hp_next h, \<lparr>hp_cells = (hp_cells h)(hp_next h \<mapsto> c), hp_next = Suc (hp_next h)\<rparr>)"

definition store :: "addr \<Rightarrow> ('f, 'c) cell \<Rightarrow> ('f, 'c) heap \<Rightarrow> ('f, 'c) heap" where
  "store a c h = h\<lparr>hp_cells := (hp_cells h)(a \<mapsto> c)\<rparr>"

text \<open>Reading an address at a type; in Go an address always holds a value of its type.\<close>

definition load ::
  "(('f, 'c) cell \<Rightarrow> bool) \<Rightarrow> (('f, 'c) cell \<Rightarrow> 't) \<Rightarrow> ('f, 'c) heap \<Rightarrow> addr \<Rightarrow> 't option" where
  "load is un h a = (case hp_cells h a of None \<Rightarrow> None
     | Some c \<Rightarrow> if is c then Some (un c) else None)"

section \<open>The shapes of the generated code\<close>

type_synonym ('t, 'f, 'c) copy = "'t \<Rightarrow> ('f, 'c) heap \<Rightarrow> 't \<times> ('f, 'c) heap"

text \<open>\<open>*out = *in\<close>\<close>

definition copyFlat :: "('t, 'f, 'c) copy" where
  "copyFlat x h = (x, h)"

text \<open>
  \<open>if in != nil { *out = new(T); (*in).DeepCopyInto(*out) }\<close>: the new address first gets the
  shallow copy that \<open>DeepCopyInto\<close> begins with. A nil pointer is copied as it is.
\<close>

definition copyPtr ::
  "('t \<Rightarrow> ('f, 'c) cell) \<Rightarrow> (('f, 'c) cell \<Rightarrow> bool) \<Rightarrow> (('f, 'c) cell \<Rightarrow> 't) \<Rightarrow>
     ('t, 'f, 'c) copy \<Rightarrow> (addr option, 'f, 'c) copy" where
  "copyPtr mk is un into p h =
     (case p of None \<Rightarrow> (None, h) | Some a \<Rightarrow>
     (case load is un h a of None \<Rightarrow> (None, h) | Some x \<Rightarrow>
        (let (out, h) = alloc (mk x) h; (y, h) = into x h in (Some out, store out (mk y) h))))"

text \<open>
  \<open>if in != nil { *out = make([]T, len(*in)); for i := range *in { (*in)[i].DeepCopyInto(&(*out)[i]) } }\<close>,
  and \<open>copy(*out, *in)\<close> for elements that are flat. The new array is as long as the slice.
\<close>

fun copyElems :: "('t, 'f, 'c) copy \<Rightarrow> ('t list, 'f, 'c) copy" where
  "copyElems into [] h = ([], h)"
| "copyElems into (x # xs) h =
     (let (y, h) = into x h; (ys, h) = copyElems into xs h in (y # ys, h))"

definition copySlice ::
  "('t list \<Rightarrow> ('f, 'c) cell) \<Rightarrow> (('f, 'c) cell \<Rightarrow> bool) \<Rightarrow> (('f, 'c) cell \<Rightarrow> 't list) \<Rightarrow>
     ('t, 'f, 'c) copy \<Rightarrow> (go_slice option, 'f, 'c) copy" where
  "copySlice mk is un into s h =
     (case s of None \<Rightarrow> (None, h) | Some sl \<Rightarrow>
     (case load is un h (sl_array sl) of None \<Rightarrow> (None, h) | Some arr \<Rightarrow>
        (let xs = take (sl_len sl) (drop (sl_off sl) arr);
             (out, h) = alloc (mk xs) h;
             (ys, h) = copyElems into xs h
         in (Some \<lparr>sl_array = out, sl_off = 0, sl_len = length xs\<rparr>, store out (mk ys) h))))"

section \<open>The copies\<close>

text \<open>The \<open>DeepCopyInto\<close> methods of the structs of Kubernetes.\<close>

record ('f, 'c) k8s_copies =
  kc_EnvVar :: "('f, 'f, 'c) copy"
  kc_Resources :: "('f, 'f, 'c) copy"
  kc_ObjectMeta :: "('f, 'f, 'c) copy"
  kc_ListMeta :: "('f, 'f, 'c) copy"
  kc_Condition :: "('f, 'f, 'c) copy"

abbreviation copyStrings :: "(go_slice option, 'f, 'c) copy" where
  "copyStrings \<equiv> copySlice Strings is_Strings un_Strings copyFlat"

definition NodeSelector_DeepCopyInto :: "(hNodeSelector, 'f, 'c) copy" where
  "NodeSelector_DeepCopyInto i h =
     (let (vs, h) = copyStrings (hns_Values i) h in (i\<lparr>hns_Values := vs\<rparr>, h))"

definition NodeAffinity_DeepCopyInto :: "(hNodeAffinity, 'f, 'c) copy" where
  "NodeAffinity_DeepCopyInto i h =
     (let (s, h) = copySlice Selectors is_Selectors un_Selectors NodeSelector_DeepCopyInto
            (hna_NodeSelector i) h
      in (i\<lparr>hna_NodeSelector := s\<rparr>, h))"

definition AffinitySpec_DeepCopyInto :: "(hAffinitySpec, 'f, 'c) copy" where
  "AffinitySpec_DeepCopyInto i h =
     (let (n, h) = copyPtr NodeAff is_NodeAff un_NodeAff NodeAffinity_DeepCopyInto
            (haf_NodeAffinity i) h;
          (a, h) = copyPtr PodAnti is_PodAnti un_PodAnti copyFlat (haf_PodAntiAffinity i) h;
          (p, h) = copyPtr PodAff is_PodAff un_PodAff copyFlat (haf_PodAffinity i) h
      in (i\<lparr>haf_NodeAffinity := n, haf_PodAntiAffinity := a, haf_PodAffinity := p\<rparr>, h))"

definition ControllerSpec_DeepCopyInto ::
  "('f, 'c) k8s_copies \<Rightarrow> ('f hControllerSpec, 'f, 'c) copy" where
  "ControllerSpec_DeepCopyInto K i h =
     (let (j, h) = copyStrings (hcs_JVMOptions i) h;
          (e, h) = copySlice Foreigns is_Foreigns un_Foreigns (kc_EnvVar K) (hcs_Envs i) h;
          (r, h) = kc_Resources K (hcs_Resource i) h;
          (a, h) = copyPtr AffSpec is_AffSpec un_AffSpec AffinitySpec_DeepCopyInto (hcs_Affinity i) h
      in (i\<lparr>hcs_JVMOptions := j, hcs_Envs := e, hcs_Resource := r, hcs_Affinity := a\<rparr>, h))"

definition BrokerSpec_DeepCopyInto ::
  "('f, 'c) k8s_copies \<Rightarrow> ('f hBrokerSpec, 'f, 'c) copy" where
  "BrokerSpec_DeepCopyInto K i h =
     (let (j, h) = copyStrings (hbs_JVMOptions i) h;
          (e, h) = copySlice Foreigns is_Foreigns un_Foreigns (kc_EnvVar K) (hbs_Envs i) h;
          (r, h) = kc_Resources K (hbs_Resource i) h;
          (a, h) = copyPtr AffSpec is_AffSpec un_AffSpec AffinitySpec_DeepCopyInto (hbs_Affinity i) h
      in (i\<lparr>hbs_JVMOptions := j, hbs_Envs := e, hbs_Resource := r, hbs_Affinity := a\<rparr>, h))"

definition S3Spec_DeepCopyInto :: "(S3Spec, 'f, 'c) copy" where
  "S3Spec_DeepCopyInto i h = (i, h)"

definition MetricsSpec_DeepCopyInto :: "(MetricsSpec, 'f, 'c) copy" where
  "MetricsSpec_DeepCopyInto i h = (i, h)"

definition PodAffinity_DeepCopyInto :: "(PodAffinity, 'f, 'c) copy" where
  "PodAffinity_DeepCopyInto i h = (i, h)"

definition PodAntiAffinity_DeepCopyInto :: "(PodAntiAffinity, 'f, 'c) copy" where
  "PodAntiAffinity_DeepCopyInto i h = (i, h)"

definition AutoMQSpec_DeepCopyInto ::
  "('f, 'c) k8s_copies \<Rightarrow> ('f hAutoMQSpec, 'f, 'c) copy" where
  "AutoMQSpec_DeepCopyInto K i h =
     (let (c, h) = ControllerSpec_DeepCopyInto K (hsp_Controller i) h;
          (b, h) = BrokerSpec_DeepCopyInto K (hsp_Broker i) h
      in (i\<lparr>hsp_Controller := c, hsp_Broker := b\<rparr>, h))"

definition AutoMQStatus_DeepCopyInto ::
  "('f, 'c) k8s_copies \<Rightarrow> (hAutoMQStatus, 'f, 'c) copy" where
  "AutoMQStatus_DeepCopyInto K i h =
     (let (c, h) = copySlice Foreigns is_Foreigns un_Foreigns (kc_Condition K) (hst_Conditions i) h;
          (a, h) = copyStrings (hst_ControllerAddresses i) h
      in (i\<lparr>hst_Conditions := c, hst_ControllerAddresses := a\<rparr>, h))"

definition AutoMQ_DeepCopyInto :: "('f, 'c) k8s_copies \<Rightarrow> ('f hAutoMQ, 'f, 'c) copy" where
  "AutoMQ_DeepCopyInto K i h =
     (let (m, h) = kc_ObjectMeta K (hmq_ObjectMeta i) h;
          (s, h) = AutoMQSpec_DeepCopyInto K (hmq_Spec i) h;
          (t, h) = AutoMQStatus_DeepCopyInto K (hmq_Status i) h
      in (i\<lparr>hmq_ObjectMeta := m, hmq_Spec := s, hmq_Status := t\<rparr>, h))"

definition AutoMQList_DeepCopyInto :: "('f, 'c) k8s_copies \<Rightarrow> ('f hAutoMQList, 'f, 'c) copy" where
  "AutoMQList_DeepCopyInto K i h =
     (let (m, h) = kc_ListMeta K (hml_ListMeta i) h;
          (s, h) = copySlice AutoMQs is_AutoMQs un_AutoMQs (AutoMQ_DeepCopyInto K) (hml_Items i) h
      in (i\<lparr>hml_ListMeta := m, hml_Items := s\<rparr>, h))"

text \<open>The \<open>DeepCopy\<close> methods: nil for a nil receiver, else a new struct filled by \<open>DeepCopyInto\<close>.\<close>

definition AffinitySpec_DeepCopy :: "(addr option, 'f, 'c) copy" where
  "AffinitySpec_DeepCopy =
     copyPtr AffSpec is_AffSpec un_AffSpec AffinitySpec_DeepCopyInto"

definition AutoMQ_DeepCopy :: "('f, 'c) k8s_copies \<Rightarrow> (addr option, 'f, 'c) copy" where
  "AutoMQ_DeepCopy K =
     copyPtr MQ is_MQ un_MQ (AutoMQ_DeepCopyInto K)"

definition AutoMQList_DeepCopy :: "('f, 'c) k8s_copies \<Rightarrow> (addr option, 'f, 'c) copy" where
  "AutoMQList_DeepCopy K =
     copyPtr MQList is_MQList un_MQList (AutoMQList_DeepCopyInto K)"

definition AutoMQSpec_DeepCopy :: "('f, 'c) k8s_copies \<Rightarrow> (addr option, 'f, 'c) copy" where
  "AutoMQSpec_DeepCopy K =
     copyPtr Spec is_Spec un_Spec (AutoMQSpec_DeepCopyInto K)"

definition AutoMQStatus_DeepCopy :: "('f, 'c) k8s_copies \<Rightarrow> (addr option, 'f, 'c) copy" where
  "AutoMQStatus_DeepCopy K =
     copyPtr Status is_Status un_Status (AutoMQStatus_DeepCopyInto K)"

definition BrokerSpec_DeepCopy :: "('f, 'c) k8s_copies \<Rightarrow> (addr option, 'f, 'c) copy" where
  "BrokerSpec_DeepCopy K =
     copyPtr BrkSpec is_BrkSpec un_BrkSpec (BrokerSpec_DeepCopyInto K)"

definition ControllerSpec_DeepCopy :: "('f, 'c) k8s_copies \<Rightarrow> (addr option, 'f, 'c) copy" where
  "ControllerSpec_DeepCopy K =
     copyPtr CtrlSpec is_CtrlSpec un_CtrlSpec (ControllerSpec_DeepCopyInto K)"

definition MetricsSpec_DeepCopy :: "(addr option, 'f, 'c) copy" where
  "MetricsSpec_DeepCopy =
     copyPtr Metrics is_Metrics un_Metrics MetricsSpec_DeepCopyInto"

definition NodeAffinity_DeepCopy :: "(addr option, 'f, 'c) copy" where
  "NodeAffinity_DeepCopy =
     copyPtr NodeAff is_NodeAff un_NodeAff NodeAffinity_DeepCopyInto"

definition NodeSelector_DeepCopy :: "(addr option, 'f, 'c) copy" where
  "NodeSelector_DeepCopy =
     copyPtr NodeSel is_NodeSel un_NodeSel NodeSelector_DeepCopyInto"

definition PodAffinity_DeepCopy :: "(addr option, 'f, 'c) copy" where
  "PodAffinity_DeepCopy =
     copyPtr PodAff is_PodAff un_PodAff PodAffinity_DeepCopyInto"

definition PodAntiAffinity_DeepCopy :: "(addr option, 'f, 'c) copy" where
  "PodAntiAffinity_DeepCopy =
     copyPtr PodAnti is_PodAnti un_PodAnti PodAntiAffinity_DeepCopyInto"

definition S3Spec_DeepCopy :: "(addr option, 'f, 'c) copy" where
  "S3Spec_DeepCopy =
     copyPtr S3 is_S3 un_S3 S3Spec_DeepCopyInto"

text \<open>\<open>DeepCopyObject\<close> returns the copy as a \<open>runtime.Object\<close>, and a nil interface for nil.\<close>

datatype runtime_object = AutoMQObject addr | AutoMQListObject addr

definition AutoMQ_DeepCopyObject ::
  "('f, 'c) k8s_copies \<Rightarrow> addr option \<Rightarrow> ('f, 'c) heap \<Rightarrow> runtime_object option \<times> ('f, 'c) heap" where
  "AutoMQ_DeepCopyObject K i h =
     (case AutoMQ_DeepCopy K i h of
        (Some c, h) \<Rightarrow> (Some (AutoMQObject c), h) | (None, h) \<Rightarrow> (None, h))"

definition AutoMQList_DeepCopyObject ::
  "('f, 'c) k8s_copies \<Rightarrow> addr option \<Rightarrow> ('f, 'c) heap \<Rightarrow> runtime_object option \<times> ('f, 'c) heap" where
  "AutoMQList_DeepCopyObject K i h =
     (case AutoMQList_DeepCopy K i h of
        (Some c, h) \<Rightarrow> (Some (AutoMQListObject c), h) | (None, h) \<Rightarrow> (None, h))"

end
