(* ===== verification/CopyContract.thy ===== *)
theory CopyContract
  imports DeepCopy
begin

text \<open>
  What a deep copy promises, as the interface \<open>deep_copier\<close>: the copy denotes the same value as the
  original, in cells that are all new, and no cell of the heap before has changed. The shapes of
  the generated code keep the contract, so every struct of \<open>automq_types.go\<close> has it if the structs
  of Kubernetes do.
\<close>

section \<open>The contract\<close>

text \<open>
  A reading of a value in a heap is the content it denotes and the cells it is made of, or nothing
  if it dangles.
\<close>

type_synonym ('t, 'v, 'f, 'c) reading = "('f, 'c) heap \<Rightarrow> 't \<Rightarrow> ('v \<times> addr set) option"

definition heap_wf :: "('f, 'c) heap \<Rightarrow> bool" where
  "heap_wf h \<longleftrightarrow> dom (hp_cells h) \<subseteq> {..<hp_next h}"

definition grows :: "('f, 'c) heap \<Rightarrow> ('f, 'c) heap \<Rightarrow> bool" where
  "grows h h' \<longleftrightarrow> hp_next h \<le> hp_next h' \<and> (\<forall>a < hp_next h. hp_cells h' a = hp_cells h a)"

definition fresh :: "('f, 'c) heap \<Rightarrow> ('f, 'c) heap \<Rightarrow> addr set" where
  "fresh h h' = {hp_next h..<hp_next h'}"

lemma grows_refl [simp]: "grows h h"
  by (simp add: grows_def)

lemma grows_trans: "grows h h1 \<Longrightarrow> grows h1 h2 \<Longrightarrow> grows h h2"
  by (auto simp: grows_def)

lemma fresh_mono: "grows h h1 \<Longrightarrow> grows h1 h2 \<Longrightarrow> fresh h h1 \<subseteq> fresh h h2 \<and> fresh h1 h2 \<subseteq> fresh h h2"
  by (auto simp: grows_def fresh_def)

lemma alloc_ok:
  assumes "alloc c h = (out, h1)" and "heap_wf h"
  shows "out = hp_next h \<and> hp_next h1 = Suc (hp_next h) \<and> heap_wf h1 \<and> grows h h1"
proof -
  have "dom (hp_cells h1) = insert (hp_next h) (dom (hp_cells h))"
    using assms(1) by (auto simp: alloc_def)
  moreover have "hp_next h1 = Suc (hp_next h)" using assms(1) by (auto simp: alloc_def)
  ultimately have "heap_wf h1" using assms(2) by (auto simp: heap_wf_def subset_iff less_Suc_eq)
  then show ?thesis using assms(1) by (auto simp: alloc_def grows_def)
qed

locale deep_copier =
  fixes into :: "('t, 'f, 'c) copy" and rep :: "('t, 'v, 'f, 'c) reading"
  assumes rep_dom: "rep h x = Some (v, A) \<Longrightarrow> A \<subseteq> dom (hp_cells h)"
    and rep_local: "rep h x = Some (v, A) \<Longrightarrow> \<forall>a \<in> A. hp_cells h' a = hp_cells h a \<Longrightarrow>
      rep h' x = Some (v, A)"
    and copied: "rep h x = Some (v, A) \<Longrightarrow> heap_wf h \<Longrightarrow> into x h = (y, h') \<Longrightarrow>
      heap_wf h' \<and> grows h h' \<and> (\<exists>B. rep h' y = Some (v, B) \<and> B \<subseteq> fresh h h')"
begin

lemma rep_grows:
  assumes "rep h x = Some (v, A)" and "heap_wf h" and "grows h h'"
  shows "rep h' x = Some (v, A)"
proof (rule rep_local [OF assms(1)], rule ballI)
  fix a
  assume "a \<in> A"
  with rep_dom [OF assms(1)] assms(2) have "a < hp_next h" by (auto simp: heap_wf_def)
  with assms(3) show "hp_cells h' a = hp_cells h a" by (simp add: grows_def)
qed

text \<open>A new cell is filled with the copy.\<close>

lemma box:
  assumes x: "rep h x = Some (v, A)" and wf: "heap_wf h"
    and a: "alloc (mk x) h = (out, h1)" and c: "into x h1 = (y, h2)"
    and k: "\<And>x. is (mk x) \<and> un (mk x) = x"
  shows "heap_wf (store out (mk y) h2) \<and> grows h (store out (mk y) h2)
    \<and> out \<in> fresh h (store out (mk y) h2) \<and> load is un (store out (mk y) h2) out = Some y
    \<and> (\<exists>B. rep (store out (mk y) h2) y = Some (v, B) \<and> B \<subseteq> fresh h (store out (mk y) h2))"
proof -
  let ?h3 = "store out (mk y) h2"
  have h1: "out = hp_next h" "hp_next h1 = Suc (hp_next h)" "heap_wf h1" "grows h h1"
    using alloc_ok [OF a wf] by simp_all
  have "rep h1 x = Some (v, A)" by (rule rep_grows [OF x wf h1(4)])
  from copied [OF this h1(3) c] obtain B where h2: "heap_wf h2" "grows h1 h2"
    and B: "rep h2 y = Some (v, B)" "B \<subseteq> fresh h1 h2" by blast
  have out: "out < hp_next h1" "out < hp_next h2" "out \<notin> B" "hp_next ?h3 = hp_next h2"
    using h1 h2(2) B(2) by (auto simp: grows_def fresh_def store_def)
  have "heap_wf ?h3" using h2(1) out(2) by (auto simp: heap_wf_def store_def)
  moreover have "grows h ?h3"
    using grows_trans [OF h1(4) h2(2)] h1(1) by (auto simp: grows_def store_def)
  moreover have "out \<in> fresh h ?h3" using h1(1) out by (simp add: fresh_def)
  moreover have "load is un ?h3 out = Some y" using k [of y] by (simp add: load_def store_def)
  moreover have "rep ?h3 y = Some (v, B)"
    by (rule rep_local [OF B(1)]) (use out(3) in \<open>auto simp: store_def\<close>)
  moreover have "B \<subseteq> fresh h ?h3" using B(2) h1(2) out(4) by (auto simp: fresh_def)
  ultimately show ?thesis by blast
qed

end

section \<open>Flat values and pairs\<close>

definition flatRep :: "('t, 't, 'f, 'c) reading" where
  "flatRep h x = Some (x, {})"

interpretation flat: deep_copier copyFlat flatRep
  by unfold_locales (auto simp: copyFlat_def flatRep_def)

definition pairRep ::
  "('t, 'v, 'f, 'c) reading \<Rightarrow> ('u, 'w, 'f, 'c) reading \<Rightarrow> ('t \<times> 'u, 'v \<times> 'w, 'f, 'c) reading" where
  "pairRep r1 r2 h p = (case r1 h (fst p) of None \<Rightarrow> None | Some (v, A) \<Rightarrow>
     (case r2 h (snd p) of None \<Rightarrow> None | Some (w, B) \<Rightarrow> Some ((v, w), A \<union> B)))"

definition pairCopy ::
  "('t, 'f, 'c) copy \<Rightarrow> ('u, 'f, 'c) copy \<Rightarrow> ('t \<times> 'u, 'f, 'c) copy" where
  "pairCopy c1 c2 p h = (let (x, h) = c1 (fst p) h; (y, h) = c2 (snd p) h in ((x, y), h))"

lemma pairRep_Some:
  "pairRep r1 r2 h p = Some (u, C) \<longleftrightarrow> (\<exists>v A w B. r1 h (fst p) = Some (v, A)
     \<and> r2 h (snd p) = Some (w, B) \<and> u = (v, w) \<and> C = A \<union> B)"
  by (auto simp: pairRep_def split: option.splits)

lemma pair_copier:
  assumes "deep_copier (c1 :: ('t, 'f, 'c) copy) r1" and "deep_copier (c2 :: ('u, 'f, 'c) copy) r2"
  shows "deep_copier (pairCopy c1 c2) (pairRep r1 r2)"
proof
  fix h :: "('f, 'c) heap" and p u C
  assume "pairRep r1 r2 h p = Some (u, C)"
  then show "C \<subseteq> dom (hp_cells h)"
    using deep_copier.rep_dom [OF assms(1)] deep_copier.rep_dom [OF assms(2)]
    unfolding pairRep_Some by blast
next
  fix h h' :: "('f, 'c) heap" and p u C
  assume "pairRep r1 r2 h p = Some (u, C)" and "\<forall>a \<in> C. hp_cells h' a = hp_cells h a"
  then show "pairRep r1 r2 h' p = Some (u, C)"
    using deep_copier.rep_local [OF assms(1)] deep_copier.rep_local [OF assms(2)]
    unfolding pairRep_Some by (metis UnCI)
next
  fix h h' :: "('f, 'c) heap" and p u C q
  assume r: "pairRep r1 r2 h p = Some (u, C)" and wf: "heap_wf h" and run: "pairCopy c1 c2 p h = (q, h')"
  from r obtain v A w B where v: "r1 h (fst p) = Some (v, A)" and w: "r2 h (snd p) = Some (w, B)"
    and u: "u = (v, w)" unfolding pairRep_Some by blast
  obtain x h1 where 1: "c1 (fst p) h = (x, h1)" by fastforce
  obtain y h2 where 2: "c2 (snd p) h1 = (y, h2)" by fastforce
  have q: "q = (x, y)" "h' = h2" using run by (simp_all add: pairCopy_def 1 2)
  from deep_copier.copied [OF assms(1) v wf 1] obtain A' where
    h1: "heap_wf h1" "grows h h1" and A': "r1 h1 x = Some (v, A')" "A' \<subseteq> fresh h h1" by blast
  from deep_copier.rep_grows [OF assms(2) w wf h1(2)] have w1: "r2 h1 (snd p) = Some (w, B)" .
  from deep_copier.copied [OF assms(2) w1 h1(1) 2] obtain B' where
    h2: "heap_wf h2" "grows h1 h2" and B': "r2 h2 y = Some (w, B')" "B' \<subseteq> fresh h1 h2" by blast
  have "r1 h2 x = Some (v, A')" by (rule deep_copier.rep_grows [OF assms(1) A'(1) h1(1) h2(2)])
  then have "pairRep r1 r2 h' q = Some (u, A' \<union> B')" using B'(1) u q by (simp add: pairRep_Some)
  moreover have "A' \<union> B' \<subseteq> fresh h h2" using A'(2) B'(2) fresh_mono [OF h1(2) h2(2)] by blast
  ultimately show "heap_wf h' \<and> grows h h' \<and> (\<exists>B. pairRep r1 r2 h' q = Some (u, B) \<and> B \<subseteq> fresh h h')"
    using h2(1) grows_trans [OF h1(2) h2(2)] q(2) by blast
qed

section \<open>Structs\<close>

text \<open>
  A struct denotes its flat fields (the others blanked out with \<open>z\<close>) and what its other fields,
  read with \<open>prj\<close> and set with \<open>put\<close>, denote.
\<close>

definition structRep ::
  "('p \<Rightarrow> 't \<Rightarrow> 't) \<Rightarrow> 'p \<Rightarrow> ('t \<Rightarrow> 'p) \<Rightarrow> ('p, 'v, 'f, 'c) reading \<Rightarrow> ('t, 't \<times> 'v, 'f, 'c) reading" where
  "structRep put z prj r h s = map_option (apfst (Pair (put z s))) (r h (prj s))"

lemma structRep_Some:
  "structRep put z prj r h s = Some (u, A) \<longleftrightarrow> (\<exists>v. r h (prj s) = Some (v, A) \<and> u = (put z s, v))"
  by (auto simp: structRep_def)

lemma struct_copier:
  assumes c: "deep_copier (c :: ('p, 'f, 'c) copy) r"
    and lens: "\<And>p s. prj (put p s) = p" "\<And>p s. put z (put p s) = put z s"
    and into: "\<And>s h. into s h = (let (p, h') = c (prj s) h in (put p s, h'))"
  shows "deep_copier into (structRep put z prj r)"
proof
  fix h :: "('f, 'c) heap" and s u A
  assume "structRep put z prj r h s = Some (u, A)"
  then show "A \<subseteq> dom (hp_cells h)" unfolding structRep_Some using deep_copier.rep_dom [OF c] by blast
next
  fix h h' :: "('f, 'c) heap" and s u A
  assume "structRep put z prj r h s = Some (u, A)" and "\<forall>a \<in> A. hp_cells h' a = hp_cells h a"
  then show "structRep put z prj r h' s = Some (u, A)"
    unfolding structRep_Some using deep_copier.rep_local [OF c] by blast
next
  fix h h' :: "('f, 'c) heap" and s u A t
  assume s: "structRep put z prj r h s = Some (u, A)" and wf: "heap_wf h" and run: "into s h = (t, h')"
  from s obtain v where v: "r h (prj s) = Some (v, A)" and u: "u = (put z s, v)"
    unfolding structRep_Some by blast
  obtain p h1 where 1: "c (prj s) h = (p, h1)" by fastforce
  with run have t: "t = put p s" "h' = h1" by (simp_all add: into)
  from deep_copier.copied [OF c v wf 1] t u
  show "heap_wf h' \<and> grows h h' \<and> (\<exists>B. structRep put z prj r h' t = Some (u, B) \<and> B \<subseteq> fresh h h')"
    unfolding structRep_Some by (auto simp: lens)
qed

section \<open>Pointers and slices\<close>

definition ptrRep ::
  "(('f, 'c) cell \<Rightarrow> bool) \<Rightarrow> (('f, 'c) cell \<Rightarrow> 't) \<Rightarrow> ('t, 'v, 'f, 'c) reading \<Rightarrow>
     (addr option, 'v option, 'f, 'c) reading" where
  "ptrRep is un r h p = (case p of None \<Rightarrow> Some (None, {}) | Some a \<Rightarrow>
     (case load is un h a of None \<Rightarrow> None | Some x \<Rightarrow>
     (case r h x of None \<Rightarrow> None | Some (v, A) \<Rightarrow> Some (Some v, insert a A))))"

lemma load_dom: "load is un h a = Some x \<Longrightarrow> a \<in> dom (hp_cells h)"
  by (auto simp: load_def split: option.splits)

lemma load_local: "hp_cells h' a = hp_cells h a \<Longrightarrow> load is un h' a = load is un h a"
  by (simp add: load_def)

lemma ptrRep_Some:
  "ptrRep is un r h (Some a) = Some (u, C) \<longleftrightarrow> (\<exists>x v A. load is un h a = Some x
     \<and> r h x = Some (v, A) \<and> u = Some v \<and> C = insert a A)"
  "ptrRep is un r h None = Some (u, C) \<longleftrightarrow> u = None \<and> C = {}"
  by (auto simp: ptrRep_def split: option.splits)

lemma ptr_copier:
  assumes c: "deep_copier (into :: ('t, 'f, 'c) copy) r" and k: "\<And>x. is (mk x) \<and> un (mk x) = x"
  shows "deep_copier (copyPtr mk is un into) (ptrRep is un r)"
proof
  fix h :: "('f, 'c) heap" and p u C
  assume r: "ptrRep is un r h p = Some (u, C)"
  show "C \<subseteq> dom (hp_cells h)"
  proof (cases p)
    case (Some a)
    with r obtain x v A where "load is un h a = Some x" "r h x = Some (v, A)" "C = insert a A"
      unfolding Some ptrRep_Some by blast
    with load_dom [of "is" un h a x] deep_copier.rep_dom [OF c, of h x v A] show ?thesis by simp
  qed (use r in \<open>simp add: ptrRep_Some\<close>)
next
  fix h h' :: "('f, 'c) heap" and p u C
  assume r: "ptrRep is un r h p = Some (u, C)" and l: "\<forall>a \<in> C. hp_cells h' a = hp_cells h a"
  show "ptrRep is un r h' p = Some (u, C)"
  proof (cases p)
    case (Some a)
    with r obtain x v A where x: "load is un h a = Some x" "r h x = Some (v, A)" "u = Some v"
      "C = insert a A" by (auto simp: ptrRep_Some)
    with l have "load is un h' a = Some x" using load_local [of h' a h "is" un] by simp
    moreover have "r h' x = Some (v, A)" using deep_copier.rep_local [OF c x(2)] l x(4) by simp
    ultimately show ?thesis using x Some by (auto simp: ptrRep_Some)
  qed (use r in \<open>simp add: ptrRep_Some\<close>)
next
  fix h h' :: "('f, 'c) heap" and p u C q
  assume r: "ptrRep is un r h p = Some (u, C)" and wf: "heap_wf h"
    and run: "copyPtr mk is un into p h = (q, h')"
  show "heap_wf h' \<and> grows h h' \<and> (\<exists>B. ptrRep is un r h' q = Some (u, B) \<and> B \<subseteq> fresh h h')"
  proof (cases p)
    case None
    with run r wf show ?thesis by (auto simp: copyPtr_def ptrRep_Some)
  next
    case (Some a)
    with r obtain x v A where x: "load is un h a = Some x" "r h x = Some (v, A)" "u = Some v"
      by (auto simp: ptrRep_Some)
    obtain out h1 where 1: "alloc (mk x) h = (out, h1)" by fastforce
    obtain y h2 where 2: "into x h1 = (y, h2)" by fastforce
    have q: "q = Some out" "h' = store out (mk y) h2"
      using run by (simp_all add: copyPtr_def Some x(1) 1 2)
    from deep_copier.box [OF c x(2) wf 1 2 k] q x(3) show ?thesis
      unfolding q(1) ptrRep_Some by (metis (no_types, lifting) insert_subset q(2))
  qed
qed

fun listRep :: "('t, 'v, 'f, 'c) reading \<Rightarrow> ('t list, 'v list, 'f, 'c) reading" where
  "listRep r h [] = Some ([], {})"
| "listRep r h (x # xs) = (case r h x of None \<Rightarrow> None | Some (v, A) \<Rightarrow>
     (case listRep r h xs of None \<Rightarrow> None | Some (vs, B) \<Rightarrow> Some (v # vs, A \<union> B)))"

lemma listRep_Cons:
  "listRep r h (x # xs) = Some (u, C) \<longleftrightarrow> (\<exists>v A vs B. r h x = Some (v, A)
     \<and> listRep r h xs = Some (vs, B) \<and> u = v # vs \<and> C = A \<union> B)"
  by (auto split: option.splits)

lemma list_copier:
  assumes c: "deep_copier (into :: ('t, 'f, 'c) copy) r"
  shows "deep_copier (copyElems into) (listRep r)"
proof
  fix h :: "('f, 'c) heap" and xs u C
  show "listRep r h xs = Some (u, C) \<Longrightarrow> C \<subseteq> dom (hp_cells h)"
    using deep_copier.rep_dom [OF c]
    by (induction xs arbitrary: u C) (simp, unfold listRep_Cons, blast)
next
  fix h h' :: "('f, 'c) heap" and xs u C
  show "listRep r h xs = Some (u, C) \<Longrightarrow> \<forall>a \<in> C. hp_cells h' a = hp_cells h a \<Longrightarrow>
      listRep r h' xs = Some (u, C)"
    using deep_copier.rep_local [OF c]
    by (induction xs arbitrary: u C) (simp, unfold listRep_Cons, blast)
next
  fix h h' :: "('f, 'c) heap" and xs u C ys
  show "listRep r h xs = Some (u, C) \<Longrightarrow> heap_wf h \<Longrightarrow> copyElems into xs h = (ys, h') \<Longrightarrow>
      heap_wf h' \<and> grows h h' \<and> (\<exists>B. listRep r h' ys = Some (u, B) \<and> B \<subseteq> fresh h h')"
  proof (induction xs arbitrary: h u C ys)
    case (Cons x xs)
    from Cons.prems(1) obtain v A vs B where v: "r h x = Some (v, A)"
      and vs: "listRep r h xs = Some (vs, B)" and u: "u = v # vs" unfolding listRep_Cons by blast
    obtain y h1 where 1: "into x h = (y, h1)" by fastforce
    obtain zs h2 where 2: "copyElems into xs h1 = (zs, h2)" by fastforce
    have ys: "ys = y # zs" "h' = h2" using Cons.prems(3) by (simp_all add: 1 2)
    from deep_copier.copied [OF c v Cons.prems(2) 1] obtain A' where
      h1: "heap_wf h1" "grows h h1" and A': "r h1 y = Some (v, A')" "A' \<subseteq> fresh h h1" by blast
    have "listRep r h1 xs = Some (vs, B)"
    proof -
      have "r h x = Some (v, A) \<Longrightarrow> r h1 x = Some (v, A)" for x v A
        using deep_copier.rep_grows [OF c _ Cons.prems(2) h1(2)] .
      then show ?thesis using vs
        by (induction xs arbitrary: vs B) (simp, unfold listRep_Cons, blast)
    qed
    from Cons.IH [OF this h1(1) 2 [folded ys(2)]] obtain B' where h2: "heap_wf h'" "grows h1 h'"
      and B': "listRep r h' zs = Some (vs, B')" "B' \<subseteq> fresh h1 h'" by blast
    have "r h' y = Some (v, A')" by (rule deep_copier.rep_grows [OF c A'(1) h1(1) h2(2)])
    then have "listRep r h' ys = Some (u, A' \<union> B')" unfolding ys(1) listRep_Cons using B'(1) u by blast
    moreover have "A' \<union> B' \<subseteq> fresh h h'" using A'(2) B'(2) fresh_mono [OF h1(2) h2(2)] by blast
    ultimately show ?case using h2(1) grows_trans [OF h1(2) h2(2)] by blast
  qed simp
qed

lemma length_copyElems: "copyElems into xs h = (ys, h') \<Longrightarrow> length ys = length xs"
  by (induction xs arbitrary: h ys) (auto split: prod.splits)

definition sliceRep ::
  "(('f, 'c) cell \<Rightarrow> bool) \<Rightarrow> (('f, 'c) cell \<Rightarrow> 't list) \<Rightarrow> ('t, 'v, 'f, 'c) reading \<Rightarrow>
     (go_slice option, 'v list option, 'f, 'c) reading" where
  "sliceRep is un r h s = (case s of None \<Rightarrow> Some (None, {}) | Some sl \<Rightarrow>
     (case load is un h (sl_array sl) of None \<Rightarrow> None | Some arr \<Rightarrow>
     (if sl_off sl + sl_len sl \<le> length arr then
        (case listRep r h (take (sl_len sl) (drop (sl_off sl) arr)) of None \<Rightarrow> None
         | Some (vs, A) \<Rightarrow> Some (Some vs, insert (sl_array sl) A))
      else None)))"

lemma sliceRep_Some:
  "sliceRep is un r h (Some sl) = Some (u, C) \<longleftrightarrow> (\<exists>arr vs A. load is un h (sl_array sl) = Some arr
     \<and> sl_off sl + sl_len sl \<le> length arr
     \<and> listRep r h (take (sl_len sl) (drop (sl_off sl) arr)) = Some (vs, A)
     \<and> u = Some vs \<and> C = insert (sl_array sl) A)"
  "sliceRep is un r h None = Some (u, C) \<longleftrightarrow> u = None \<and> C = {}"
  by (auto simp: sliceRep_def split: option.splits)

lemma copySlice_copies:
  assumes c: "deep_copier (into :: ('t, 'f, 'c) copy) r" and k: "\<And>xs. is (mk xs) \<and> un (mk xs) = xs"
    and r: "sliceRep is un r h s = Some (u, C)" and wf: "heap_wf h"
    and run: "copySlice mk is un into s h = (t, h')"
  shows "heap_wf h' \<and> grows h h' \<and> (\<exists>B. sliceRep is un r h' t = Some (u, B) \<and> B \<subseteq> fresh h h')"
proof (cases s)
  case None
  with run r wf show ?thesis by (auto simp: copySlice_def sliceRep_Some)
next
  case (Some sl)
  with r obtain arr vs A where x: "load is un h (sl_array sl) = Some arr"
    "listRep r h (take (sl_len sl) (drop (sl_off sl) arr)) = Some (vs, A)" "u = Some vs"
    by (auto simp: sliceRep_Some)
  let ?xs = "take (sl_len sl) (drop (sl_off sl) arr)"
  obtain out h1 where 1: "alloc (mk ?xs) h = (out, h1)" by fastforce
  obtain ys h2 where 2: "copyElems into ?xs h1 = (ys, h2)" by fastforce
  let ?t = "\<lparr>sl_array = out, sl_off = 0, sl_len = length ?xs\<rparr>"
  have t: "t = Some ?t" "h' = store out (mk ys) h2"
    using run by (simp_all add: copySlice_def Some x(1) 1 2 Let_def)
  from deep_copier.box [OF list_copier [OF c] x(2) wf 1 2 k] obtain B where
    b: "heap_wf h'" "grows h h'" "out \<in> fresh h h'" "load is un h' out = Some ys"
    "listRep r h' ys = Some (vs, B)" "B \<subseteq> fresh h h'" unfolding t(2) by blast
  have "sliceRep is un r h' t = Some (u, insert out B)"
    unfolding t(1) sliceRep_Some
    by (rule exI [of _ ys], rule exI [of _ vs], rule exI [of _ B])
      (use b(4,5) x(3) length_copyElems [OF 2] in simp)
  with b show ?thesis by blast
qed

lemma slice_copier:
  assumes c: "deep_copier (into :: ('t, 'f, 'c) copy) r" and k: "\<And>xs. is (mk xs) \<and> un (mk xs) = xs"
  shows "deep_copier (copySlice mk is un into) (sliceRep is un r)"
proof
  note l = list_copier [OF c]
  fix h :: "('f, 'c) heap" and s u C
  assume r: "sliceRep is un r h s = Some (u, C)"
  show "C \<subseteq> dom (hp_cells h)"
  proof (cases s)
    case (Some sl)
    with r obtain arr vs A where "load is un h (sl_array sl) = Some arr"
      "listRep r h (take (sl_len sl) (drop (sl_off sl) arr)) = Some (vs, A)"
      "C = insert (sl_array sl) A" unfolding Some sliceRep_Some by blast
    with load_dom [of "is" un h "sl_array sl" arr] deep_copier.rep_dom [OF l, of h _ vs A]
    show ?thesis by simp
  qed (use r in \<open>simp add: sliceRep_Some\<close>)
next
  note l = list_copier [OF c]
  fix h h' :: "('f, 'c) heap" and s u C
  assume r: "sliceRep is un r h s = Some (u, C)" and e: "\<forall>a \<in> C. hp_cells h' a = hp_cells h a"
  show "sliceRep is un r h' s = Some (u, C)"
  proof (cases s)
    case (Some sl)
    with r obtain arr vs A where x: "load is un h (sl_array sl) = Some arr"
      "sl_off sl + sl_len sl \<le> length arr"
      "listRep r h (take (sl_len sl) (drop (sl_off sl) arr)) = Some (vs, A)"
      "u = Some vs" "C = insert (sl_array sl) A" by (auto simp: sliceRep_Some)
    with e have "load is un h' (sl_array sl) = Some arr"
      using load_local [of h' "sl_array sl" h "is" un] by simp
    moreover have "listRep r h' (take (sl_len sl) (drop (sl_off sl) arr)) = Some (vs, A)"
      using deep_copier.rep_local [OF l x(3)] e x(5) by simp
    ultimately show ?thesis using x Some by (auto simp: sliceRep_Some)
  qed (use r in \<open>simp add: sliceRep_Some\<close>)
qed (rule copySlice_copies [OF c k])

end
