(* ===== verification/Copies.thy ===== *)
theory Copies
  imports CopyContract
begin

text \<open>
  Every generated \<open>DeepCopyInto\<close> keeps the contract of \<open>CopyContract\<close>, given that those of the
  Kubernetes structs do; the reading of a struct says which of its fields are followed. The copy
  of a custom resource is equal to the original and shares nothing with it.
\<close>

section \<open>Affinities\<close>

abbreviation stringsRep :: "(go_slice option, string list option, 'f, 'c) reading" where
  "stringsRep \<equiv> sliceRep is_Strings un_Strings flatRep"

lemma strings_copier: "deep_copier copyStrings stringsRep"
  by (rule slice_copier [OF flat.deep_copier_axioms]) simp

definition NodeSelector_rep ::
  "(hNodeSelector, hNodeSelector \<times> string list option, 'f, 'c) reading" where
  "NodeSelector_rep = structRep (\<lambda>p s. s\<lparr>hns_Values := p\<rparr>) None hns_Values stringsRep"

lemma NodeSelector_copier: "deep_copier NodeSelector_DeepCopyInto NodeSelector_rep"
  unfolding NodeSelector_rep_def
  by (rule struct_copier [OF strings_copier]) (simp_all add: NodeSelector_DeepCopyInto_def)

definition NodeAffinity_rep ::
  "(hNodeAffinity, hNodeAffinity \<times> (hNodeSelector \<times> string list option) list option, 'f, 'c) reading"
  where
  "NodeAffinity_rep = structRep (\<lambda>p s. s\<lparr>hna_NodeSelector := p\<rparr>) None hna_NodeSelector
     (sliceRep is_Selectors un_Selectors NodeSelector_rep)"

lemma NodeAffinity_copier: "deep_copier NodeAffinity_DeepCopyInto NodeAffinity_rep"
  unfolding NodeAffinity_rep_def
  by (rule struct_copier [OF slice_copier [where mk = Selectors, OF NodeSelector_copier]])
    (simp_all add: NodeAffinity_DeepCopyInto_def)

definition AffinitySpec_rep where
  "AffinitySpec_rep =
  structRep (\<lambda>p s. s\<lparr>haf_NodeAffinity := fst p, haf_PodAntiAffinity := fst (snd p),
      haf_PodAffinity := snd (snd p)\<rparr>) (None, None, None)
    (\<lambda>s. (haf_NodeAffinity s, haf_PodAntiAffinity s, haf_PodAffinity s))
    (pairRep (ptrRep is_NodeAff un_NodeAff NodeAffinity_rep)
      (pairRep (ptrRep is_PodAnti un_PodAnti flatRep) (ptrRep is_PodAff un_PodAff flatRep)))"

lemma flat_ptr_copiers:
  "deep_copier (copyPtr PodAnti is_PodAnti un_PodAnti copyFlat) (ptrRep is_PodAnti un_PodAnti flatRep)"
  "deep_copier (copyPtr PodAff is_PodAff un_PodAff copyFlat) (ptrRep is_PodAff un_PodAff flatRep)"
  by (rule ptr_copier [OF flat.deep_copier_axioms]; simp)+

lemma AffinitySpec_copier: "deep_copier AffinitySpec_DeepCopyInto AffinitySpec_rep"
  unfolding AffinitySpec_rep_def
  by (rule struct_copier [OF pair_copier [OF ptr_copier [where mk = NodeAff, OF NodeAffinity_copier]
        pair_copier [OF flat_ptr_copiers]]])
    (simp_all add: AffinitySpec_DeepCopyInto_def pairCopy_def Let_def case_prod_beta)

interpretation affinity: deep_copier AffinitySpec_DeepCopyInto AffinitySpec_rep
  by (rule AffinitySpec_copier)

section \<open>The custom resource\<close>

text \<open>
  \<open>R\<close> reads the structs of Kubernetes, and \<open>zf\<close> blanks them out. Their copies are documented to be
  deep copies.
\<close>

definition k8s_ok :: "('f, 'c) k8s_copies \<Rightarrow> ('f, 'v, 'f, 'c) reading \<Rightarrow> bool" where
  "k8s_ok K R \<longleftrightarrow> deep_copier (kc_EnvVar K) R \<and> deep_copier (kc_Resources K) R
     \<and> deep_copier (kc_ObjectMeta K) R \<and> deep_copier (kc_ListMeta K) R
     \<and> deep_copier (kc_Condition K) R"

lemma k8s_okD:
  assumes "k8s_ok K R"
  shows "deep_copier (kc_EnvVar K) R" "deep_copier (kc_Resources K) R"
    "deep_copier (kc_ObjectMeta K) R" "deep_copier (kc_ListMeta K) R" "deep_copier (kc_Condition K) R"
  using assms by (simp_all add: k8s_ok_def)

definition roleRep where
  "roleRep R = pairRep stringsRep (pairRep (sliceRep is_Foreigns un_Foreigns R)
  (pairRep R (ptrRep is_AffSpec un_AffSpec AffinitySpec_rep)))"

lemma role_copier:
  assumes "k8s_ok K R"
  shows "deep_copier (pairCopy copyStrings (pairCopy (copySlice Foreigns is_Foreigns un_Foreigns
      (kc_EnvVar K)) (pairCopy (kc_Resources K)
      (copyPtr AffSpec is_AffSpec un_AffSpec AffinitySpec_DeepCopyInto)))) (roleRep R)"
  unfolding roleRep_def
  by (intro pair_copier strings_copier slice_copier ptr_copier affinity.deep_copier_axioms
      k8s_okD [OF assms]) simp_all

definition ControllerSpec_rep where
  "ControllerSpec_rep zf R =
  structRep (\<lambda>p s. s\<lparr>hcs_JVMOptions := fst p, hcs_Envs := fst (snd p),
      hcs_Resource := fst (snd (snd p)), hcs_Affinity := snd (snd (snd p))\<rparr>)
    (None, None, zf, None)
    (\<lambda>s. (hcs_JVMOptions s, hcs_Envs s, hcs_Resource s, hcs_Affinity s)) (roleRep R)"

definition BrokerSpec_rep where
  "BrokerSpec_rep zf R =
  structRep (\<lambda>p s. s\<lparr>hbs_JVMOptions := fst p, hbs_Envs := fst (snd p),
      hbs_Resource := fst (snd (snd p)), hbs_Affinity := snd (snd (snd p))\<rparr>)
    (None, None, zf, None)
    (\<lambda>s. (hbs_JVMOptions s, hbs_Envs s, hbs_Resource s, hbs_Affinity s)) (roleRep R)"

lemma ControllerSpec_copier:
  "k8s_ok K R \<Longrightarrow> deep_copier (ControllerSpec_DeepCopyInto K) (ControllerSpec_rep zf R)"
  unfolding ControllerSpec_rep_def
  by (rule struct_copier [OF role_copier])
    (simp_all add: ControllerSpec_DeepCopyInto_def pairCopy_def Let_def case_prod_beta)

lemma BrokerSpec_copier:
  "k8s_ok K R \<Longrightarrow> deep_copier (BrokerSpec_DeepCopyInto K) (BrokerSpec_rep zf R)"
  unfolding BrokerSpec_rep_def
  by (rule struct_copier [OF role_copier])
    (simp_all add: BrokerSpec_DeepCopyInto_def pairCopy_def Let_def case_prod_beta)

definition blankController where
  "blankController zf = \<lparr>hcs_Replicas = 0, hcs_JVMOptions = None, hcs_Envs = None,
  hcs_Resource = zf, hcs_Affinity = None, hcs_StorageClass = ''''\<rparr>"

definition blankBroker where
  "blankBroker zf = \<lparr>hbs_Replicas = 0, hbs_JVMOptions = None, hbs_Envs = None,
  hbs_Resource = zf, hbs_Affinity = None, hbs_StorageClass = ''''\<rparr>"

definition AutoMQSpec_rep where
  "AutoMQSpec_rep zf R =
  structRep (\<lambda>p s. s\<lparr>hsp_Controller := fst p, hsp_Broker := snd p\<rparr>)
    (blankController zf, blankBroker zf) (\<lambda>s. (hsp_Controller s, hsp_Broker s))
    (pairRep (ControllerSpec_rep zf R) (BrokerSpec_rep zf R))"

lemma AutoMQSpec_copier:
  "k8s_ok K R \<Longrightarrow> deep_copier (AutoMQSpec_DeepCopyInto K) (AutoMQSpec_rep zf R)"
  unfolding AutoMQSpec_rep_def
  by (rule struct_copier [OF pair_copier [OF ControllerSpec_copier BrokerSpec_copier]])
    (simp_all add: AutoMQSpec_DeepCopyInto_def pairCopy_def Let_def case_prod_beta)

definition AutoMQStatus_rep where
  "AutoMQStatus_rep R =
  structRep (\<lambda>p s. s\<lparr>hst_Conditions := fst p, hst_ControllerAddresses := snd p\<rparr>) (None, None)
    (\<lambda>s. (hst_Conditions s, hst_ControllerAddresses s))
    (pairRep (sliceRep is_Foreigns un_Foreigns R) stringsRep)"

lemma AutoMQStatus_copier:
  "k8s_ok K R \<Longrightarrow> deep_copier (AutoMQStatus_DeepCopyInto K) (AutoMQStatus_rep R)"
  unfolding AutoMQStatus_rep_def
  by (rule struct_copier [OF pair_copier [OF slice_copier [where mk = Foreigns, OF k8s_okD(5)] strings_copier]])
    (simp_all add: AutoMQStatus_DeepCopyInto_def pairCopy_def Let_def case_prod_beta)

definition blankSpec where
  "blankSpec zf = \<lparr>hsp_S3 = spec_S3 zero_spec, hsp_ClusterID = '''', hsp_Image = '''',
  hsp_NodePort = 0, hsp_Metrics = spec_Metrics zero_spec, hsp_Controller = blankController zf,
  hsp_Broker = blankBroker zf\<rparr>"

definition blankStatus where
  "blankStatus = \<lparr>hst_Phase = '''', hst_Conditions = None, hst_ReadyPods = 0,
  hst_ControllerReplicas = 0, hst_BrokerReplicas = 0, hst_ControllerAddresses = None,
  hst_BootstrapInternalAddress = ''''\<rparr>"

definition AutoMQ_rep where
  "AutoMQ_rep zf R =
  structRep (\<lambda>p s. s\<lparr>hmq_ObjectMeta := fst p, hmq_Spec := fst (snd p), hmq_Status := snd (snd p)\<rparr>)
    (zf, blankSpec zf, blankStatus) (\<lambda>s. (hmq_ObjectMeta s, hmq_Spec s, hmq_Status s))
    (pairRep R (pairRep (AutoMQSpec_rep zf R) (AutoMQStatus_rep R)))"

lemma AutoMQ_copier:
  "k8s_ok K R \<Longrightarrow> deep_copier (AutoMQ_DeepCopyInto K) (AutoMQ_rep zf R)"
  unfolding AutoMQ_rep_def
  by (rule struct_copier [OF pair_copier [OF k8s_okD(3) pair_copier [OF AutoMQSpec_copier
        AutoMQStatus_copier]]])
    (simp_all add: AutoMQ_DeepCopyInto_def pairCopy_def Let_def case_prod_beta)

definition AutoMQList_rep where
  "AutoMQList_rep zf R =
  structRep (\<lambda>p s. s\<lparr>hml_ListMeta := fst p, hml_Items := snd p\<rparr>) (zf, None)
    (\<lambda>s. (hml_ListMeta s, hml_Items s))
    (pairRep R (sliceRep is_AutoMQs un_AutoMQs (AutoMQ_rep zf R)))"

lemma AutoMQList_copier:
  "k8s_ok K R \<Longrightarrow> deep_copier (AutoMQList_DeepCopyInto K) (AutoMQList_rep zf R)"
  unfolding AutoMQList_rep_def
  by (rule struct_copier [OF pair_copier [OF k8s_okD(4) slice_copier [where mk = AutoMQs, OF AutoMQ_copier]]])
    (simp_all add: AutoMQList_DeepCopyInto_def pairCopy_def Let_def case_prod_beta)

section \<open>Independence\<close>

context deep_copier
begin

text \<open>Whatever is written later to cells of the one leaves the other as it is.\<close>

lemma independent:
  assumes x: "rep h x = Some (v, A)" and wf: "heap_wf h" and c: "into x h = (y, h')"
  shows "\<exists>B. rep h' y = Some (v, B) \<and> rep h' x = Some (v, A) \<and> A \<inter> B = {}
    \<and> (\<forall>h''. (\<forall>a \<in> - A. hp_cells h'' a = hp_cells h' a) \<longrightarrow> rep h'' y = Some (v, B))
    \<and> (\<forall>h''. (\<forall>a \<in> - B. hp_cells h'' a = hp_cells h' a) \<longrightarrow> rep h'' x = Some (v, A))"
proof -
  from copied [OF x wf c] obtain B where g: "grows h h'" and B: "rep h' y = Some (v, B)"
    "B \<subseteq> fresh h h'" by blast
  have "A \<subseteq> {..<hp_next h}" using rep_dom [OF x] wf by (auto simp: heap_wf_def)
  with B(2) have d: "A \<inter> B = {}" by (fastforce simp: fresh_def)
  have x': "rep h' x = Some (v, A)" by (rule rep_grows [OF x wf g])
  have "rep h'' y = Some (v, B)" if "\<forall>a \<in> - A. hp_cells h'' a = hp_cells h' a" for h''
    by (rule rep_local [OF B(1)]) (use that d in blast)
  moreover have "rep h'' x = Some (v, A)" if "\<forall>a \<in> - B. hp_cells h'' a = hp_cells h' a" for h''
    by (rule rep_local [OF x']) (use that d in blast)
  ultimately show ?thesis using B(1) x' d by blast
qed

end

abbreviation "mqRep zf R \<equiv> ptrRep is_MQ un_MQ (AutoMQ_rep zf R)"

text \<open>
  C31: \<open>DeepCopy\<close> of a custom resource yields a custom resource with the same content, nil fields
  and nil slices included, that shares no memory with the original: whatever is written to the
  cells of the original afterwards leaves the copy as it is, and the other way round. So an
  object of the manager's cache that is copied before it is changed stays intact.
\<close>

theorem deepcopy_independent:
  assumes "k8s_ok K R" and "heap_wf h" and "mqRep zf R h p = Some (v, A)"
    and "AutoMQ_DeepCopy K p h = (q, h')"
  shows "\<exists>B. mqRep zf R h' q = Some (v, B) \<and> mqRep zf R h' p = Some (v, A) \<and> A \<inter> B = {}
    \<and> (\<forall>h''. (\<forall>a \<in> - A. hp_cells h'' a = hp_cells h' a) \<longrightarrow> mqRep zf R h'' q = Some (v, B))
    \<and> (\<forall>h''. (\<forall>a \<in> - B. hp_cells h'' a = hp_cells h' a) \<longrightarrow> mqRep zf R h'' p = Some (v, A))"
proof -
  have "deep_copier (copyPtr MQ is_MQ un_MQ (AutoMQ_DeepCopyInto K)) (mqRep zf R)"
    by (rule ptr_copier [OF AutoMQ_copier [OF assms(1)]]) simp
  from deep_copier.independent [OF this assms(3,2) assms(4) [unfolded AutoMQ_DeepCopy_def]]
  show ?thesis .
qed

text \<open>Flat Kubernetes structs, and a custom resource with one JVM option.\<close>

definition flatK8s :: "(string, unit) k8s_copies" where
  "flatK8s = \<lparr>kc_EnvVar = copyFlat, kc_Resources = copyFlat, kc_ObjectMeta = copyFlat,
     kc_ListMeta = copyFlat, kc_Condition = copyFlat\<rparr>"

definition sampleMQ :: "string hAutoMQ" where
  "sampleMQ = \<lparr>hmq_TypeMeta = (''infra.cuisongliu.github.com/v1beta1'', ''AutoMQ''),
     hmq_ObjectMeta = ''mq'', hmq_Spec = (blankSpec '''')\<lparr>hsp_Controller := (blankController '''')
       \<lparr>hcs_JVMOptions := Some \<lparr>sl_array = 1, sl_off = 0, sl_len = 1\<rparr>\<rparr>\<rparr>,
     hmq_Status = blankStatus\<rparr>"

definition sampleHeap :: "(string, unit) heap" where
  "sampleHeap = \<lparr>hp_cells = [0 \<mapsto> MQ sampleMQ, 1 \<mapsto> Strings [''-Xmx1g'']], hp_next = 2\<rparr>"

lemma sampleHeap_read:
  "\<exists>v. mqRep '''' flatRep sampleHeap (Some 0) = Some (v, {0, 1})"
  by (simp add: ptrRep_def load_def sampleHeap_def AutoMQ_rep_def structRep_def pairRep_def
      AutoMQSpec_rep_def ControllerSpec_rep_def BrokerSpec_rep_def roleRep_def flatRep_def
      AutoMQStatus_rep_def sliceRep_def sampleMQ_def blankSpec_def blankController_def
      blankBroker_def blankStatus_def insert_commute)

theorem deepcopy_independent_witness:
  "\<exists>q h' v B. AutoMQ_DeepCopy flatK8s (Some 0) sampleHeap = (q, h')
    \<and> mqRep '''' flatRep sampleHeap (Some 0) = Some (v, {0, 1})
    \<and> mqRep '''' flatRep (store 1 (Strings [''-Xmx8g'']) h') q = Some (v, B)"
proof -
  have k: "k8s_ok flatK8s flatRep"
    using flat.deep_copier_axioms by (simp add: k8s_ok_def flatK8s_def)
  have wf: "heap_wf sampleHeap" by (auto simp: heap_wf_def sampleHeap_def)
  obtain v where v: "mqRep '''' flatRep sampleHeap (Some 0) = Some (v, {0, 1})"
    using sampleHeap_read by blast
  obtain q h' where run: "AutoMQ_DeepCopy flatK8s (Some 0) sampleHeap = (q, h')" by fastforce
  from deepcopy_independent [OF k wf v run] obtain B where
    "\<forall>h''. (\<forall>a \<in> - {0, 1}. hp_cells h'' a = hp_cells h' a) \<longrightarrow> mqRep '''' flatRep h'' q = Some (v, B)"
    by blast
  moreover have "\<forall>a \<in> - {0, 1}. hp_cells (store 1 (Strings [''-Xmx8g'']) h') a = hp_cells h' a"
    by (simp add: store_def)
  ultimately show ?thesis using run v by blast
qed

end
