(* ===== verification/Spec2Isabelle.thy ===== *)
theory Spec2Isabelle
  imports Arrival Stability Validity Topology Restore Addresses Startup Release Copies
begin

text \<open>
  A model of the AutoMQ operator: a Kubernetes operator, built on controller-runtime, that runs
  Kafka clusters on object storage. A custom resource \<open>AutoMQ\<close> describes a cluster; the
  operator keeps a config map, and for every controller and broker replica a volume claim, a
  deployment and a service, in the state the description asks for.

  \<^bold>\<open>How the program works, and where it is modelled.\<close>

  \<^item> \<open>cmd/main.go\<close> starts the operator: manager, controller, webhook, environment, health checks
    (\<open>Startup\<close>: \<open>main_run\<close>, \<open>SetupWithManager\<close>).
  \<^item> \<open>api/v1beta1/automq_webhook.go\<close> defaults and validates custom resources before the API server
    stores them (\<open>Webhook\<close>: \<open>Default\<close>, \<open>ValidateCreate\<close>, \<open>ValidateUpdate\<close>; the interface
    \<open>admission\<close>). The types of \<open>automq_types.go\<close> are the records of \<open>ApiTypes\<close>.
  \<^item> \<open>internal/controller/automq_controller.go\<close>: \<open>Reconcile\<close> serves a request for a custom resource.
    A deleted one is cleaned up and loses its finalizer; a live one gets the finalizer, starts a
    status ticker, and runs the pipeline of seven stages, each of which sets one condition of
    the status and may stop the pipeline; the status is then written (\<open>Reconciler\<close>).
  \<^item> \<open>automq_controller_c.go\<close> and \<open>automq_controller_b.go\<close> are the stages of the controllers and of
    the brokers: scale-down, claims, deployments, services, the bootstrap service, and the
    deletions of the cleanup (\<open>ControllerRole\<close>, \<open>BrokerRole\<close>; what their pods share is
    \<open>PodParts\<close>, names, labels and quorum voters are \<open>Naming\<close>, with \<open>init_contrainer.go\<close>).
  \<^item> \<open>automq_status_controller.go\<close> computes the phase of the status from the conditions and the
    running pods every five seconds (\<open>StatusController\<close>).
  \<^item> \<open>automq_apis.go\<close> serves the address of a node to the brokers (\<open>NodeApi\<close>).
  \<^item> \<open>internal/pkg/storage\<close> is the client of the object store (\<open>Storage\<close>, \<open>Addresses\<close>).
  \<^item> \<open>defaults/zz_generated_bindata.go\<close> embeds the start script of the pods (\<open>Assets\<close>).
  \<^item> \<open>api/v1beta1/zz_generated.deepcopy.go\<close> copies the API types (\<open>DeepCopy\<close>, on a heap).
  \<^item> \<open>gen/version/gen.go\<close> prepares a release (\<open>Release\<close>).

  \<^bold>\<open>Correspondence.\<close> A Go function is a HOL function of the same name. Effects are explicit: the
  outside world is a state of an arbitrary type that every call takes and returns. An \<open>error\<close> is
  an option or a sum; a panic is the constructor \<open>Panic\<close> of the type \<open>go\<close> of outcomes. \<open>int32\<close> is
  a word of 32 bits, read with \<open>sint\<close>; \<open>int\<close> is \<open>int\<close> where it counts. A map is a partial
  function; a pointer, and a slice whose nilness matters, is an option. Loops are recursive
  functions: \<open>for_int\<close> and \<open>for_ret\<close> of \<open>Prelude\<close> for counted loops without and with early
  return, functions by recursion on the list for the others. Loops that end with \<open>defer\<close> or
  logging keep their order of calls; logging itself is left out.

  \<^bold>\<open>What is not code of the repository\<close> is a parameter: the API server with controller-runtime's
  client and helpers (the record \<open>kube\<close> of \<open>Kube\<close>), the AWS SDK (\<open>s3_sdk\<close> of \<open>Storage\<close>), the
  file system (\<open>os_fs\<close> of \<open>Assets\<close>), the manager (\<open>manager\<close> of \<open>Startup\<close>), \<open>url.Parse\<close> and
  \<open>rand.Intn\<close> (arguments in \<open>Addresses\<close>), the deep copies of the Kubernetes structs
  (\<open>k8s_copies\<close> of \<open>DeepCopy\<close>), and the environment and the bytes of the script (fields of
  \<open>reconciler\<close>). What the operator relies on is stated as laws of these parameters: \<open>kube_laws\<close>,
  relative to a function \<open>view\<close> that reads the stored objects; \<open>s3_quiet\<close>; \<open>fs_laws\<close>;
  \<open>k8s_ok\<close>; \<open>responsive\<close> and \<open>healthy\<close>, for liveness only; \<open>write_laws\<close>, what a write that may
  fail leaves and that a service keeps the node ports it was given, for stability only. \<open>MemCluster\<close> is a cluster in memory that obeys
  \<open>kube_laws\<close>, and \<open>MemOperator\<close> an operator on it: the witnesses run there.

  \<^bold>\<open>Interfaces.\<close> \<open>delete_loop\<close> and \<open>sync_loop\<close> (\<open>ReplicaLoops\<close>) are the contracts of the loops over
  replicas, with the loops of both roles as instances; \<open>pipeline_stage\<close> (\<open>Pipeline\<close>) is the
  contract of a stage, with the seven stages as instances; \<open>admission\<close> (\<open>Webhook\<close>) that of
  defaulting and validation; \<open>deep_copier\<close> (\<open>CopyContract\<close>) that of a deep copy.

  \<^bold>\<open>What the theorems show.\<close>

  \<^item> \<open>Convergence\<close>: a stage that reports success has brought its resources into the desired state;
    what scaling down removes, and that brokers' deployments survive it.
  \<^item> \<open>Healthy\<close> and \<open>Desired\<close>: the desired state of a whole cluster as one specification of the stored
    objects (\<open>desired\<close>), which a reconciliation reaches that reports success; where no call fails
    (\<open>healthy\<close>), it does. \<open>Concurrent\<close>: it reaches it under interference as well, since the other
    steps of the operator leave alone what its stages bring about (\<open>stagesRan\<close>, \<open>underWay\<close>); and
    it puts the phase back to what it was when it started. \<open>Settled\<close> and \<open>Stability\<close>: once a cluster
    is in the desired state, no step of the operator removes one of its objects or makes it
    deviate, whichever calls fail; \<open>settled\<close> is \<open>desired\<close> key by key, with the node ports named.
  \<^item> \<open>Topology\<close>: node ids are unique, quorum voters name the controllers, and both stay the same
    over every update the webhook accepts; what the webhook accepts and stores.
  \<^item> \<open>Lifecycle\<close>: \<open>Reconcile\<close> touches only what the custom resource owns, never panics, adds the
    finalizer before anything else and drops it only after a cleanup without error; what it
    records; what is lost when the object store fails or the server refuses a deletion.
  \<^item> \<open>Observation\<close>: the phase and the pod count a ticker stores, the node endpoint, the first stage
    and the retry settings of the object-storage client.
  \<^item> \<open>Operator\<close>, \<open>Interleavings\<close> and \<open>Progress\<close>: the operator as a state machine that interleaves the
    steps of reconciliations (start, each stage, the final status update), the two halves of
    every pass of a ticker, and foreign changes. A call of \<open>Reconcile\<close> that is not interrupted is
    the function; what no interleaving touches; that every reconciliation ends, tickers
    accumulate, and what is deleted stays deleted; that a stale pass wins over a newer status,
    and that a cluster whose stages succeeded and whose pods run gets ready. \<open>Arrival\<close> puts the
    parts together: from a new custom resource to phase Ready, where no call fails, the server
    stores what it is sent (\<open>storing\<close>) and the platform runs the pods (\<open>podsRun\<close>).
  \<^item> \<open>Rollout\<close>: mutations are idempotent and selectors exact; the script hash and the image of the
    specification are never used; two custom resources in one namespace clash.
  \<^item> \<open>Validity\<close>: what the operator builds passes the API server's rules for names, labels,
    deployments and services, unless the name of the custom resource is too long.
  \<^item> \<open>Startup\<close>, \<open>Restore\<close>, \<open>Addresses\<close>, \<open>Release\<close>, \<open>Copies\<close>: a manager starts only in a complete
    environment; restoring assets terminates and writes what the table holds; addresses of
    objects are rewritten and read back; what a release does with an image name; copies share
    nothing with their originals.

  \<^bold>\<open>Bounds.\<close> No model of the operator has fuel. \<open>RestoreAssets\<close> takes a bound on the depth of its
  calls, and three is enough for every name (\<open>restore_returns\<close>). Retrying on conflicts is any
  number of attempts (\<open>retry_run\<close>).

  \<^bold>\<open>Not modelled.\<close> Logging, events and metrics; the parsing of the command line; the registration
  of types with the scheme (\<open>groupversion_info.go\<close>, the \<open>init\<close> functions); the HTTP router; the
  work queue and caches of controller-runtime; the asset generator (\<open>gen/bindata\<close>), one call of
  a library; the tests under \<open>e2e\<close>; the start script itself, of which \<open>Topology\<close> only uses how
  flags are read. Inside a stage the calls of the
  client are not interleaved with other steps; the theorems about a stage quantify over the
  functions of the client instead. YAML manifests under \<open>config\<close> and \<open>deploy\<close> are no code.
  Timestamps of conditions are left out.
\<close>

end
